(* ===== verification/Prelude.thy ===== *)
theory Prelude
  imports Complex_Main "HOL-Library.Word"
begin

text \<open>
  Shared vocabulary of the development: the type synonyms of the model (bytes, identifiers,
  times), Go errors as values, the 64-bit wrap-around of Go's \<^verbatim>\<open>int64\<close>, list tables with
  a key (the rows of a database table), bounded logs, and the generic machine whose
  invariant is kept by every step.  Every component theory imports this one.
\<close>

named_theorems row_simps \<open>rewrite rules for list tables addressed by a key\<close>
named_theorems keeps \<open>an operation keeps the invariant of its component\<close>

section \<open>Types of the model\<close>

text \<open>
  A Go \<^verbatim>\<open>string\<close> and a Go \<^verbatim>\<open>[]byte\<close> are both sequences of bytes; a \<^typ>\<open>char\<close> is a byte,
  so both are \<^typ>\<open>string\<close> and the conversions between them are the identity.
  A UUID is an opaque 128-bit identity, a natural number here; its textual form is the
  business of the \<^verbatim>\<open>google/uuid\<close> package and a parameter wherever a definition needs it.
  A point in time is a number of nanoseconds.
\<close>

type_synonym bytes = string
type_synonym uuid = nat
type_synonym time = int

abbreviation Second :: int where "Second \<equiv> 1000000000"
abbreviation Minute :: int where "Minute \<equiv> 60 * Second"
abbreviation Hour :: int where "Hour \<equiv> 60 * Minute"

section \<open>Go errors\<close>

text \<open>
  An error value: the sentinel errors of the packages (compared with \<^verbatim>\<open>errors.Is\<close>), a plain
  error that is only its text, and an error wrapped by \<^verbatim>\<open>fmt.Errorf("...: %w", err)\<close>.
\<close>

datatype go_error =
    ErrText string
  | ErrNoRows
  | ErrAlertRuleNotFound
  | ErrTooManyAlertRules
  | ErrUnknownType string
  | ErrMissingVar string
  | errNoSamples
  | Wrapped string go_error

type_synonym 'a result = "go_error + 'a"

primrec unwrap :: "go_error \<Rightarrow> go_error" where
  "unwrap (ErrText m) = ErrText m"
| "unwrap ErrNoRows = ErrNoRows"
| "unwrap ErrAlertRuleNotFound = ErrAlertRuleNotFound"
| "unwrap ErrTooManyAlertRules = ErrTooManyAlertRules"
| "unwrap (ErrUnknownType m) = ErrUnknownType m"
| "unwrap (ErrMissingVar m) = ErrMissingVar m"
| "unwrap errNoSamples = errNoSamples"
| "unwrap (Wrapped _ e) = unwrap e"

text \<open>The text of an error, as \<^verbatim>\<open>err.Error()\<close> gives it.\<close>

primrec error_string :: "go_error \<Rightarrow> string" where
  "error_string (ErrText m) = m"
| "error_string ErrNoRows = ''no rows in result set''"
| "error_string ErrAlertRuleNotFound = ''alert rule not found''"
| "error_string ErrTooManyAlertRules = ''maximum 10 alert rules allowed''"
| "error_string (ErrUnknownType m) = ''notification: unknown type: '' @ m"
| "error_string (ErrMissingVar m) = ''notification: missing template variable: '' @ m"
| "error_string errNoSamples = ''no samples''"
| "error_string (Wrapped m e) = m @ '': '' @ error_string e"

section \<open>64-bit integers\<close>

text \<open>Go's \<^verbatim>\<open>int64\<close> (and \<^verbatim>\<open>int\<close> on 64-bit targets): arithmetic wraps around.\<close>

definition wrap64 :: "int \<Rightarrow> int" where
  "wrap64 n = (n + 2 ^ 63) mod 2 ^ 64 - 2 ^ 63"

definition in_int64 :: "int \<Rightarrow> bool" where
  "in_int64 n \<longleftrightarrow> - (2 ^ 63) \<le> n \<and> n < 2 ^ 63"

definition sat64 :: "int \<Rightarrow> int" where
  "sat64 n = (if n < - (2 ^ 63) then - (2 ^ 63) else if 2 ^ 63 \<le> n then 2 ^ 63 - 1 else n)"

lemma wrap64_in: "in_int64 (wrap64 n)"
  unfolding in_int64_def wrap64_def
  using pos_mod_bound [of "2 ^ 64" "n + 2 ^ 63"] pos_mod_sign [of "2 ^ 64" "n + 2 ^ 63"]
  by auto

lemma wrap64_id [simp]: "in_int64 n \<Longrightarrow> wrap64 n = n"
  by (simp add: in_int64_def wrap64_def)

lemma wrap64_congr: "wrap64 n mod 2 ^ 64 = n mod 2 ^ 64"
proof -
  have "wrap64 n mod 2 ^ 64 = (n + 2 ^ 63 - 2 ^ 63) mod 2 ^ 64"
    unfolding wrap64_def by (rule mod_diff_left_eq)
  then show ?thesis by simp
qed

lemma sat64_in: "in_int64 (sat64 n)"
  by (simp add: in_int64_def sat64_def)

lemma sat64_id [simp]: "in_int64 n \<Longrightarrow> sat64 n = n"
  by (auto simp: in_int64_def sat64_def)

lemma less_sat64_iff: "- (2 ^ 63) \<le> b \<Longrightarrow> b < 2 ^ 63 - 1 \<Longrightarrow> b < sat64 n \<longleftrightarrow> b < n"
  by (auto simp: sat64_def)

section \<open>List tables with a key\<close>

text \<open>
  A database table is the list of its rows.  \<open>find_by key k rows\<close> is the row a
  \<^verbatim>\<open>SELECT ... WHERE key = k\<close> returns, \<open>update_by key k f rows\<close> an \<^verbatim>\<open>UPDATE\<close> of the rows with
  that key, \<open>keys key rows\<close> the key column.
\<close>

definition find_by :: "('r \<Rightarrow> 'k) \<Rightarrow> 'k \<Rightarrow> 'r list \<Rightarrow> 'r option" where
  "find_by key k rows = find (\<lambda>r. key r = k) rows"

definition update_by :: "('r \<Rightarrow> 'k) \<Rightarrow> 'k \<Rightarrow> ('r \<Rightarrow> 'r) \<Rightarrow> 'r list \<Rightarrow> 'r list" where
  "update_by key k f rows = map (\<lambda>r. if key r = k then f r else r) rows"

definition keys :: "('r \<Rightarrow> 'k) \<Rightarrow> 'r list \<Rightarrow> 'k list" where
  "keys key rows = map key rows"

lemma find_by_Nil [simp]: "find_by key k [] = None"
  by (simp add: find_by_def)

lemma find_by_Cons: "find_by key k (r # rs) = (if key r = k then Some r else find_by key k rs)"
  by (simp add: find_by_def)

lemma find_by_Some_iff_distinct:
  "distinct (keys key rows) \<Longrightarrow> find_by key k rows = Some r \<longleftrightarrow> r \<in> set rows \<and> key r = k"
  by (induction rows) (auto simp: find_by_Cons keys_def)

lemma find_by_SomeD: "find_by key k rows = Some r \<Longrightarrow> r \<in> set rows \<and> key r = k"
  by (induction rows) (auto simp: find_by_Cons split: if_splits)

lemma find_by_None_iff: "find_by key k rows = None \<longleftrightarrow> k \<notin> set (keys key rows)"
  by (induction rows) (auto simp: find_by_Cons keys_def)

lemma find_by_update_same:
  "(\<And>r. key (f r) = key r) \<Longrightarrow> find_by key k (update_by key k f rows) = map_option f (find_by key k rows)"
  by (induction rows) (auto simp: find_by_Cons update_by_def)

lemma find_by_update_other:
  "(\<And>r. key (f r) = key r) \<Longrightarrow> j \<noteq> k \<Longrightarrow>
   find_by key j (update_by key k f rows) = find_by key j rows"
  by (induction rows) (auto simp: find_by_Cons update_by_def)

lemma find_by_append [row_simps]:
  "find_by key k (xs @ ys) = (case find_by key k xs of Some r \<Rightarrow> Some r | None \<Rightarrow> find_by key k ys)"
  by (induction xs) (auto simp: find_by_Cons)

lemma keys_update_by:
  "(\<And>r. h (f r) = h r) \<Longrightarrow> keys h (update_by key k f rows) = keys h rows"
  by (induction rows) (auto simp: keys_def update_by_def)

lemma keys_append [row_simps]: "keys key (xs @ ys) = keys key xs @ keys key ys"
  by (simp add: keys_def)

lemma keys_Cons [row_simps]: "keys key (x # xs) = key x # keys key xs"
  by (simp add: keys_def)

lemma keys_Nil [simp]: "keys key [] = []"
  by (simp add: keys_def)

lemma set_keys: "set (keys key rows) = key ` set rows"
  by (simp add: keys_def)

lemma distinct_keys_filter: "distinct (keys key rows) \<Longrightarrow> distinct (keys key (filter P rows))"
  by (induction rows) (auto simp: keys_def)

lemma length_update_by [row_simps]: "length (update_by key k f rows) = length rows"
  by (simp add: update_by_def)

lemma set_update_by: "set (update_by key k f rows) = {if key r = k then f r else r | r. r \<in> set rows}"
  by (auto simp: update_by_def)

lemma ball_update_by:
  "(\<forall>r \<in> set rows. P r) \<Longrightarrow> (\<And>r. r \<in> set rows \<Longrightarrow> key r = k \<Longrightarrow> P r \<Longrightarrow> P (f r)) \<Longrightarrow>
   \<forall>r \<in> set (update_by key k f rows). P r"
  by (auto simp: set_update_by)

lemma update_by_absent: "k \<notin> set (keys key rows) \<Longrightarrow> update_by key k f rows = rows"
  by (induction rows) (auto simp: update_by_def keys_def)

lemma take_upto: "int k \<le> b - a + 1 \<Longrightarrow> take k [a .. b] = [a .. a + int k - 1]"
  by (rule nth_equalityI) (auto simp: nth_upto)

lemma count_list_remove1:
  "count_list (remove1 x xs) y = count_list xs y - (if x = y \<and> x \<in> set xs then 1 else 0)"
  by (induction xs) (auto simp: count_list_0_iff Suc_diff_le count_notin)

section \<open>Bounded logs\<close>

text \<open>
  Appending to a slice and cutting it back to its last \<open>n\<close> elements, the way
  \<^verbatim>\<open>echoSink.record\<close> and \<^verbatim>\<open>Hub.publish\<close> keep their logs.
\<close>

definition lastn :: "nat \<Rightarrow> 'a list \<Rightarrow> 'a list" where
  "lastn n xs = drop (length xs - n) xs"

lemma length_lastn: "length (lastn n xs) = min n (length xs)"
  by (simp add: lastn_def)

lemma lastn_all: "length xs \<le> n \<Longrightarrow> lastn n xs = xs"
  by (simp add: lastn_def)

lemma lastn_snoc_mem: "0 < n \<Longrightarrow> x \<in> set (lastn n (xs @ [x]))"
  by (cases n) (auto simp: lastn_def)

lemma lastn_lastn_snoc: "0 < n \<Longrightarrow> lastn n (lastn n xs @ [x]) = lastn n (xs @ [x])"
proof (cases "n \<le> length xs")
  case True
  assume "0 < n"
  with True have "Suc (length xs) - n = Suc (length xs - n)" "Suc (length xs - (length xs - n)) - n = 1"
    by auto
  with True \<open>0 < n\<close> show ?thesis by (simp add: lastn_def)
qed (simp add: lastn_def)

lemma lastn_lastn_app: "0 < n \<Longrightarrow> lastn n (lastn n xs @ ys) = lastn n (xs @ ys)"
proof (induction ys rule: rev_induct)
  case Nil
  then show ?case by (simp add: lastn_def)
next
  case (snoc y ys)
  then have "lastn n (lastn n xs @ ys @ [y]) = lastn n (lastn n (lastn n xs @ ys) @ [y])"
    using lastn_lastn_snoc [of n "lastn n xs @ ys" y] by simp
  also have "\<dots> = lastn n (xs @ ys @ [y])"
    using snoc lastn_lastn_snoc [of n "xs @ ys" y] by simp
  finally show ?case .
qed

text \<open>The contract of such a log: pushing appends an entry and keeps the last \<open>cap\<close>.\<close>

locale bounded_log =
  fixes push :: "'e \<Rightarrow> 's \<Rightarrow> 's"
    and log :: "'s \<Rightarrow> 'e list"
    and entry :: "'s \<Rightarrow> 'e \<Rightarrow> 'e"
    and cap :: nat
  assumes cap_pos: "0 < cap"
    and log_push: "log (push e s) = lastn cap (log s @ [entry s e])"
    and entry_push: "entry (push e s) = entry s"
begin

lemma log_bound_push: "length (log (push e s)) \<le> cap"
  by (simp add: log_push length_lastn)

lemma newest_kept: "entry s e \<in> set (log (push e s))"
  by (simp add: log_push lastn_snoc_mem cap_pos)

lemma entry_run: "entry (fold push es s) = entry s"
  by (induction es arbitrary: s) (auto simp: entry_push)

lemma log_run:
  "log (fold push es s) = lastn cap (log s @ map (entry s) es)" if "length (log s) \<le> cap"
  using that
proof (induction es rule: rev_induct)
  case Nil
  then show ?case by (simp add: lastn_all)
next
  case (snoc e es)
  then show ?case
    using lastn_lastn_snoc [OF cap_pos, of "log s @ map (entry s) es" "entry s e"]
    by (simp add: log_push entry_run)
qed

end

section \<open>Machines and their invariants\<close>

text \<open>
  A component driven by a list of calls, in any order: an invariant that every call keeps
  holds after every sequence of calls.
\<close>

locale inv_machine =
  fixes step :: "'l \<Rightarrow> 's \<Rightarrow> 's"
    and inv :: "'s \<Rightarrow> bool"
  assumes step_inv: "inv s \<Longrightarrow> inv (step l s)"
begin

lemma run_inv: "inv s \<Longrightarrow> inv (fold step ls s)"
  by (induction ls arbitrary: s) (auto intro: step_inv)

end

text \<open>An invariant of a step relation holds along every run.\<close>

locale inv_relation =
  fixes step :: "'w \<Rightarrow> 'w \<Rightarrow> bool" and inv :: "'w \<Rightarrow> bool"
  assumes inv_step: "inv w \<Longrightarrow> step w w' \<Longrightarrow> inv w'"
begin

lemma steps_inv: "step\<^sup>*\<^sup>* w w' \<Longrightarrow> inv w \<Longrightarrow> inv w'"
  by (induction rule: rtranclp_induct) (auto intro: inv_step)

end

end
