(* ===== verification/Float64.thy ===== *)
theory Float64
  imports Prelude
begin

text \<open>
  Go's \<^verbatim>\<open>float64\<close> arithmetic.  A finite \<^verbatim>\<open>float64\<close> is the rational it denotes; an operation is the
  exact operation followed by \<open>f64\<close>, rounding to the nearest value with a 53-bit
  significand, ties to even.  The exponent range is not bounded: a value past \<open>2^1024\<close> is
  \<^verbatim>\<open>+Inf\<close> in Go and a large rational here, and the only operations the sources apply to such a
  value, comparison with small numbers and conversion to \<^verbatim>\<open>int64\<close>, treat both alike.
\<close>

type_synonym float64 = rat

section \<open>Binary exponent\<close>

fun ilog2 :: "nat \<Rightarrow> nat" where
  "ilog2 n = (if n < 2 then 0 else Suc (ilog2 (n div 2)))"

declare ilog2.simps [simp del]

lemma ilog2_bounds: "0 < n \<Longrightarrow> 2 ^ ilog2 n \<le> n \<and> n < 2 ^ Suc (ilog2 n)"
proof (induction n rule: ilog2.induct)
  case (1 n)
  show ?case
  proof (cases "n < 2")
    case True
    with 1(2) show ?thesis by (simp add: ilog2.simps [of n])
  next
    case False
    with 1(1) have "2 ^ ilog2 (n div 2) \<le> n div 2" "n div 2 < 2 ^ Suc (ilog2 (n div 2))" by auto
    then have "2 * 2 ^ ilog2 (n div 2) \<le> n" "n < 2 * 2 ^ Suc (ilog2 (n div 2))" by linarith+
    with False show ?thesis by (simp add: ilog2.simps [of n])
  qed
qed

lemma powi_lessD: "(2::rat) powi a < 2 powi b \<Longrightarrow> a < b"
  by (metis linorder_not_le one_le_numeral power_int_increasing)

lemma le_pow_of_int: "0 < n \<Longrightarrow> 2 ^ k \<le> nat n \<Longrightarrow> (2::rat) ^ k \<le> of_int n"
  by (metis le_nat_iff less_imp_le of_int_le_iff of_int_numeral of_int_power of_nat_numeral of_nat_power)

lemma less_pow_of_int: "0 < n \<Longrightarrow> nat n < 2 ^ k \<Longrightarrow> of_int n < (2::rat) ^ k"
  by (metis nat_less_iff of_int_less_iff of_int_numeral of_int_power of_nat_numeral of_nat_power less_imp_le)

text \<open>\<open>expo x\<close> is the binary exponent of a positive rational: \<open>2^e \<le> x < 2^(e+1)\<close>.\<close>

definition expo :: "rat \<Rightarrow> int" where
  "expo x =
     (let (n, d) = quotient_of x;
          k = int (ilog2 (nat n)) - int (ilog2 (nat d))
      in if 2 powi k \<le> x then k else k - 1)"

lemma expo_bounds:
  assumes "0 < x"
  shows "2 powi expo x \<le> x" and "x < 2 powi (expo x + 1)"
proof -
  obtain n d where q: "quotient_of x = (n, d)" by (cases "quotient_of x")
  have d: "0 < d" using quotient_of_denom_pos [OF q] .
  have x: "x = of_int n / of_int d" using quotient_of_div [OF q] .
  with assms d have n: "0 < n" by (simp add: zero_less_divide_iff)
  let ?a = "ilog2 (nat n)" and ?b = "ilog2 (nat d)"
  have na: "2 ^ ?a \<le> nat n" "nat n < 2 ^ Suc ?a" using ilog2_bounds [of "nat n"] n by auto
  have db: "2 ^ ?b \<le> nat d" "nat d < 2 ^ Suc ?b" using ilog2_bounds [of "nat d"] d by auto
  have nr: "(2::rat) ^ ?a \<le> of_int n" "of_int n < (2::rat) ^ Suc ?a"
    using na n by (auto intro: le_pow_of_int less_pow_of_int simp del: power_Suc)
  have dr: "(2::rat) ^ ?b \<le> of_int d" "of_int d < (2::rat) ^ Suc ?b"
    using db d by (auto intro: le_pow_of_int less_pow_of_int simp del: power_Suc)
  let ?k = "int ?a - int ?b"
  have k: "(2::rat) powi ?k = 2 ^ ?a / 2 ^ ?b"
    by (simp add: power_int_diff)
  have dpos: "(0::rat) < of_int d" using d by simp
  have up: "x < 2 * 2 powi ?k"
  proof -
    have "of_int n * (2::rat) ^ ?b < 2 ^ Suc ?a * of_int d"
      using nr dr dpos n by (intro mult_less_le_imp_less) auto
    then show ?thesis unfolding x k using dpos by (simp add: field_simps)
  qed
  have lo: "2 powi ?k / 2 < x"
  proof -
    have "(2::rat) ^ ?a * of_int d < of_int n * 2 ^ Suc ?b"
      using nr dr dpos n by (intro mult_le_less_imp_less) auto
    then show ?thesis unfolding x k using dpos by (simp add: field_simps)
  qed
  have e: "expo x = (if 2 powi ?k \<le> x then ?k else ?k - 1)"
    by (simp add: expo_def q Let_def)
  show "2 powi expo x \<le> x"
    using lo by (auto simp: e power_int_diff)
  show "x < 2 powi (expo x + 1)"
  proof (cases "2 powi ?k \<le> x")
    case True
    with up show ?thesis by (simp add: e power_int_add)
  next
    case False
    then show ?thesis by (simp add: e)
  qed
qed

lemma expo_unique:
  assumes "2 powi e \<le> x" and "x < 2 powi (e + 1)"
  shows "expo x = e"
proof -
  have "(0::rat) < 2 powi e" by simp
  with assms have "0 < x" by linarith
  note b = expo_bounds [OF this]
  have "(2::rat) powi e < 2 powi (expo x + 1)" "(2::rat) powi expo x < 2 powi (e + 1)"
    using assms b by linarith+
  then have "e < expo x + 1" "expo x < e + 1"
    by (auto dest: powi_lessD)
  then show ?thesis by linarith
qed

section \<open>Rounding\<close>

text \<open>To the nearest integer, ties to even.\<close>

definition rne :: "rat \<Rightarrow> int" where
  "rne x =
     (let f = \<lfloor>x\<rfloor>; r = x - of_int f
      in if r < 1 / 2 then f else if 1 / 2 < r then f + 1 else if even f then f else f + 1)"

definition f64 :: "rat \<Rightarrow> float64" where
  "f64 x =
     (if x = 0 then 0
      else let e = expo \<bar>x\<bar> - 52
           in sgn x * of_int (rne (\<bar>x\<bar> / 2 powi e)) * 2 powi e)"

lemma rne_of_int [simp]: "rne (of_int n) = n"
  by (simp add: rne_def)

lemma rne_bounds: "\<lfloor>x\<rfloor> \<le> rne x" "rne x \<le> \<lfloor>x\<rfloor> + 1" "rne x \<le> \<lceil>x\<rceil>"
  by (auto simp: rne_def Let_def ceiling_altdef)

lemma rne_mono: "x \<le> y \<Longrightarrow> rne x \<le> rne y"
proof -
  assume xy: "x \<le> y"
  then have f: "\<lfloor>x\<rfloor> \<le> \<lfloor>y\<rfloor>" by (rule floor_mono)
  show ?thesis
  proof (cases "\<lfloor>x\<rfloor> = \<lfloor>y\<rfloor>")
    case True
    with xy show ?thesis by (auto simp: rne_def Let_def)
  next
    case False
    with f have "\<lfloor>x\<rfloor> + 1 \<le> \<lfloor>y\<rfloor>" by linarith
    with rne_bounds [of x] rne_bounds [of y] show ?thesis by linarith
  qed
qed

lemma f64_zero [simp]: "f64 0 = 0"
  by (simp add: f64_def)

lemma f64_pos: "0 < x \<Longrightarrow> f64 x = of_int (rne (x / 2 powi (expo x - 52))) * 2 powi (expo x - 52)"
  by (simp add: f64_def Let_def)

lemma f64_uminus: "f64 (- x) = - f64 x"
  by (simp add: f64_def Let_def sgn_if)

text \<open>The significand of a positive number is between \<open>2^52\<close> and \<open>2^53\<close>.\<close>

lemma significand_bounds:
  assumes "0 < x"
  shows "2 ^ 52 \<le> rne (x / 2 powi (expo x - 52))" and "rne (x / 2 powi (expo x - 52)) \<le> 2 ^ 53"
proof -
  let ?q = "x / 2 powi (expo x - 52)"
  have p: "(0::rat) < 2 powi (expo x - 52)" by simp
  have a: "(2::rat) powi expo x = 2 ^ 52 * 2 powi (expo x - 52)"
    by (simp add: power_int_diff)
  have b: "(2::rat) powi (expo x + 1) = 2 ^ 53 * 2 powi (expo x - 52)"
    by (simp add: power_int_diff power_int_add)
  have lo: "of_int (2 ^ 52) \<le> ?q" using expo_bounds(1) [OF assms] p unfolding a by (simp add: field_simps)
  have hi: "?q \<le> of_int (2 ^ 53)" using expo_bounds(2) [OF assms] p unfolding b by (simp add: field_simps)
  show "2 ^ 52 \<le> rne ?q" using rne_mono [OF lo] by (simp only: rne_of_int)
  show "rne ?q \<le> 2 ^ 53" using rne_mono [OF hi] by (simp only: rne_of_int)
qed

lemma f64_binade:
  assumes "0 < x"
  shows "2 powi expo x \<le> f64 x" and "f64 x \<le> 2 powi (expo x + 1)"
proof -
  let ?m = "rne (x / 2 powi (expo x - 52))" and ?u = "(2::rat) powi (expo x - 52)"
  have u: "0 < ?u" by simp
  have a: "(2::rat) powi expo x = of_int (2 ^ 52) * ?u" by (simp add: power_int_diff)
  have b: "(2::rat) powi (expo x + 1) = of_int (2 ^ 53) * ?u" by (simp add: power_int_diff power_int_add)
  show "2 powi expo x \<le> f64 x" unfolding a f64_pos [OF assms]
    using significand_bounds(1) [OF assms] u by (intro mult_right_mono) (simp_all only: of_int_le_iff less_imp_le)
  show "f64 x \<le> 2 powi (expo x + 1)" unfolding b f64_pos [OF assms]
    using significand_bounds(2) [OF assms] u by (intro mult_right_mono) (simp_all only: of_int_le_iff less_imp_le)
qed

lemma f64_gt_0: "0 < x \<Longrightarrow> 0 < f64 x"
  using f64_binade(1) [of x] by (metis less_le_trans zero_less_numeral zero_less_power_int)

lemma f64_nonneg: "0 \<le> x \<Longrightarrow> 0 \<le> f64 x"
  using f64_gt_0 [of x] by (cases "x = 0") auto

text \<open>Rounding is monotone, and exact on integers of up to 53 bits.\<close>

lemma f64_mono_pos:
  assumes "0 < x" and "x \<le> y"
  shows "f64 x \<le> f64 y"
proof -
  have y: "0 < y" using assms by linarith
  show ?thesis
  proof (cases "expo x = expo y")
    case True
    then have "rne (x / 2 powi (expo x - 52)) \<le> rne (y / 2 powi (expo y - 52))"
      using assms(2) by (intro rne_mono) (simp add: divide_right_mono)
    with True show ?thesis
      unfolding f64_pos [OF assms(1)] f64_pos [OF y] by (simp add: mult_right_mono)
  next
    case False
    have "(2::rat) powi expo x < 2 powi (expo y + 1)"
      using expo_bounds(1) [OF assms(1)] expo_bounds(2) [OF y] assms(2) by linarith
    then have "expo x < expo y + 1"
      by (rule powi_lessD)
    with False have "expo x + 1 \<le> expo y" by linarith
    then have "(2::rat) powi (expo x + 1) \<le> 2 powi expo y"
      by (intro power_int_increasing) auto
    with f64_binade(2) [OF assms(1)] f64_binade(1) [OF y] show ?thesis by linarith
  qed
qed

lemma f64_mono: "x \<le> y \<Longrightarrow> f64 x \<le> f64 y"
proof -
  assume xy: "x \<le> y"
  consider "0 < x" | "x \<le> 0" "0 \<le> y" | "y < 0" by linarith
  then show ?thesis
  proof cases
    case 1 then show ?thesis using xy by (rule f64_mono_pos)
  next
    case 2
    then have "0 \<le> f64 (- x)" "0 \<le> f64 y" by (auto intro: f64_nonneg)
    then show ?thesis by (simp add: f64_uminus)
  next
    case 3
    then have "f64 (- y) \<le> f64 (- x)" using xy by (intro f64_mono_pos) auto
    then show ?thesis by (simp add: f64_uminus)
  qed
qed

lemma f64_exact: "0 < x \<Longrightarrow> x = of_int m * 2 powi (expo x - 52) \<Longrightarrow> f64 x = x"
proof -
  assume x: "0 < x" and m: "x = of_int m * 2 powi (expo x - 52)"
  have "x / 2 powi (expo x - 52) = of_int m" by (subst m) simp
  then show ?thesis using x m by (simp add: f64_pos)
qed

lemma f64_of_int_pos:
  assumes "0 < n" and "n \<le> 2 ^ 53"
  shows "f64 (of_int n) = of_int n"
proof (cases "n = 2 ^ 53")
  case True
  have "expo (of_int n) = 53"
    by (rule expo_unique) (simp_all add: True)
  with True show ?thesis
    by (intro f64_exact [of _ "2 ^ 52"]) (auto simp: power_int_def)
next
  case False
  let ?x = "of_int n :: rat"
  have x: "0 < ?x" using assms by simp
  have "?x < 2 powi 53" using assms False by (simp add: power_int_def)
  with expo_bounds(1) [OF x] have "(2::rat) powi expo ?x < 2 powi 53" by linarith
  then have "expo ?x < 53"
    by (rule powi_lessD)
  then obtain k where k: "52 - expo ?x = int k"
    using nonneg_int_cases [of "52 - expo ?x"] by force
  have "?x = of_int (n * 2 ^ k) * 2 powi (- int k)"
    by (simp add: power_int_minus)
  moreover have "expo ?x - 52 = - int k" using k by linarith
  ultimately have "?x = of_int (n * 2 ^ k) * 2 powi (expo ?x - 52)" by simp
  with x show ?thesis by (intro f64_exact)
qed

lemma f64_of_int: "\<bar>n\<bar> \<le> 2 ^ 53 \<Longrightarrow> f64 (of_int n) = of_int n"
proof -
  assume n: "\<bar>n\<bar> \<le> 2 ^ 53"
  consider "0 < n" | "n = 0" | "0 < - n" by linarith
  then show ?thesis
  proof cases
    case 1 then show ?thesis using n by (intro f64_of_int_pos) auto
  next
    case 3
    then have "f64 (of_int (- n)) = of_int (- n)" using n by (intro f64_of_int_pos) auto
    then show ?thesis by (simp add: f64_uminus)
  qed simp
qed

lemma f64_upper:
  assumes "0 \<le> x" shows "f64 x \<le> x * (1 + 1 / 2 ^ 52)"
proof (cases "x = 0")
  case False
  with assms have x: "0 < x" by simp
  let ?u = "(2::rat) powi (expo x - 52)"
  have u: "0 < ?u" by simp
  have "of_int (rne (x / ?u)) \<le> x / ?u + 1"
  proof -
    have "rne (x / ?u) \<le> \<lfloor>x / ?u\<rfloor> + 1" by (rule rne_bounds)
    then have "(of_int (rne (x / ?u)) :: rat) \<le> of_int (\<lfloor>x / ?u\<rfloor> + 1)" by (simp only: of_int_le_iff)
    moreover have "(of_int (\<lfloor>x / ?u\<rfloor> + 1) :: rat) \<le> x / ?u + 1" by simp
    ultimately show ?thesis by (rule order_trans)
  qed
  then have "f64 x \<le> (x / ?u + 1) * ?u"
    unfolding f64_pos [OF x] using u by (intro mult_right_mono) auto
  also have "\<dots> = x + ?u" using u by (simp add: field_simps)
  also have "?u = 2 powi expo x / 2 ^ 52" by (simp add: power_int_diff)
  also have "x + \<dots> \<le> x + x / 2 ^ 52" using expo_bounds(1) [OF x] by (simp add: divide_right_mono)
  finally show ?thesis by (simp add: field_simps)
qed simp

text \<open>A value by its exponent and significand.\<close>

lemma rneI: "of_int n - 1 / 2 < x \<Longrightarrow> x < of_int n + 1 / 2 \<Longrightarrow> rne x = n"
proof -
  assume x: "of_int n - 1 / 2 < x" "x < of_int n + 1 / 2"
  then have "\<lfloor>x\<rfloor> = n \<or> \<lfloor>x\<rfloor> = n - 1" by (auto simp: floor_eq_iff)
  then show ?thesis
    using x by (auto simp: rne_def Let_def)
qed

lemma f64I:
  assumes "2 powi e \<le> x" "x < 2 powi (e + 1)"
    and "of_int m - 1 / 2 < x / 2 powi (e - 52)" "x / 2 powi (e - 52) < of_int m + 1 / 2"
  shows "f64 x = of_int m * 2 powi (e - 52)"
proof -
  have "(0::rat) < 2 powi e" by simp
  with assms(1) have "0 < x" by linarith
  then show ?thesis
    using expo_unique [OF assms(1,2)] rneI [OF assms(3,4)] by (simp add: f64_pos)
qed

section \<open>Operations\<close>

definition fadd :: "float64 \<Rightarrow> float64 \<Rightarrow> float64" where "fadd x y = f64 (x + y)"
definition fsub :: "float64 \<Rightarrow> float64 \<Rightarrow> float64" where "fsub x y = f64 (x - y)"
definition fmul :: "float64 \<Rightarrow> float64 \<Rightarrow> float64" where "fmul x y = f64 (x * y)"
definition fdiv :: "float64 \<Rightarrow> float64 \<Rightarrow> float64" where "fdiv x y = f64 (x / y)"

text \<open>\<^verbatim>\<open>float64(n)\<close> of an integer, and \<^verbatim>\<open>int64(x)\<close>: truncation towards zero.  A value out of the range
  of \<^verbatim>\<open>int64\<close> converts to an implementation-dependent number, the parameter \<open>oor\<close>.\<close>

definition float_of_int :: "int \<Rightarrow> float64" where
  "float_of_int n = f64 (of_int n)"

definition trunc_rat :: "rat \<Rightarrow> int" where
  "trunc_rat x = (if 0 \<le> x then \<lfloor>x\<rfloor> else \<lceil>x\<rceil>)"

definition int64_of_float :: "(float64 \<Rightarrow> int) \<Rightarrow> float64 \<Rightarrow> int" where
  "int64_of_float oor x = (if in_int64 (trunc_rat x) then trunc_rat x else oor x)"

text \<open>\<^verbatim>\<open>math.Round\<close>: to the nearest integer, half away from zero.\<close>

definition math_round :: "float64 \<Rightarrow> int" where
  "math_round x = (if 0 \<le> x then \<lfloor>x + 1 / 2\<rfloor> else - \<lfloor>- x + 1 / 2\<rfloor>)"

end
