(* ===== verification/GoStrings.thy ===== *)
theory GoStrings
  imports Prelude
begin

text \<open>
  What the sources use of Go's \<^verbatim>\<open>strings\<close>, \<^verbatim>\<open>strconv\<close>, \<^verbatim>\<open>fmt\<close> and \<^verbatim>\<open>encoding/hex\<close> packages,
  on byte strings: prefixes and suffixes, searching, splitting, replacing, trimming white
  space, decimal and hexadecimal conversion.  Each function is executable, and the laws that
  the components rely on follow it.
\<close>

section \<open>Prefixes, suffixes, search\<close>

definition has_prefix :: "string \<Rightarrow> string \<Rightarrow> bool" where
  "has_prefix s p \<longleftrightarrow> take (length p) s = p"

definition trim_prefix :: "string \<Rightarrow> string \<Rightarrow> string" where
  "trim_prefix s p = (if has_prefix s p then drop (length p) s else s)"

definition has_suffix :: "string \<Rightarrow> string \<Rightarrow> bool" where
  "has_suffix s p \<longleftrightarrow> has_prefix (rev s) (rev p)"

definition trim_suffix :: "string \<Rightarrow> string \<Rightarrow> string" where
  "trim_suffix s p = (if has_suffix s p then take (length s - length p) s else s)"

text \<open>\<^verbatim>\<open>strings.Index\<close>: the first position of \<open>p\<close> in \<open>s\<close>; \<open>None\<close> is Go's \<open>-1\<close>.\<close>

fun index :: "string \<Rightarrow> string \<Rightarrow> nat option" where
  "index [] p = (if p = [] then Some 0 else None)"
| "index (c # s) p = (if has_prefix (c # s) p then Some 0 else map_option Suc (index s p))"

definition contains :: "string \<Rightarrow> string \<Rightarrow> bool" where
  "contains s p \<longleftrightarrow> index s p \<noteq> None"

lemma has_prefix_append [simp]: "has_prefix (p @ s) p"
  by (simp add: has_prefix_def)

lemma has_prefix_Nil [simp]: "has_prefix s []"
  by (simp add: has_prefix_def)

lemma has_prefix_iff: "has_prefix s p \<longleftrightarrow> (\<exists>t. s = p @ t)"
proof
  assume "has_prefix s p"
  then have "s = p @ drop (length p) s"
    by (metis append_take_drop_id has_prefix_def)
  then show "\<exists>t. s = p @ t" ..
qed auto

lemma trim_prefix_append [simp]: "trim_prefix (p @ s) p = s"
  by (simp add: trim_prefix_def)

lemma has_suffix_iff: "has_suffix s p \<longleftrightarrow> (\<exists>t. s = t @ p)"
  unfolding has_suffix_def has_prefix_iff
  by (metis rev_append rev_rev_ident)

lemma trim_suffix_append [simp]: "trim_suffix (s @ p) p = s"
  by (simp add: trim_suffix_def has_suffix_iff)

lemma contains_iff: "contains s p \<longleftrightarrow> (\<exists>a b. s = a @ p @ b)"
proof (induction s)
  case Nil
  then show ?case by (auto simp: contains_def)
next
  case (Cons c s)
  show ?case
  proof (cases "has_prefix (c # s) p")
    case True
    then have "\<exists>a b. c # s = a @ p @ b"
      unfolding has_prefix_iff by (metis append_Nil)
    with True show ?thesis by (simp add: contains_def)
  next
    case False
    then have "(\<exists>a b. c # s = a @ p @ b) \<longleftrightarrow> (\<exists>a b. s = a @ p @ b)"
      by (auto simp: has_prefix_iff Cons_eq_append_conv)
    with False Cons show ?thesis by (simp add: contains_def)
  qed
qed

section \<open>Splitting\<close>

text \<open>\<^verbatim>\<open>strings.Split(s, sep)\<close> and \<^verbatim>\<open>strings.SplitN(s, sep, 2)\<close> for a one-byte separator.\<close>

fun split_char :: "char \<Rightarrow> string \<Rightarrow> string list" where
  "split_char sep [] = [[]]"
| "split_char sep (c # s) =
     (if c = sep then [] # split_char sep s
      else case split_char sep s of [] \<Rightarrow> [[c]] | w # ws \<Rightarrow> (c # w) # ws)"

definition split2_char :: "char \<Rightarrow> string \<Rightarrow> string list" where
  "split2_char sep s =
     (if sep \<in> set s then [takeWhile (\<lambda>c. c \<noteq> sep) s, tl (dropWhile (\<lambda>c. c \<noteq> sep) s)] else [s])"

lemma split_char_nonempty [simp]: "split_char sep s \<noteq> []"
  by (induction s) (auto split: list.splits)

lemma split_char_none: "sep \<notin> set s \<Longrightarrow> split_char sep s = [s]"
  by (induction s) auto

lemma split_char_app:
  "sep \<notin> set a \<Longrightarrow> split_char sep (a @ sep # b) = a # split_char sep b"
  by (induction a) auto

lemma split2_char_app:
  "sep \<notin> set a \<Longrightarrow> split2_char sep (a @ sep # b) = [a, b]"
  by (auto simp: split2_char_def takeWhile_append dropWhile_append)

lemma split_char_parts_no_sep: "w \<in> set (split_char sep s) \<Longrightarrow> sep \<notin> set w"
  by (induction s arbitrary: w) (auto split: list.splits if_splits)

section \<open>Replacing\<close>

text \<open>\<^verbatim>\<open>strings.ReplaceAll(s, old, new)\<close> for a non-empty \<open>old\<close>: left to right, without overlap.\<close>

function replace_all :: "string \<Rightarrow> string \<Rightarrow> string \<Rightarrow> string" where
  "replace_all s old new =
     (if s = [] \<or> old = [] then s
      else if has_prefix s old then new @ replace_all (drop (length old) s) old new
      else hd s # replace_all (tl s) old new)"
  by pat_completeness auto
termination
  by (relation "measure (\<lambda>(s, old, new). length s)") (auto simp: neq_Nil_conv)

declare replace_all.simps [simp del]

lemma replace_all_Nil [simp]: "replace_all [] old new = []"
  by (simp add: replace_all.simps)

lemma replace_all_hit:
  "old \<noteq> [] \<Longrightarrow> replace_all (old @ s) old new = new @ replace_all s old new"
  by (subst replace_all.simps) auto

lemma replace_all_miss:
  "\<not> has_prefix (c # s) old \<Longrightarrow> replace_all (c # s) old new = c # replace_all s old new"
  by (subst replace_all.simps) auto

lemma replace_all_absent: "\<not> contains s old \<Longrightarrow> replace_all s old new = s"
proof (induction s)
  case (Cons c s)
  then have "\<not> has_prefix (c # s) old" and "\<not> contains s old"
    by (auto simp: contains_def split: if_splits)
  with Cons show ?case by (simp add: replace_all_miss)
qed simp

section \<open>Trimming white space\<close>

text \<open>
  The UTF-8 encodings of the runes that \<^verbatim>\<open>unicode.IsSpace\<close> accepts: tab to carriage return and
  space, U+0085, U+00A0, U+1680, U+2000 to U+200A, U+2028, U+2029, U+202F, U+205F, U+3000.
\<close>

definition go_spaces :: "string list" where
  "go_spaces =
     [[CHR 0x09], [CHR 0x0A], [CHR 0x0B], [CHR 0x0C], [CHR 0x0D], [CHR 0x20],
      [CHR 0xC2, CHR 0x85], [CHR 0xC2, CHR 0xA0], [CHR 0xE1, CHR 0x9A, CHR 0x80],
      [CHR 0xE2, CHR 0x80, CHR 0x80], [CHR 0xE2, CHR 0x80, CHR 0x81],
      [CHR 0xE2, CHR 0x80, CHR 0x82], [CHR 0xE2, CHR 0x80, CHR 0x83],
      [CHR 0xE2, CHR 0x80, CHR 0x84], [CHR 0xE2, CHR 0x80, CHR 0x85],
      [CHR 0xE2, CHR 0x80, CHR 0x86], [CHR 0xE2, CHR 0x80, CHR 0x87],
      [CHR 0xE2, CHR 0x80, CHR 0x88], [CHR 0xE2, CHR 0x80, CHR 0x89],
      [CHR 0xE2, CHR 0x80, CHR 0x8A], [CHR 0xE2, CHR 0x80, CHR 0xA8],
      [CHR 0xE2, CHR 0x80, CHR 0xA9], [CHR 0xE2, CHR 0x80, CHR 0xAF],
      [CHR 0xE2, CHR 0x81, CHR 0x9F], [CHR 0xE3, CHR 0x80, CHR 0x80]]"

text \<open>\<open>strip ws s\<close> drops leading elements of \<open>ws\<close> from \<open>s\<close> until none is a prefix.\<close>

fun strip :: "string list \<Rightarrow> nat \<Rightarrow> string \<Rightarrow> string" where
  "strip ws 0 s = s"
| "strip ws (Suc n) s =
     (case find (has_prefix s) ws of None \<Rightarrow> s | Some w \<Rightarrow> strip ws n (drop (length w) s))"

definition trim_left :: "string \<Rightarrow> string" where
  "trim_left s = strip go_spaces (length s) s"

definition trim_right :: "string \<Rightarrow> string" where
  "trim_right s = rev (strip (map rev go_spaces) (length s) (rev s))"

text \<open>\<^verbatim>\<open>strings.TrimSpace\<close>: leading white space first, then trailing white space.\<close>

definition trim_space :: "string \<Rightarrow> string" where
  "trim_space s = trim_right (trim_left s)"

lemma strip_suffix: "\<exists>u. s = u @ strip ws n s"
proof (induction n arbitrary: s)
  case (Suc n)
  show ?case
  proof (cases "find (has_prefix s) ws")
    case (Some w)
    obtain u where "drop (length w) s = u @ strip ws n (drop (length w) s)"
      using Suc.IH by blast
    then have "s = (take (length w) s @ u) @ strip ws (Suc n) s"
      using Some by (metis append.assoc append_take_drop_id option.simps(5) strip.simps(2))
    then show ?thesis by blast
  qed auto
qed auto

text \<open>The fuel is enough: after at most \<open>length s\<close> rounds nothing is left to strip.\<close>

lemma strip_done:
  "[] \<notin> set ws \<Longrightarrow> length s \<le> n \<Longrightarrow> find (has_prefix (strip ws n s)) ws = None"
proof (induction n arbitrary: s)
  case 0
  then show ?case by (auto simp: find_None_iff has_prefix_def)
next
  case (Suc n)
  show ?case
  proof (cases "find (has_prefix s) ws")
    case (Some w)
    then have "w \<in> set ws" by (auto simp: find_Some_iff)
    with Suc.prems have "length (drop (length w) s) \<le> n" by (cases w) auto
    with Suc.IH Suc.prems Some show ?thesis by simp
  qed auto
qed

lemma go_spaces_nonempty: "[] \<notin> set go_spaces"
  by (simp add: go_spaces_def)

lemma trim_left_done: "w \<in> set go_spaces \<Longrightarrow> \<not> has_prefix (trim_left s) w"
  using strip_done [OF go_spaces_nonempty, of s "length s"]
  by (auto simp: trim_left_def find_None_iff)

lemma trim_right_done: "w \<in> set go_spaces \<Longrightarrow> \<not> has_suffix (trim_right s) w"
proof -
  assume w: "w \<in> set go_spaces"
  have "[] \<notin> set (map rev go_spaces)"
    using go_spaces_nonempty by auto
  from strip_done [OF this, of "rev s" "length s"] w show ?thesis
    by (auto simp: trim_right_def find_None_iff has_suffix_def)
qed

lemma trim_space_infix: "\<exists>u v. s = u @ trim_space s @ v"
proof -
  obtain u where u: "s = u @ trim_left s"
    using strip_suffix [of s go_spaces "length s"] by (auto simp: trim_left_def)
  obtain v where "rev (trim_left s) = v @ rev (trim_space s)"
    using strip_suffix [of "rev (trim_left s)" "map rev go_spaces" "length (trim_left s)"]
    by (auto simp: trim_space_def trim_right_def)
  then have "trim_left s = trim_space s @ rev v"
    by (metis rev_append rev_rev_ident)
  with u show ?thesis by metis
qed

lemma length_trim_space: "length (trim_space s) \<le> length s"
  using trim_space_infix [of s] by (metis le_add1 le_add2 length_append order_trans)

lemma trim_space_Nil [simp]: "trim_space [] = []"
  using length_trim_space [of "[]"] by simp

lemma set_trim_space: "set (trim_space s) \<subseteq> set s"
  using trim_space_infix [of s] by (metis Un_upper1 Un_upper2 order_trans set_append)

lemma strip_none: "find (has_prefix s) ws = None \<Longrightarrow> strip ws n s = s"
  by (cases n) auto

lemma trim_space_id:
  assumes "\<And>w. w \<in> set go_spaces \<Longrightarrow> \<not> has_prefix s w"
    and "\<And>w. w \<in> set go_spaces \<Longrightarrow> \<not> has_suffix s w"
  shows "trim_space s = s"
proof -
  have l: "trim_left s = s"
    unfolding trim_left_def by (rule strip_none) (use assms(1) in \<open>auto simp: find_None_iff\<close>)
  have "strip (map rev go_spaces) (length s) (rev s) = rev s"
    by (rule strip_none) (use assms(2) in \<open>auto simp: find_None_iff has_suffix_def\<close>)
  with l show ?thesis by (simp add: trim_space_def trim_right_def)
qed

text \<open>A string of printable ASCII bytes is its own trim.\<close>

definition graphic :: "char \<Rightarrow> bool" where
  "graphic c \<longleftrightarrow> 0x20 < (of_char c :: nat) \<and> (of_char c :: nat) < 0x7F"

lemma space_not_graphic: "w \<in> set go_spaces \<Longrightarrow> \<exists>c \<in> set w. \<not> graphic c"
  by (auto simp: go_spaces_def graphic_def)

lemma trim_space_graphic: "list_all graphic s \<Longrightarrow> trim_space s = s"
  by (rule trim_space_id)
     (auto simp: has_prefix_iff has_suffix_iff list_all_iff dest!: space_not_graphic)

section \<open>Decimal numbers\<close>

fun nat_digits :: "nat \<Rightarrow> string" where
  "nat_digits n = (if n < 10 then [char_of (48 + n)] else nat_digits (n div 10) @ [char_of (48 + n mod 10)])"

declare nat_digits.simps [simp del]

text \<open>\<^verbatim>\<open>%d\<close> of \<^verbatim>\<open>fmt\<close>, and \<^verbatim>\<open>strconv.Itoa\<close>.\<close>

definition itoa :: "int \<Rightarrow> string" where
  "itoa n = (if n < 0 then CHR ''-'' # nat_digits (nat (- n)) else nat_digits (nat n))"

text \<open>
  \<^verbatim>\<open>strconv.ParseInt(s, 10, 64)\<close>: the value and whether an error came with it.  A syntax error
  gives 0; a number out of range gives the nearest end of the range, as soon as the digits read
  so far pass \<open>2^64 - 1\<close>, whatever follows them.
\<close>

datatype parse_uint = Syntax | Range | Value nat

fun parse_uint_from :: "nat \<Rightarrow> string \<Rightarrow> parse_uint" where
  "parse_uint_from n [] = Value n"
| "parse_uint_from n (c # s) =
     (let d = (of_char c :: nat) in
      if d < 48 \<or> 57 < d then Syntax
      else if 2 ^ 64 - 1 < n * 10 + (d - 48) then Range
      else parse_uint_from (n * 10 + (d - 48)) s)"

definition parse_uint64 :: "string \<Rightarrow> parse_uint" where
  "parse_uint64 s = (if s = [] then Syntax else parse_uint_from 0 s)"

definition parse_int64 :: "string \<Rightarrow> int \<times> bool" where
  "parse_int64 s =
     (let neg = has_prefix s ''-'';
          u = (if neg \<or> has_prefix s ''+'' then tl s else s)
      in if s = [] then (0, True)
         else case parse_uint64 u of
           Syntax \<Rightarrow> (0, True)
         | Range \<Rightarrow> (if neg then (- (2 ^ 63), True) else (2 ^ 63 - 1, True))
         | Value n \<Rightarrow>
             if \<not> neg \<and> 2 ^ 63 \<le> n then (2 ^ 63 - 1, True)
             else if neg \<and> 2 ^ 63 < n then (- (2 ^ 63), True)
             else ((if neg then - int n else int n), False))"

lemma parse_int64_range: "in_int64 (fst (parse_int64 s))"
  by (auto simp: parse_int64_def Let_def in_int64_def split: parse_uint.splits)

lemma parse_uint_from_digits:
  "2 ^ 64 > m * 10 ^ length (nat_digits n) + n \<Longrightarrow>
   parse_uint_from m (nat_digits n) = Value (m * 10 ^ length (nat_digits n) + n)"
proof -
  have app: "parse_uint_from m (s @ [char_of (48 + d)]) = Value (k * 10 + d)"
    if "parse_uint_from m s = Value k" "d < 10" "k * 10 + d < 2 ^ 64" for m s k d
    using that
    by (induction s arbitrary: m) (auto simp: Let_def split: if_splits)
  show "2 ^ 64 > m * 10 ^ length (nat_digits n) + n \<Longrightarrow>
     parse_uint_from m (nat_digits n) = Value (m * 10 ^ length (nat_digits n) + n)"
  proof (induction n arbitrary: m rule: nat_digits.induct)
    case (1 n)
    show ?case
    proof (cases "n < 10")
      case True
      with 1(2) show ?thesis by (simp add: nat_digits.simps [of n] Let_def)
    next
      case False
      let ?p = "m * 10 ^ length (nat_digits (n div 10)) + n div 10"
      have len: "m * 10 ^ length (nat_digits n) + n = ?p * 10 + n mod 10"
        using False by (simp add: nat_digits.simps [of n] algebra_simps)
      with 1(2) have "2 ^ 64 > ?p" and b: "?p * 10 + n mod 10 < 2 ^ 64" by auto
      from 1(1) [OF False this(1)] have "parse_uint_from m (nat_digits (n div 10)) = Value ?p" .
      from app [OF this _ b] len False show ?thesis
        by (simp add: nat_digits.simps [of n])
    qed
  qed
qed

lemma nat_digits_chars: "c \<in> set (nat_digits n) \<Longrightarrow> 48 \<le> (of_char c :: nat) \<and> (of_char c :: nat) \<le> 57"
proof (induction n rule: nat_digits.induct)
  case (1 n)
  then show ?case
    by (cases "n < 10") (auto simp: nat_digits.simps [of n])
qed

lemma nat_digits_nonempty [simp]: "nat_digits n \<noteq> []"
  by (subst nat_digits.simps) auto

lemma nat_digits_no_char: "\<not> (48 \<le> (of_char c :: nat) \<and> (of_char c :: nat) \<le> 57) \<Longrightarrow> c \<notin> set (nat_digits n)"
  using nat_digits_chars by blast

text \<open>Printing and parsing a non-negative 64-bit number is the identity.\<close>

lemma parse_int64_itoa:
  assumes "0 \<le> n" and "n < 2 ^ 63"
  shows "parse_int64 (itoa n) = (n, False)"
proof -
  have small: "nat n < 2 ^ 63" using assms by (simp add: nat_less_iff)
  then have "parse_uint_from 0 (nat_digits (nat n)) = Value (nat n)"
    using parse_uint_from_digits [of 0 "nat n"] by simp
  moreover have "\<not> has_prefix (nat_digits (nat n)) ''-''" "\<not> has_prefix (nat_digits (nat n)) ''+''"
    using nat_digits_no_char [of "CHR ''-''" "nat n"] nat_digits_no_char [of "CHR ''+''" "nat n"]
    by (auto simp: has_prefix_iff)
  ultimately show ?thesis
    using assms small by (simp add: itoa_def parse_int64_def parse_uint64_def)
qed

lemma itoa_inj: "0 \<le> m \<Longrightarrow> m < 2 ^ 63 \<Longrightarrow> 0 \<le> n \<Longrightarrow> n < 2 ^ 63 \<Longrightarrow> itoa m = itoa n \<Longrightarrow> m = n"
  using parse_int64_itoa by (metis prod.inject)

section \<open>Hexadecimal\<close>

definition hex_digit :: "nat \<Rightarrow> char" where
  "hex_digit d = (if d < 10 then char_of (48 + d) else char_of (87 + d))"

definition hex_value :: "char \<Rightarrow> nat option" where
  "hex_value c =
     (let d = (of_char c :: nat) in
      if 48 \<le> d \<and> d \<le> 57 then Some (d - 48)
      else if 97 \<le> d \<and> d \<le> 102 then Some (d - 87)
      else if 65 \<le> d \<and> d \<le> 70 then Some (d - 55)
      else None)"

text \<open>\<^verbatim>\<open>hex.EncodeToString\<close> and \<^verbatim>\<open>hex.DecodeString\<close>.\<close>

fun hex_encode :: "bytes \<Rightarrow> string" where
  "hex_encode [] = []"
| "hex_encode (b # bs) =
     hex_digit (of_char b div 16) # hex_digit (of_char b mod 16) # hex_encode bs"

fun hex_decode :: "string \<Rightarrow> bytes option" where
  "hex_decode [] = Some []"
| "hex_decode [c] = None"
| "hex_decode (a # b # s) =
     (case (hex_value a, hex_value b) of
        (Some x, Some y) \<Rightarrow> map_option ((#) (char_of (16 * x + y))) (hex_decode s)
      | _ \<Rightarrow> None)"

lemma hex_value_digit: "d < 16 \<Longrightarrow> hex_value (hex_digit d) = Some d"
  by (auto simp: hex_value_def hex_digit_def Let_def)

lemma of_char_less_256: "(of_char c :: nat) < 256"
  by (metis nat_of_char_less_256)

lemma of_char_div_16: "of_char c div 16 < (16::nat)"
  using of_char_less_256 [of c] by (simp add: less_mult_imp_div_less)

lemma hex_decode_encode [simp]: "hex_decode (hex_encode bs) = Some bs"
proof (induction bs)
  case (Cons b bs)
  have "of_char b div 16 < (16::nat)" by (rule of_char_div_16)
  moreover have "16 * (of_char b div 16) + of_char b mod 16 = (of_char b :: nat)" by simp
  ultimately show ?case using Cons by (simp add: hex_value_digit)
qed simp

lemma hex_encode_inj: "hex_encode a = hex_encode b \<Longrightarrow> a = b"
  by (metis hex_decode_encode option.inject)

lemma length_hex_encode [simp]: "length (hex_encode bs) = 2 * length bs"
  by (induction bs) auto

lemma hex_digit_chars: "d < 16 \<Longrightarrow> hex_digit d \<in> set ''0123456789abcdef''"
proof -
  have "list_all (\<lambda>d. hex_digit d \<in> set ''0123456789abcdef'') [0..<16]"
    by code_simp
  then show "d < 16 \<Longrightarrow> ?thesis" by (simp add: list_all_iff)
qed

lemma hex_encode_chars: "set (hex_encode bs) \<subseteq> set ''0123456789abcdef''"
proof (induction bs)
  case (Cons b bs)
  have "of_char b div 16 < (16::nat)" by (rule of_char_div_16)
  then show ?case using Cons hex_digit_chars by auto
qed simp

lemma hex_no_char: "c \<notin> set ''0123456789abcdef'' \<Longrightarrow> c \<notin> set (hex_encode bs)"
  using hex_encode_chars by blast

section \<open>Case\<close>

text \<open>
  \<^verbatim>\<open>strings.ToLower\<close> on ASCII letters.  Other bytes stay: the only non-ASCII runes that Go maps
  to ASCII are U+212A (to k) and U+0130 (to i), and neither letter occurs in a string that
  the sources compare after lowering.
\<close>

definition lower_char :: "char \<Rightarrow> char" where
  "lower_char c = (let d = (of_char c :: nat) in if 65 \<le> d \<and> d \<le> 90 then char_of (d + 32) else c)"

definition to_lower :: "string \<Rightarrow> string" where
  "to_lower s = map lower_char s"

lemma lower_char_idem: "lower_char (lower_char c) = lower_char c"
  by (auto simp: lower_char_def Let_def)

lemma to_lower_idem [simp]: "to_lower (to_lower s) = to_lower s"
  by (simp add: to_lower_def lower_char_idem)

lemma to_lower_hex [simp]: "to_lower (hex_encode bs) = hex_encode bs"
proof -
  have "lower_char c = c" if "c \<in> set ''0123456789abcdef''" for c
    using that by (auto simp: lower_char_def)
  then show ?thesis
    unfolding to_lower_def by (intro map_idI) (use hex_encode_chars in blast)
qed

section \<open>UTF-8\<close>

text \<open>
  The number of bytes of the rune that a byte string starts with, 0 when its first bytes are
  not a valid encoding (\<^verbatim>\<open>unicode/utf8\<close>: no overlong forms, no surrogates, at most U+10FFFF).
\<close>

definition cont :: "nat \<Rightarrow> bool" where
  "cont b \<longleftrightarrow> 0x80 \<le> b \<and> b \<le> 0xBF"

fun rune_len :: "nat list \<Rightarrow> nat" where
  "rune_len [] = 0"
| "rune_len (a # s) =
     (if a < 0x80 then 1
      else case s of
        b # s' \<Rightarrow>
          if 0xC2 \<le> a \<and> a \<le> 0xDF \<and> cont b then 2
          else (case s' of
            c # s'' \<Rightarrow>
              if (a = 0xE0 \<and> 0xA0 \<le> b \<and> b \<le> 0xBF \<or> a = 0xED \<and> 0x80 \<le> b \<and> b \<le> 0x9F
                  \<or> 0xE1 \<le> a \<and> a \<le> 0xEF \<and> a \<noteq> 0xED \<and> cont b) \<and> cont c then 3
              else (case s'' of
                e # _ \<Rightarrow>
                  if (a = 0xF0 \<and> 0x90 \<le> b \<and> b \<le> 0xBF \<or> a = 0xF4 \<and> 0x80 \<le> b \<and> b \<le> 0x8F
                      \<or> 0xF1 \<le> a \<and> a \<le> 0xF3 \<and> cont b) \<and> cont c \<and> cont e then 4 else 0
              | [] \<Rightarrow> 0)
          | [] \<Rightarrow> 0)
      | [] \<Rightarrow> 0)"

function utf8_valid_bytes :: "nat list \<Rightarrow> bool" where
  "utf8_valid_bytes s =
     (if s = [] then True
      else let n = rune_len s in if n = 0 then False else utf8_valid_bytes (drop n s))"
  by pat_completeness auto
termination
  by (relation "measure length") (auto simp: Let_def neq_Nil_conv)

declare utf8_valid_bytes.simps [simp del]

definition utf8_valid :: "string \<Rightarrow> bool" where
  "utf8_valid s = utf8_valid_bytes (map of_char s)"

lemma utf8_valid_ascii: "list_all (\<lambda>c. (of_char c :: nat) < 0x80) s \<Longrightarrow> utf8_valid s"
  unfolding utf8_valid_def
proof (induction s)
  case Nil
  then show ?case by (simp add: utf8_valid_bytes.simps)
next
  case (Cons c s)
  then show ?case
    by (subst utf8_valid_bytes.simps) (auto simp: Let_def)
qed

text \<open>
  \<^verbatim>\<open>strings.ToValidUTF8\<close>: every run of bytes that are not valid is replaced once.  The flag says
  that the bytes before belong to such a run.
\<close>

function to_valid_from :: "bool \<Rightarrow> string \<Rightarrow> string \<Rightarrow> string" where
  "to_valid_from bad s new =
     (if s = [] then []
      else let n = rune_len (map of_char s)
           in if n = 0 then (if bad then [] else new) @ to_valid_from True (tl s) new
              else take n s @ to_valid_from False (drop n s) new)"
  by pat_completeness auto
termination
  by (relation "measure (\<lambda>(bad, s, new). length s)") (auto simp: neq_Nil_conv)

declare to_valid_from.simps [simp del]

definition to_valid_utf8 :: "string \<Rightarrow> string \<Rightarrow> string" where
  "to_valid_utf8 s new = to_valid_from False s new"

text \<open>\<^verbatim>\<open>strings.LastIndex\<close> of a single byte.\<close>

fun last_index :: "char \<Rightarrow> string \<Rightarrow> nat option" where
  "last_index c [] = None"
| "last_index c (x # s) =
     (case last_index c s of Some n \<Rightarrow> Some (Suc n) | None \<Rightarrow> if x = c then Some 0 else None)"

lemma last_index_app: "c \<notin> set b \<Longrightarrow> last_index c (a @ c # b) = Some (length a)"
proof -
  have none: "c \<notin> set b \<Longrightarrow> last_index c b = None" for b by (induction b) auto
  show "c \<notin> set b \<Longrightarrow> last_index c (a @ c # b) = Some (length a)"
    by (induction a) (auto simp: none)
qed

end
