(* ===== verification/Schema.thy ===== *)
theory Schema
  imports Float64 GoStrings
begin

text \<open>
  The database the server and the workers share: the row types of \<^verbatim>\<open>internal/storage\<close>, the tables
  with the constraints of the files under \<^verbatim>\<open>migrations/\<close>, and how a statement runs against them.
  Postgres is a service, so what it does beyond the SQL text is a parameter of the state:
  the clock behind \<^verbatim>\<open>NOW()\<close>, the identifiers that \<^verbatim>\<open>gen_random_uuid()\<close> hands out, how a \<^verbatim>\<open>float64\<close> reads back
  from a \<^verbatim>\<open>NUMERIC(p,s)\<close> column, and which of the coming statements fail.
\<close>

section \<open>Row types\<close>

record Connection =
  conn_id :: uuid
  conn_name :: string
  conn_source_type :: string
  conn_inbound_path :: string
  conn_destination_url :: string
  conn_signing_secret_enc :: bytes
  conn_retry_attempts :: int
  conn_retry_first_delay_s :: int
  conn_retry_backoff_factor :: float64
  conn_retention_days :: int
  conn_is_playground :: bool
  conn_created_at :: time

text \<open>A row of \<^verbatim>\<open>events\<close>; its headers and payload are sealed when \<open>erow_encrypted\<close> is set.\<close>

record event_row =
  erow_id :: uuid
  erow_connection_id :: uuid
  erow_provider_event_id :: string
  erow_raw_headers :: bytes
  erow_raw_payload :: bytes
  erow_encrypted :: bool
  erow_received_at :: time
  erow_workflow_id :: "string option"

text \<open>The \<^verbatim>\<open>Event\<close> struct: a row with its fields opened.\<close>

record Event =
  ev_id :: uuid
  ev_connection_id :: uuid
  ev_provider_event_id :: string
  ev_raw_headers :: bytes
  ev_raw_payload :: bytes
  ev_received_at :: time
  ev_workflow_id :: "string option"

record Delivery =
  del_id :: uuid
  del_event_id :: uuid
  del_attempt_number :: int
  del_status :: string
  del_response_code :: "int option"
  del_latency_ms :: "int option"
  del_attempted_at :: time

record issue_row =
  iss_id :: uuid
  iss_event_id :: uuid
  iss_connection_id :: uuid
  iss_reason :: string
  iss_attempts_exhausted :: int
  iss_first_failed_at :: time
  iss_status :: string
  iss_resolved_at :: "time option"
  iss_resolved_by :: "uuid option"

text \<open>The \<^verbatim>\<open>Issue\<close> struct: a row with the two joined fields the API shows.\<close>

record Issue = issue_row +
  iss_provider_event_id :: string
  iss_destination :: string

record User =
  user_id :: uuid
  user_email :: string
  user_password_hash :: string
  user_created_at :: time

record Session =
  sess_id :: uuid
  sess_user_id :: uuid
  sess_created_at :: time
  sess_expires_at :: time

record AlertRule =
  rule_id :: uuid
  rule_name :: string
  rule_type :: string
  rule_threshold :: float64
  rule_unit :: string
  rule_active :: bool
  rule_notification_type :: string
  rule_notification_dest :: string
  rule_subject_template :: "string option"
  rule_body_template :: "string option"
  rule_firing_threshold :: "float64 option"
  rule_delivery_error :: "string option"
  rule_created_at :: time
  rule_updated_at :: time

record AlertNotification =
  an_id :: uuid
  an_alert_rule_id :: uuid
  an_rule_name :: string
  an_rule_type :: string
  an_threshold :: float64
  an_current_value :: float64
  an_fired_at :: time

record PlaygroundSession =
  ps_id :: uuid
  ps_connection_id :: uuid
  ps_fail_destination :: bool
  ps_created_at :: time
  ps_last_seen_at :: time

record NotificationSettings =
  ns_smtp_host :: string
  ns_smtp_port :: int
  ns_smtp_username :: string
  ns_smtp_password_enc :: "bytes option"
  ns_smtp_from :: string
  ns_slack_bot_token_enc :: "bytes option"

section \<open>Tables and constraints\<close>

record tables =
  users :: "User list"
  sessions :: "Session list"
  connections :: "Connection list"
  events :: "event_row list"
  deliveries :: "Delivery list"
  issues :: "issue_row list"
  alert_rules :: "AlertRule list"
  alert_notifications :: "AlertNotification list"
  playground_sessions :: "PlaygroundSession list"
  notification_settings :: "NotificationSettings option"

definition empty_tables :: tables where
  "empty_tables =
     \<lparr>users = [], sessions = [], connections = [], events = [], deliveries = [], issues = [],
      alert_rules = [], alert_notifications = [], playground_sessions = [],
      notification_settings = None\<rparr>"

text \<open>Column types: \<^verbatim>\<open>INT\<close> is 32 bits wide, \<^verbatim>\<open>TEXT\<close> is valid UTF-8 without a zero byte.\<close>

definition int4 :: "int \<Rightarrow> bool" where
  "int4 n \<longleftrightarrow> - (2 ^ 31) \<le> n \<and> n < 2 ^ 31"

definition text_ok :: "string \<Rightarrow> bool" where
  "text_ok s \<longleftrightarrow> utf8_valid s \<and> CHR 0x00 \<notin> set s"

definition opt_ok :: "('a \<Rightarrow> bool) \<Rightarrow> 'a option \<Rightarrow> bool" where
  "opt_ok p x = (case x of None \<Rightarrow> True | Some y \<Rightarrow> p y)"

text \<open>\<^verbatim>\<open>connections\<close>: migrations 1 and 2.\<close>

definition connection_check :: "Connection \<Rightarrow> bool" where
  "connection_check c \<longleftrightarrow>
     text_ok (conn_name c) \<and> text_ok (conn_inbound_path c) \<and> text_ok (conn_destination_url c)
     \<and> conn_source_type c \<in> set [''stripe'', ''github'', ''easypost'', ''generic_hmac'', ''internal'']
     \<and> int4 (conn_retry_attempts c) \<and> 0 < conn_retry_attempts c
     \<and> int4 (conn_retry_first_delay_s c) \<and> 0 < conn_retry_first_delay_s c
     \<and> 1 \<le> conn_retry_backoff_factor c
     \<and> int4 (conn_retention_days c) \<and> 0 < conn_retention_days c"

text \<open>\<^verbatim>\<open>deliveries\<close>: migration 1.\<close>

definition delivery_check :: "Delivery \<Rightarrow> bool" where
  "delivery_check r \<longleftrightarrow>
     int4 (del_attempt_number r) \<and> 0 < del_attempt_number r
     \<and> del_status r \<in> set [''pending'', ''delivered'', ''failed'']
     \<and> opt_ok int4 (del_response_code r) \<and> opt_ok int4 (del_latency_ms r)"

text \<open>\<^verbatim>\<open>issues\<close>: migration 1.\<close>

definition issue_check :: "issue_row \<Rightarrow> bool" where
  "issue_check i \<longleftrightarrow>
     text_ok (iss_reason i) \<and> int4 (iss_attempts_exhausted i)
     \<and> iss_status i \<in> set [''open'', ''resolved'']"

text \<open>\<^verbatim>\<open>alert_rules\<close>: migrations 4 and 6.\<close>

definition alert_rule_check :: "AlertRule \<Rightarrow> bool" where
  "alert_rule_check r \<longleftrightarrow>
     text_ok (rule_name r) \<and> text_ok (rule_notification_dest r)
     \<and> opt_ok text_ok (rule_subject_template r) \<and> opt_ok text_ok (rule_body_template r)
     \<and> opt_ok text_ok (rule_delivery_error r)
     \<and> 0 \<le> rule_threshold r
     \<and> rule_notification_type r \<in> set [''email'', ''slack_dm'']
     \<and> (rule_type r = ''OPEN_ISSUES'' \<and> rule_unit r = ''COUNT''
        \<or> rule_type r = ''DELIVERY_SUCCESS'' \<and> rule_unit r = ''PERCENT''
        \<or> rule_type r = ''UNRESOLVED_TIME'' \<and> rule_unit r = ''HOURS'')
     \<and> (rule_type r = ''DELIVERY_SUCCESS'' \<longrightarrow> rule_threshold r \<le> 100)"

section \<open>Well-formed tables\<close>

text \<open>
  The constraints the schema declares, table by table: primary keys and \<^verbatim>\<open>UNIQUE\<close> columns are
  distinct, references point at rows, checks hold.
\<close>

definition wf_auth :: "tables \<Rightarrow> bool" where
  "wf_auth t \<longleftrightarrow>
     distinct (keys user_id (users t)) \<and> distinct (keys user_email (users t))
     \<and> distinct (keys sess_id (sessions t))
     \<and> (\<forall>s \<in> set (sessions t). sess_user_id s \<in> set (keys user_id (users t)))"

definition wf_connections :: "tables \<Rightarrow> bool" where
  "wf_connections t \<longleftrightarrow>
     distinct (keys conn_id (connections t)) \<and> distinct (keys conn_inbound_path (connections t))
     \<and> (\<forall>c \<in> set (connections t). connection_check c)"

definition event_key :: "event_row \<Rightarrow> uuid \<times> string" where
  "event_key e = (erow_connection_id e, erow_provider_event_id e)"

definition wf_events :: "tables \<Rightarrow> bool" where
  "wf_events t \<longleftrightarrow>
     distinct (keys erow_id (events t)) \<and> distinct (keys event_key (events t))
     \<and> (\<forall>e \<in> set (events t). erow_connection_id e \<in> set (keys conn_id (connections t)))"

definition delivery_key :: "Delivery \<Rightarrow> uuid \<times> int" where
  "delivery_key r = (del_event_id r, del_attempt_number r)"

definition wf_deliveries :: "tables \<Rightarrow> bool" where
  "wf_deliveries t \<longleftrightarrow>
     distinct (keys del_id (deliveries t)) \<and> distinct (keys delivery_key (deliveries t))
     \<and> (\<forall>r \<in> set (deliveries t). delivery_check r \<and> del_event_id r \<in> set (keys erow_id (events t)))"

definition wf_issues :: "tables \<Rightarrow> bool" where
  "wf_issues t \<longleftrightarrow>
     distinct (keys iss_id (issues t)) \<and> distinct (keys iss_event_id (issues t))
     \<and> (\<forall>i \<in> set (issues t). issue_check i
          \<and> iss_event_id i \<in> set (keys erow_id (events t))
          \<and> iss_connection_id i \<in> set (keys conn_id (connections t)))"

definition wf_alerts :: "tables \<Rightarrow> bool" where
  "wf_alerts t \<longleftrightarrow>
     distinct (keys rule_id (alert_rules t)) \<and> (\<forall>r \<in> set (alert_rules t). alert_rule_check r)
     \<and> distinct (keys an_id (alert_notifications t))
     \<and> (\<forall>n \<in> set (alert_notifications t). an_alert_rule_id n \<in> set (keys rule_id (alert_rules t)))"

definition wf_playground :: "tables \<Rightarrow> bool" where
  "wf_playground t \<longleftrightarrow>
     distinct (keys ps_id (playground_sessions t))
     \<and> distinct (keys ps_connection_id (playground_sessions t))
     \<and> (\<forall>p \<in> set (playground_sessions t). ps_connection_id p \<in> set (keys conn_id (connections t)))"

definition wf_tables :: "tables \<Rightarrow> bool" where
  "wf_tables t \<longleftrightarrow>
     wf_auth t \<and> wf_connections t \<and> wf_events t \<and> wf_deliveries t \<and> wf_issues t
     \<and> wf_alerts t \<and> wf_playground t"

lemmas wf_defs =
  wf_tables_def wf_auth_def wf_connections_def wf_events_def wf_deliveries_def wf_issues_def
  wf_alerts_def wf_playground_def

text \<open>
  What the code keeps beyond the declared constraints: an issue belongs to the connection of
  its event, an issue has a resolution time exactly when it is resolved, and there are never
  more than ten alert rules.
\<close>

definition issue_matches_event :: "tables \<Rightarrow> bool" where
  "issue_matches_event t \<longleftrightarrow>
     (\<forall>i \<in> set (issues t). \<forall>e \<in> set (events t).
        erow_id e = iss_event_id i \<longrightarrow> erow_connection_id e = iss_connection_id i)"

definition issue_status_ok :: "tables \<Rightarrow> bool" where
  "issue_status_ok t \<longleftrightarrow>
     (\<forall>i \<in> set (issues t). iss_status i = ''resolved'' \<longleftrightarrow> iss_resolved_at i \<noteq> None)"

definition app_inv :: "tables \<Rightarrow> bool" where
  "app_inv t \<longleftrightarrow> wf_tables t \<and> issue_matches_event t \<and> issue_status_ok t \<and> length (alert_rules t) \<le> 10"

lemma app_inv_empty: "app_inv empty_tables"
  by (simp add: app_inv_def wf_defs empty_tables_def issue_matches_event_def issue_status_ok_def)

section \<open>The database as the code sees it\<close>

text \<open>
  The fate of one statement: it runs; it is refused before it reaches the server (no
  connection, cancelled context); or it runs and its reply is lost, so that the caller sees an
  error although the statement took effect.
\<close>

datatype fault = NoFault | Refused string | Lost string

record db =
  tbl :: tables
  db_now :: time
  uuid_src :: "nat \<Rightarrow> uuid"
  uuid_pos :: nat
  numeric :: "nat \<Rightarrow> nat \<Rightarrow> float64 \<Rightarrow> float64 option"
  faults :: "fault list"

type_synonym 'a query = "db \<Rightarrow> 'a result \<times> db"

definition pool :: "'a query \<Rightarrow> 'a query" where
  "pool q d =
     (case faults d of
        [] \<Rightarrow> q d
      | f # fs \<Rightarrow>
          (let d' = d\<lparr>faults := fs\<rparr>
           in case f of
                NoFault \<Rightarrow> q d'
              | Refused m \<Rightarrow> (Inl (ErrText m), d')
              | Lost m \<Rightarrow> (Inl (ErrText m), snd (q d'))))"

definition gen_random_uuid :: "db \<Rightarrow> uuid \<times> db" where
  "gen_random_uuid d = (uuid_src d (uuid_pos d), d\<lparr>uuid_pos := Suc (uuid_pos d)\<rparr>)"

definition set_tbl :: "(tables \<Rightarrow> tables) \<Rightarrow> db \<Rightarrow> db" where
  "set_tbl f d = d\<lparr>tbl := f (tbl d)\<rparr>"

abbreviation violation :: go_error where
  "violation \<equiv> ErrText ''constraint violation''"

text \<open>Read-only statements.\<close>

definition select :: "(db \<Rightarrow> 'a) \<Rightarrow> 'a query" where
  "select f = pool (\<lambda>d. (Inr (f d), d))"

lemma set_tbl_simps [simp]:
  "tbl (set_tbl f d) = f (tbl d)" "db_now (set_tbl f d) = db_now d"
  "uuid_src (set_tbl f d) = uuid_src d" "uuid_pos (set_tbl f d) = uuid_pos d"
  "numeric (set_tbl f d) = numeric d" "faults (set_tbl f d) = faults d"
  by (simp_all add: set_tbl_def)

lemma gen_random_uuid_simps [simp]:
  "tbl (snd (gen_random_uuid d)) = tbl d" "db_now (snd (gen_random_uuid d)) = db_now d"
  "numeric (snd (gen_random_uuid d)) = numeric d" "faults (snd (gen_random_uuid d)) = faults d"
  "fst (gen_random_uuid d) = uuid_src d (uuid_pos d)"
  by (simp_all add: gen_random_uuid_def)

text \<open>
  A property of the tables that a statement keeps is kept whatever happens to the statement;
  a statement that reports success has run.
\<close>

lemma pool_keeps:
  "P (tbl d) \<Longrightarrow> (\<And>d. P (tbl d) \<Longrightarrow> P (tbl (snd (q d)))) \<Longrightarrow> P (tbl (snd (pool q d)))"
  by (auto simp: pool_def Let_def split: list.splits fault.splits)

lemma pool_cases:
  obtains (ran) "pool q d = q (d\<lparr>faults := tl (faults d)\<rparr>)"
  | (refused) m where "pool q d = (Inl (ErrText m), d\<lparr>faults := tl (faults d)\<rparr>)"
  | (lost) m where "pool q d = (Inl (ErrText m), snd (q (d\<lparr>faults := tl (faults d)\<rparr>)))"
proof (cases "faults d")
  case Nil
  then have eq: "d\<lparr>faults := tl (faults d)\<rparr> = d" by (cases d) simp
  show ?thesis by (rule ran) (simp only: eq, simp add: pool_def Nil)
next
  case (Cons f fs)
  then show ?thesis using that by (cases f) (auto simp: pool_def Let_def)
qed

lemma pool_InrD:
  "pool q d = (Inr x, d') \<Longrightarrow> q (d\<lparr>faults := tl (faults d)\<rparr>) = (Inr x, d')"
  by (rule pool_cases [of q d]) auto

lemma pool_no_faults [simp]: "faults d = [] \<Longrightarrow> pool q d = q d"
  by (simp add: pool_def)

lemma select_tbl [simp]: "tbl (snd (select f d)) = tbl d"
  by (simp add: select_def) (rule pool_keeps [where P = "\<lambda>t. t = tbl d"], auto)

lemma select_InrD: "select f d = (Inr x, d') \<Longrightarrow>
  x = f (d\<lparr>faults := tl (faults d)\<rparr>) \<and> d' = d\<lparr>faults := tl (faults d)\<rparr>"
  by (auto simp: select_def dest: pool_InrD)

end
