(* ===== verification/Sha256.thy ===== *)
theory Sha256
  imports Prelude
begin

unbundle bit_operations_syntax

text \<open>
  The digests the sources compute with Go's \<^verbatim>\<open>crypto/sha256\<close> and \<^verbatim>\<open>crypto/hmac\<close>: SHA-256 over
  byte strings (FIPS 180-4) and HMAC-SHA-256 (RFC 2104), executable.  The components use
  them through two facts only: both are functions of their arguments, and a digest has
  32 bytes.
\<close>

section \<open>Bytes and words\<close>

text \<open>Big-endian bytes of a word, and back.\<close>

definition word_bytes :: "nat \<Rightarrow> 'a::len word \<Rightarrow> bytes" where
  "word_bytes k w = map (\<lambda>i. char_of (unat (take_bit 8 (drop_bit (8 * (k - 1 - i)) w)))) [0..<k]"

definition bytes_word :: "bytes \<Rightarrow> 'a::len word" where
  "bytes_word bs = fold (\<lambda>b w. push_bit 8 w OR of_nat (of_char b)) bs 0"

definition bxor :: "char \<Rightarrow> char \<Rightarrow> char" where
  "bxor a b = char_of ((of_char a :: nat) XOR of_char b)"

lemma length_word_bytes [simp]: "length (word_bytes k w) = k"
  by (simp add: word_bytes_def)

lemma of_char_bxor: "(of_char (bxor a b) :: nat) = of_char a XOR of_char b"
proof -
  have t: "take_bit 8 (of_char c :: nat) = of_char c" for c
    by (simp add: take_bit_eq_mod)
  have "(of_char (bxor a b) :: nat) = take_bit 8 (of_char a XOR of_char b)"
    by (simp add: bxor_def take_bit_eq_mod)
  also have "\<dots> = of_char a XOR of_char b"
    by (simp only: take_bit_xor t)
  finally show ?thesis .
qed

lemma bxor_bxor [simp]: "bxor (bxor a b) b = a"
proof -
  have "(of_char (bxor (bxor a b) b) :: nat) = of_char a"
    by (simp add: of_char_bxor xor.assoc)
  then show ?thesis by simp
qed

section \<open>SHA-256\<close>

definition sha256_K :: "32 word list" where
  "sha256_K =
     [0x428A2F98, 0x71374491, 0xB5C0FBCF, 0xE9B5DBA5, 0x3956C25B, 0x59F111F1,
      0x923F82A4, 0xAB1C5ED5, 0xD807AA98, 0x12835B01, 0x243185BE, 0x550C7DC3,
      0x72BE5D74, 0x80DEB1FE, 0x9BDC06A7, 0xC19BF174, 0xE49B69C1, 0xEFBE4786,
      0x0FC19DC6, 0x240CA1CC, 0x2DE92C6F, 0x4A7484AA, 0x5CB0A9DC, 0x76F988DA,
      0x983E5152, 0xA831C66D, 0xB00327C8, 0xBF597FC7, 0xC6E00BF3, 0xD5A79147,
      0x06CA6351, 0x14292967, 0x27B70A85, 0x2E1B2138, 0x4D2C6DFC, 0x53380D13,
      0x650A7354, 0x766A0ABB, 0x81C2C92E, 0x92722C85, 0xA2BFE8A1, 0xA81A664B,
      0xC24B8B70, 0xC76C51A3, 0xD192E819, 0xD6990624, 0xF40E3585, 0x106AA070,
      0x19A4C116, 0x1E376C08, 0x2748774C, 0x34B0BCB5, 0x391C0CB3, 0x4ED8AA4A,
      0x5B9CCA4F, 0x682E6FF3, 0x748F82EE, 0x78A5636F, 0x84C87814, 0x8CC70208,
      0x90BEFFFA, 0xA4506CEB, 0xBEF9A3F7, 0xC67178F2]"

definition sha256_init :: "32 word list" where
  "sha256_init =
     [0x6A09E667, 0xBB67AE85, 0x3C6EF372, 0xA54FF53A,
      0x510E527F, 0x9B05688C, 0x1F83D9AB, 0x5BE0CD19]"

definition rotr :: "nat \<Rightarrow> 32 word \<Rightarrow> 32 word" where
  "rotr n x = drop_bit n x OR push_bit (32 - n) x"

definition sha256_pad :: "bytes \<Rightarrow> bytes" where
  "sha256_pad m =
     m @ [CHR 0x80] @ replicate ((119 - length m mod 64) mod 64) (CHR 0x00)
       @ word_bytes 8 (of_nat (8 * length m) :: 64 word)"

fun chunks :: "nat \<Rightarrow> 'a list \<Rightarrow> 'a list list" where
  "chunks k xs = (if k = 0 \<or> xs = [] then [] else take k xs # chunks k (drop k xs))"

declare chunks.simps [simp del]

definition sha256_next_word :: "32 word list \<Rightarrow> 32 word" where
  "sha256_next_word w =
     (let t = length w;
          a = w ! (t - 15); b = w ! (t - 2);
          s0 = rotr 7 a XOR rotr 18 a XOR drop_bit 3 a;
          s1 = rotr 17 b XOR rotr 19 b XOR drop_bit 10 b
      in w ! (t - 16) + s0 + w ! (t - 7) + s1)"

definition sha256_schedule :: "bytes \<Rightarrow> 32 word list" where
  "sha256_schedule block =
     ((\<lambda>w. w @ [sha256_next_word w]) ^^ 48) (map bytes_word (chunks 4 block))"

fun sha256_round :: "32 word \<times> 32 word \<Rightarrow> 32 word list \<Rightarrow> 32 word list" where
  "sha256_round (k, w) [a, b, c, d, e, f, g, h] =
     (let s1 = rotr 6 e XOR rotr 11 e XOR rotr 25 e;
          ch = (e AND f) XOR (NOT e AND g);
          t1 = h + s1 + ch + k + w;
          s0 = rotr 2 a XOR rotr 13 a XOR rotr 22 a;
          maj = (a AND b) XOR (a AND c) XOR (b AND c)
      in [t1 + (s0 + maj), a, b, c, d + t1, e, f, g])"
| "sha256_round _ v = v"

definition sha256_block :: "bytes \<Rightarrow> 32 word list \<Rightarrow> 32 word list" where
  "sha256_block block v =
     map2 (+) v (fold sha256_round (zip sha256_K (sha256_schedule block)) v)"

definition sha256 :: "bytes \<Rightarrow> bytes" where
  "sha256 m =
     concat (map (word_bytes 4) (fold sha256_block (chunks 64 (sha256_pad m)) sha256_init))"

lemma length_sha256_round [simp]: "length (sha256_round kw v) = length v"
  by (induction kw v rule: sha256_round.induct) (auto simp: Let_def)

lemma length_fold_keep: "(\<And>x v. length (f x v) = length v) \<Longrightarrow> length (fold f xs v) = length v"
  by (induction xs arbitrary: v) auto

lemma length_sha256_block [simp]: "length (sha256_block b v) = length v"
  by (simp add: sha256_block_def length_fold_keep)

lemma length_sha256 [simp]: "length (sha256 m) = 32"
proof -
  have "length (concat (map (word_bytes 4) ws)) = 4 * length ws" for ws :: "32 word list"
    by (induction ws) auto
  then show ?thesis by (simp add: sha256_def length_fold_keep sha256_init_def)
qed

section \<open>HMAC\<close>

definition hmac_key :: "bytes \<Rightarrow> bytes" where
  "hmac_key key =
     (let k = (if 64 < length key then sha256 key else key)
      in k @ replicate (64 - length k) (CHR 0x00))"

definition hmac_sha256 :: "bytes \<Rightarrow> bytes \<Rightarrow> bytes" where
  "hmac_sha256 key m =
     (let k = hmac_key key
      in sha256 (map (bxor (CHR 0x5C)) k @ sha256 (map (bxor (CHR 0x36)) k @ m)))"

lemma length_hmac [simp]: "length (hmac_sha256 key m) = 32"
  by (simp add: hmac_sha256_def Let_def)

end
