(* ===== verification/Aes_Gcm.thy ===== *)
theory Aes_Gcm
  imports Sha256
begin

unbundle bit_operations_syntax

text \<open>
  The authenticated encryption behind \<^verbatim>\<open>crypto/encrypt.go\<close>: Go's \<^verbatim>\<open>aes.NewCipher\<close> (FIPS 197) and
  \<^verbatim>\<open>cipher.NewGCM\<close> (NIST SP 800-38D) with its default 12-byte nonce and 16-byte tag and no
  additional data, executable.  What the components need of it is proved at the end:
  opening what was sealed under the same key and nonce gives the plaintext back, and the
  sealed text is 16 bytes longer.
\<close>

section \<open>The AES block cipher\<close>

definition aes_sbox :: "nat list" where
  "aes_sbox =
     [0x63, 0x7C, 0x77, 0x7B, 0xF2, 0x6B, 0x6F, 0xC5, 0x30, 0x01, 0x67, 0x2B, 0xFE, 0xD7,
      0xAB, 0x76, 0xCA, 0x82, 0xC9, 0x7D, 0xFA, 0x59, 0x47, 0xF0, 0xAD, 0xD4, 0xA2, 0xAF,
      0x9C, 0xA4, 0x72, 0xC0, 0xB7, 0xFD, 0x93, 0x26, 0x36, 0x3F, 0xF7, 0xCC, 0x34, 0xA5,
      0xE5, 0xF1, 0x71, 0xD8, 0x31, 0x15, 0x04, 0xC7, 0x23, 0xC3, 0x18, 0x96, 0x05, 0x9A,
      0x07, 0x12, 0x80, 0xE2, 0xEB, 0x27, 0xB2, 0x75, 0x09, 0x83, 0x2C, 0x1A, 0x1B, 0x6E,
      0x5A, 0xA0, 0x52, 0x3B, 0xD6, 0xB3, 0x29, 0xE3, 0x2F, 0x84, 0x53, 0xD1, 0x00, 0xED,
      0x20, 0xFC, 0xB1, 0x5B, 0x6A, 0xCB, 0xBE, 0x39, 0x4A, 0x4C, 0x58, 0xCF, 0xD0, 0xEF,
      0xAA, 0xFB, 0x43, 0x4D, 0x33, 0x85, 0x45, 0xF9, 0x02, 0x7F, 0x50, 0x3C, 0x9F, 0xA8,
      0x51, 0xA3, 0x40, 0x8F, 0x92, 0x9D, 0x38, 0xF5, 0xBC, 0xB6, 0xDA, 0x21, 0x10, 0xFF,
      0xF3, 0xD2, 0xCD, 0x0C, 0x13, 0xEC, 0x5F, 0x97, 0x44, 0x17, 0xC4, 0xA7, 0x7E, 0x3D,
      0x64, 0x5D, 0x19, 0x73, 0x60, 0x81, 0x4F, 0xDC, 0x22, 0x2A, 0x90, 0x88, 0x46, 0xEE,
      0xB8, 0x14, 0xDE, 0x5E, 0x0B, 0xDB, 0xE0, 0x32, 0x3A, 0x0A, 0x49, 0x06, 0x24, 0x5C,
      0xC2, 0xD3, 0xAC, 0x62, 0x91, 0x95, 0xE4, 0x79, 0xE7, 0xC8, 0x37, 0x6D, 0x8D, 0xD5,
      0x4E, 0xA9, 0x6C, 0x56, 0xF4, 0xEA, 0x65, 0x7A, 0xAE, 0x08, 0xBA, 0x78, 0x25, 0x2E,
      0x1C, 0xA6, 0xB4, 0xC6, 0xE8, 0xDD, 0x74, 0x1F, 0x4B, 0xBD, 0x8B, 0x8A, 0x70, 0x3E,
      0xB5, 0x66, 0x48, 0x03, 0xF6, 0x0E, 0x61, 0x35, 0x57, 0xB9, 0x86, 0xC1, 0x1D, 0x9E,
      0xE1, 0xF8, 0x98, 0x11, 0x69, 0xD9, 0x8E, 0x94, 0x9B, 0x1E, 0x87, 0xE9, 0xCE, 0x55,
      0x28, 0xDF, 0x8C, 0xA1, 0x89, 0x0D, 0xBF, 0xE6, 0x42, 0x68, 0x41, 0x99, 0x2D, 0x0F,
      0xB0, 0x54, 0xBB, 0x16]"

definition sub_byte :: "char \<Rightarrow> char" where
  "sub_byte c = char_of (aes_sbox ! of_char c)"

definition xtime :: "char \<Rightarrow> char" where
  "xtime c = (let n = 2 * (of_char c :: nat) in if n < 256 then char_of n else bxor (char_of (n - 256)) (CHR 0x1B))"

definition xor_bytes :: "bytes \<Rightarrow> bytes \<Rightarrow> bytes" where
  "xor_bytes xs ys = map2 bxor xs ys"

text \<open>Key expansion: \<open>ws\<close> is the list of four-byte words so far, \<open>nk\<close> the words of the key.\<close>

definition expand_step :: "nat \<Rightarrow> bytes list \<times> char \<Rightarrow> bytes list \<times> char" where
  "expand_step nk = (\<lambda>(ws, rcon).
     (let i = length ws; t = last ws; p = ws ! (i - nk)
      in if i mod nk = 0
         then (ws @ [xor_bytes p (xor_bytes (map sub_byte (rotate1 t)) [rcon, CHR 0x00, CHR 0x00, CHR 0x00])],
               xtime rcon)
         else if 6 < nk \<and> i mod nk = 4 then (ws @ [xor_bytes p (map sub_byte t)], rcon)
         else (ws @ [xor_bytes p t], rcon)))"

definition key_expansion :: "bytes \<Rightarrow> bytes list" where
  "key_expansion key =
     (let nk = length key div 4
      in chunks 16 (concat (fst ((expand_step nk ^^ (4 * (nk + 7) - nk)) (chunks 4 key, CHR 0x01)))))"

definition shift_rows :: "bytes \<Rightarrow> bytes" where
  "shift_rows s = map (\<lambda>i. s ! (i mod 4 + 4 * ((i div 4 + i mod 4) mod 4))) [0..<16]"

fun mix_column :: "bytes \<Rightarrow> bytes" where
  "mix_column [a, b, c, d] =
     (let m = (\<lambda>x y z w. bxor (bxor (xtime x) (bxor (xtime y) y)) (bxor z w))
      in [m a b c d, m b c d a, m c d a b, m d a b c])"
| "mix_column s = s"

definition mix_columns :: "bytes \<Rightarrow> bytes" where
  "mix_columns s = concat (map mix_column (chunks 4 s))"

definition aes_encrypt :: "bytes \<Rightarrow> bytes \<Rightarrow> bytes" where
  "aes_encrypt key block =
     (let ks = key_expansion key;
          s0 = xor_bytes block (hd ks);
          s1 = fold (\<lambda>k s. xor_bytes (mix_columns (shift_rows (map sub_byte s))) k) (butlast (tl ks)) s0
      in xor_bytes (shift_rows (map sub_byte s1)) (last ks))"

section \<open>Galois/counter mode\<close>

definition gf_mult :: "128 word \<Rightarrow> 128 word \<Rightarrow> 128 word" where
  "gf_mult x y =
     fst (fold (\<lambda>i (z, v).
            (if bit x (127 - i) then z XOR v else z,
             if bit v 0 then drop_bit 1 v XOR push_bit 120 0xE1 else drop_bit 1 v))
          [0..<128] (0, y))"

definition pad16 :: "bytes \<Rightarrow> bytes" where
  "pad16 s = s @ replicate ((16 - length s mod 16) mod 16) (CHR 0x00)"

definition ghash :: "128 word \<Rightarrow> bytes \<Rightarrow> 128 word" where
  "ghash h c =
     fold (\<lambda>b y. gf_mult (y XOR bytes_word b) h)
       (chunks 16 (pad16 c) @ [word_bytes 16 (of_nat (8 * length c) :: 128 word)]) 0"

text \<open>The \<open>i\<close>-th counter block of a 12-byte nonce; block 1 masks the tag.\<close>

definition counter_block :: "bytes \<Rightarrow> nat \<Rightarrow> bytes" where
  "counter_block nonce i = nonce @ word_bytes 4 (of_nat i :: 32 word)"

definition keystream :: "bytes \<Rightarrow> bytes \<Rightarrow> nat \<Rightarrow> bytes" where
  "keystream key nonce n =
     (let s = concat (map (\<lambda>i. aes_encrypt key (counter_block nonce (i + 2))) [0..<(n + 15) div 16])
      in map (\<lambda>i. if i < length s then s ! i else CHR 0x00) [0..<n])"

definition gcm_tag :: "bytes \<Rightarrow> bytes \<Rightarrow> bytes \<Rightarrow> bytes" where
  "gcm_tag key nonce ct =
     word_bytes 16 (ghash (bytes_word (aes_encrypt key (replicate 16 (CHR 0x00)))) ct
                    XOR bytes_word (aes_encrypt key (counter_block nonce 1)))"

definition gcm_seal :: "bytes \<Rightarrow> bytes \<Rightarrow> bytes \<Rightarrow> bytes" where
  "gcm_seal key nonce pt =
     (let ct = xor_bytes pt (keystream key nonce (length pt)) in ct @ gcm_tag key nonce ct)"

definition gcm_open :: "bytes \<Rightarrow> bytes \<Rightarrow> bytes \<Rightarrow> bytes result" where
  "gcm_open key nonce data =
     (if length data < 16 then Inl (ErrText ''cipher: message authentication failed'')
      else let ct = take (length data - 16) data
           in if drop (length data - 16) data = gcm_tag key nonce ct
              then Inr (xor_bytes ct (keystream key nonce (length ct)))
              else Inl (ErrText ''cipher: message authentication failed''))"

lemma length_xor_bytes [simp]: "length (xor_bytes xs ys) = min (length xs) (length ys)"
  by (simp add: xor_bytes_def)

lemma length_keystream [simp]: "length (keystream key nonce n) = n"
  by (simp add: keystream_def Let_def)

lemma length_gcm_tag [simp]: "length (gcm_tag key nonce ct) = 16"
  by (simp add: gcm_tag_def)

lemma xor_bytes_twice: "length xs = length ys \<Longrightarrow> xor_bytes (xor_bytes xs ys) ys = xs"
  by (induction xs ys rule: list_induct2) (auto simp: xor_bytes_def)

lemma length_gcm_seal: "length (gcm_seal key nonce pt) = length pt + 16"
  by (simp add: gcm_seal_def Let_def)

lemma gcm_open_seal: "gcm_open key nonce (gcm_seal key nonce pt) = Inr pt"
  by (simp add: gcm_open_def gcm_seal_def Let_def xor_bytes_twice)

text \<open>Anything else that opens carries the tag of its own ciphertext.\<close>

lemma gcm_open_InrD:
  "gcm_open key nonce data = Inr pt \<Longrightarrow> data = gcm_seal key nonce pt"
  by (auto simp: gcm_open_def gcm_seal_def Let_def xor_bytes_twice split: if_splits)
     (metis append_take_drop_id)

end
