(* ===== verification/Crypto.thy ===== *)
theory Crypto
  imports Aes_Gcm GoStrings
begin

text \<open>
  \<^verbatim>\<open>internal/crypto/encrypt.go\<close>: the \<^verbatim>\<open>Encryptor\<close> that seals signing secrets, event payloads and
  notification credentials, and the base64 text forms of its ciphertexts.  The contract its
  clients rely on is the locale \<open>secret_box\<close>, interpreted here on the model of the code.
\<close>

section \<open>The encryptor\<close>

record encryptor =
  gcm_key :: bytes

text \<open>
  \<^verbatim>\<open>aes.NewCipher\<close> accepts keys of 16, 24 or 32 bytes; \<^verbatim>\<open>cipher.NewGCM\<close> cannot fail on an AES block.
\<close>

definition NewEncryptor :: "bytes \<Rightarrow> encryptor result" where
  "NewEncryptor key =
     (if length key \<in> {16, 24, 32} then Inr \<lparr>gcm_key = key\<rparr>
      else Inl (Wrapped ''new cipher''
             (ErrText (''crypto/aes: invalid key size '' @ itoa (int (length key))))))"

abbreviation nonce_size :: nat where "nonce_size \<equiv> 12"

text \<open>
  \<open>rand\<close> is what reading 12 bytes from \<^verbatim>\<open>rand.Reader\<close> gave: an error, or the bytes.
\<close>

definition EncryptBytes :: "encryptor \<Rightarrow> 96 word result \<Rightarrow> bytes \<Rightarrow> bytes result" where
  "EncryptBytes e rand plaintext =
     (case rand of
        Inl err \<Rightarrow> Inl err
      | Inr r \<Rightarrow> (let nonce = word_bytes nonce_size r
                  in Inr (nonce @ gcm_seal (gcm_key e) nonce plaintext)))"

definition Encrypt :: "encryptor \<Rightarrow> 96 word result \<Rightarrow> string \<Rightarrow> bytes result" where
  "Encrypt e rand plaintext = EncryptBytes e rand plaintext"

definition DecryptBytes :: "encryptor \<Rightarrow> bytes \<Rightarrow> bytes result" where
  "DecryptBytes e ciphertext =
     (if length ciphertext < nonce_size then Inl (ErrText ''ciphertext too short'')
      else let nonce = take nonce_size ciphertext; data = drop nonce_size ciphertext
           in gcm_open (gcm_key e) nonce data)"

definition Decrypt :: "encryptor \<Rightarrow> bytes \<Rightarrow> string result" where
  "Decrypt e ciphertext =
     (case DecryptBytes e ciphertext of Inl err \<Rightarrow> Inl err | Inr b \<Rightarrow> Inr b)"

section \<open>Standard base64\<close>

definition b64_char :: "nat \<Rightarrow> char" where
  "b64_char n =
     (if n < 26 then char_of (65 + n) else if n < 52 then char_of (71 + n)
      else if n < 62 then char_of (n - 4) else if n = 62 then CHR ''+'' else CHR ''/'')"

definition b64_value :: "char \<Rightarrow> nat option" where
  "b64_value c =
     (let d = (of_char c :: nat) in
      if 65 \<le> d \<and> d \<le> 90 then Some (d - 65)
      else if 97 \<le> d \<and> d \<le> 122 then Some (d - 71)
      else if 48 \<le> d \<and> d \<le> 57 then Some (d + 4)
      else if c = CHR ''+'' then Some 62
      else if c = CHR ''/'' then Some 63
      else None)"

fun b64_encode :: "bytes \<Rightarrow> string" where
  "b64_encode [] = []"
| "b64_encode [a] =
     (let x = (of_char a :: nat)
      in [b64_char (x div 4), b64_char (x mod 4 * 16), CHR ''='', CHR ''=''])"
| "b64_encode [a, b] =
     (let x = (of_char a :: nat); y = of_char b
      in [b64_char (x div 4), b64_char (x mod 4 * 16 + y div 16), b64_char (y mod 16 * 4), CHR ''=''])"
| "b64_encode (a # b # c # s) =
     (let x = (of_char a :: nat); y = of_char b; z = of_char c
      in b64_char (x div 4) # b64_char (x mod 4 * 16 + y div 16)
         # b64_char (y mod 16 * 4 + z div 64) # b64_char (z mod 64) # b64_encode s)"

text \<open>
  Decoding skips carriage returns and line feeds; a padded group ends the input; the unused
  bits of a padded group are ignored (Go's encoding is not strict).
\<close>

fun b64_groups :: "string \<Rightarrow> bytes option" where
  "b64_groups [] = Some []"
| "b64_groups (a # b # c # d # s) =
     (case (b64_value a, b64_value b) of
        (Some w, Some x) \<Rightarrow>
          (case (b64_value c, b64_value d) of
             (Some y, Some z) \<Rightarrow>
               map_option (\<lambda>r. char_of (w * 4 + x div 16) # char_of (x mod 16 * 16 + y div 4)
                               # char_of (y mod 4 * 64 + z) # r) (b64_groups s)
           | (Some y, None) \<Rightarrow>
               if d = CHR ''='' \<and> s = [] then Some [char_of (w * 4 + x div 16), char_of (x mod 16 * 16 + y div 4)]
               else None
           | (None, _) \<Rightarrow>
               if c = CHR ''='' \<and> d = CHR ''='' \<and> s = [] then Some [char_of (w * 4 + x div 16)] else None)
      | _ \<Rightarrow> None)"
| "b64_groups s = None"

definition b64_decode :: "string \<Rightarrow> bytes result" where
  "b64_decode s =
     (case b64_groups (filter (\<lambda>c. c \<noteq> CHR 0x0D \<and> c \<noteq> CHR 0x0A) s) of
        None \<Rightarrow> Inl (ErrText ''illegal base64 data'') | Some bs \<Rightarrow> Inr bs)"

definition EncryptString :: "encryptor \<Rightarrow> 96 word result \<Rightarrow> string \<Rightarrow> string result" where
  "EncryptString e rand plaintext =
     (case Encrypt e rand plaintext of Inl err \<Rightarrow> Inl err | Inr b \<Rightarrow> Inr (b64_encode b))"

definition DecryptString :: "encryptor \<Rightarrow> string \<Rightarrow> string result" where
  "DecryptString e encoded =
     (case b64_decode encoded of Inl err \<Rightarrow> Inl err | Inr b \<Rightarrow> Decrypt e b)"

section \<open>The contract of an encryptor\<close>

text \<open>
  What a client of the encryptor relies on: encryption fails only when the random source
  does, what was encrypted decrypts to itself, and only encryptions decrypt.
\<close>

locale secret_box =
  fixes enc :: "'r result \<Rightarrow> bytes \<Rightarrow> bytes result"
    and dec :: "bytes \<Rightarrow> bytes result"
  assumes enc_rand_err: "enc (Inl err) p = Inl err"
    and enc_ok: "\<exists>c. enc (Inr r) p = Inr c"
    and dec_enc: "enc rand p = Inr c \<Longrightarrow> dec c = Inr p"
begin

lemma enc_inj: "enc r p = Inr c \<Longrightarrow> enc r' p' = Inr c \<Longrightarrow> p = p'"
  using dec_enc [of r p c] dec_enc [of r' p' c] by simp

lemma enc_cases:
  obtains (err) e where "rand = Inl e" "enc rand p = Inl e"
  | (ok) r c where "rand = Inr r" "enc rand p = Inr c" "dec c = Inr p"
  using enc_rand_err enc_ok dec_enc by (cases rand) metis+

end

lemma DecryptBytes_EncryptBytes: "EncryptBytes e rand p = Inr c \<Longrightarrow> DecryptBytes e c = Inr p"
  by (auto simp: EncryptBytes_def DecryptBytes_def Let_def gcm_open_seal split: sum.splits)

interpretation box: secret_box "EncryptBytes e" "DecryptBytes e" for e
  by unfold_locales (simp_all add: DecryptBytes_EncryptBytes EncryptBytes_def [of _ "Inl _"] EncryptBytes_def [of _ "Inr _"] Let_def)

lemma EncryptBytes_length: "EncryptBytes e rand p = Inr c \<Longrightarrow> length c = length p + 28"
  by (auto simp: EncryptBytes_def Let_def length_gcm_seal split: sum.splits)

text \<open>Encoding and decoding base64.\<close>

lemma b64_value_char: "n < 64 \<Longrightarrow> b64_value (b64_char n) = Some n"
  by (auto simp: b64_value_def b64_char_def Let_def)

lemma b64_char_not_line: "n < 64 \<Longrightarrow> b64_char n \<noteq> CHR 0x0D \<and> b64_char n \<noteq> CHR 0x0A"
proof -
  have "b64_value (CHR 0x0D) = None" "b64_value (CHR 0x0A) = None"
    by (simp_all add: b64_value_def)
  then show "n < 64 \<Longrightarrow> ?thesis" by (metis b64_value_char option.distinct(1))
qed

lemma pack: "(b::nat) < k \<Longrightarrow> (a * k + b) div k = a" "(b::nat) < k \<Longrightarrow> (a * k + b) mod k = b"
  by simp_all

lemma sextets:
  fixes x y z :: nat
  assumes "x < 256" and "y < 256" and "z < 256"
  shows "x div 4 < 64" and "x mod 4 * 16 < 64" and "x mod 4 * 16 + y div 16 < 64"
    and "y mod 16 * 4 < 64" and "y mod 16 * 4 + z div 64 < 64" and "z mod 64 < 64"
proof -
  have a: "x mod 4 < 4" "y mod 16 < 16" "y div 16 < 16" "z div 64 < 4"
    using assms by (auto simp: less_mult_imp_div_less)
  show "x div 4 < 64" using assms by (simp add: less_mult_imp_div_less)
  show "x mod 4 * 16 < 64" "x mod 4 * 16 + y div 16 < 64" "y mod 16 * 4 < 64"
    "y mod 16 * 4 + z div 64 < 64" "z mod 64 < 64" using a by (linarith | simp)+
qed

lemma octets:
  fixes x y z :: nat
  assumes "x < 256" and "y < 256" and "z < 256"
  shows "x div 4 * 4 + (x mod 4 * 16 + y div 16) div 16 = x"
    and "(x mod 4 * 16 + y div 16) mod 16 * 16 + (y mod 16 * 4 + z div 64) div 4 = y"
    and "(y mod 16 * 4 + z div 64) mod 4 * 64 + z mod 64 = z"
    and "x div 4 * 4 + x mod 4 * 16 div 16 = x"
    and "(x mod 4 * 16 + y div 16) mod 16 * 16 + y mod 16 * 4 div 4 = y"
proof -
  have "y div 16 < 16" "z div 64 < 4"
    using assms by (auto simp: less_mult_imp_div_less)
  then show "x div 4 * 4 + (x mod 4 * 16 + y div 16) div 16 = x"
    "(x mod 4 * 16 + y div 16) mod 16 * 16 + (y mod 16 * 4 + z div 64) div 4 = y"
    "(y mod 16 * 4 + z div 64) mod 4 * 64 + z mod 64 = z"
    "x div 4 * 4 + x mod 4 * 16 div 16 = x"
    "(x mod 4 * 16 + y div 16) mod 16 * 16 + y mod 16 * 4 div 4 = y"
    by (simp_all only: pack div_mult_mod_eq nonzero_mult_div_cancel_right zero_neq_numeral not_False_eq_True
        numeral_neq_zero)
qed

lemma b64_equals [simp]: "b64_value (CHR ''='') = None"
  by (simp add: b64_value_def)

lemma b64_groups_encode: "b64_groups (b64_encode s) = Some s"
proof (induction s rule: b64_encode.induct)
  case (2 a)
  then show ?case
    using sextets [OF of_char_less_256 [of a] of_char_less_256 [of a] of_char_less_256 [of a]]
      octets [OF of_char_less_256 [of a] of_char_less_256 [of a] of_char_less_256 [of a]]
    by (simp add: Let_def b64_value_char)
next
  case (3 a b)
  then show ?case
    using sextets [OF of_char_less_256 [of a] of_char_less_256 [of b] of_char_less_256 [of a]]
      octets [OF of_char_less_256 [of a] of_char_less_256 [of b] of_char_less_256 [of a]]
    by (simp add: Let_def b64_value_char)
next
  case (4 a b c s)
  then show ?case
    using sextets [OF of_char_less_256 [of a] of_char_less_256 [of b] of_char_less_256 [of c]]
      octets [OF of_char_less_256 [of a] of_char_less_256 [of b] of_char_less_256 [of c]]
    by (simp add: Let_def b64_value_char)
qed simp

lemma b64_encode_no_line: "filter (\<lambda>c. c \<noteq> CHR 0x0D \<and> c \<noteq> CHR 0x0A) (b64_encode s) = b64_encode s"
proof (induction s rule: b64_encode.induct)
  case (2 a)
  then show ?case
    using sextets [OF of_char_less_256 [of a] of_char_less_256 [of a] of_char_less_256 [of a]]
    by (simp add: Let_def b64_char_not_line)
next
  case (3 a b)
  then show ?case
    using sextets [OF of_char_less_256 [of a] of_char_less_256 [of b] of_char_less_256 [of a]]
    by (simp add: Let_def b64_char_not_line)
next
  case (4 a b c s)
  then show ?case
    using sextets [OF of_char_less_256 [of a] of_char_less_256 [of b] of_char_less_256 [of c]]
    by (simp add: Let_def b64_char_not_line)
qed simp

lemma b64_decode_encode [simp]: "b64_decode (b64_encode s) = Inr s"
  by (simp add: b64_decode_def b64_encode_no_line b64_groups_encode)

end
