(* ===== verification/Store.thy ===== *)
theory Store
  imports Schema Crypto
begin

text \<open>
  \<^verbatim>\<open>internal/storage/store.go\<close> (connections, events, deliveries, issues, users, sessions) and
  \<^verbatim>\<open>event_crypto.go\<close>: one definition per method of \<^verbatim>\<open>Store\<close>, a function of the database that
  returns Go's result and the database after the call.  The lemmas show that every method
  keeps the constraints of the schema and the invariants of the code, and what the methods
  that change state do.
\<close>

section \<open>Connections\<close>

definition CreateConnection :: "Connection \<Rightarrow> Connection query" where
  "CreateConnection c = pool (\<lambda>d0.
     (let (i, d) = gen_random_uuid d0; t = tbl d
      in case numeric d 4 2 (conn_retry_backoff_factor c) of
           None \<Rightarrow> (Inl violation, d)
         | Some b \<Rightarrow>
             (let row = c\<lparr>conn_id := i, conn_retry_backoff_factor := b, conn_created_at := db_now d\<rparr>
              in if connection_check row \<and> i \<notin> set (keys conn_id (connections t))
                    \<and> conn_inbound_path c \<notin> set (keys conn_inbound_path (connections t))
                 then (Inr (c\<lparr>conn_id := i, conn_created_at := db_now d\<rparr>),
                       set_tbl (\<lambda>t. t\<lparr>connections := connections t @ [row]\<rparr>) d)
                 else (Inl violation, d))))"

text \<open>\<^verbatim>\<open>ORDER BY created_at DESC\<close>; rows created at the same time come in the order of their insertion.\<close>

definition ListConnections :: "Connection list query" where
  "ListConnections = select (\<lambda>d.
     sort_key (\<lambda>c. - conn_created_at c) (filter (\<lambda>c. \<not> conn_is_playground c) (connections (tbl d))))"

definition GetConnection :: "uuid \<Rightarrow> Connection option query" where
  "GetConnection i = select (\<lambda>d. find_by conn_id i (connections (tbl d)))"

definition GetConnectionByInboundPath :: "string \<Rightarrow> Connection option query" where
  "GetConnectionByInboundPath path = select (\<lambda>d. find_by conn_inbound_path path (connections (tbl d)))"

definition override :: "'a option \<Rightarrow> 'a \<Rightarrow> 'a" where
  "override x y = (case x of None \<Rightarrow> y | Some z \<Rightarrow> z)"

text \<open>The \<^verbatim>\<open>UPDATE connections\<close> of \<^verbatim>\<open>UpdateConnection\<close>.\<close>

definition update_connection_stmt :: "uuid \<Rightarrow> Connection \<Rightarrow> unit query" where
  "update_connection_stmt i c = pool (\<lambda>d.
     (case numeric d 4 2 (conn_retry_backoff_factor c) of
        None \<Rightarrow> (Inl violation, d)
      | Some b \<Rightarrow>
          (let upd = (\<lambda>r. r\<lparr>conn_name := conn_name c, conn_destination_url := conn_destination_url c,
                         conn_retry_attempts := conn_retry_attempts c,
                         conn_retry_first_delay_s := conn_retry_first_delay_s c,
                         conn_retry_backoff_factor := b,
                         conn_retention_days := conn_retention_days c\<rparr>);
               rows = update_by conn_id i upd (connections (tbl d))
           in if list_all connection_check rows
              then (Inr (), set_tbl (\<lambda>t. t\<lparr>connections := rows\<rparr>) d)
              else (Inl violation, d))))"

definition UpdateConnection ::
  "uuid \<Rightarrow> string option \<Rightarrow> string option \<Rightarrow> int option \<Rightarrow> int option \<Rightarrow> float64 option \<Rightarrow> int option
   \<Rightarrow> Connection option query" where
  "UpdateConnection i name dest retryAttempts retryFirstDelayS retryBackoff retentionDays d0 =
     (case GetConnection i d0 of
        (Inl e, d) \<Rightarrow> (Inl e, d)
      | (Inr None, d) \<Rightarrow> (Inr None, d)
      | (Inr (Some c0), d) \<Rightarrow>
          (let c = c0\<lparr>conn_name := override name (conn_name c0),
                     conn_destination_url := override dest (conn_destination_url c0),
                     conn_retry_attempts := override retryAttempts (conn_retry_attempts c0),
                     conn_retry_first_delay_s := override retryFirstDelayS (conn_retry_first_delay_s c0),
                     conn_retry_backoff_factor := override retryBackoff (conn_retry_backoff_factor c0),
                     conn_retention_days := override retentionDays (conn_retention_days c0)\<rparr>
           in case update_connection_stmt i c d of
                (Inl e, d') \<Rightarrow> (Inl e, d')
              | (Inr _, d') \<Rightarrow> (Inr (Some c), d')))"

definition UpdateConnectionSecret :: "uuid \<Rightarrow> bytes \<Rightarrow> unit query" where
  "UpdateConnectionSecret i enc = pool (\<lambda>d.
     (if i \<in> set (keys conn_id (connections (tbl d)))
      then (Inr (), set_tbl (\<lambda>t. t\<lparr>connections :=
              update_by conn_id i (\<lambda>r. r\<lparr>conn_signing_secret_enc := enc\<rparr>) (connections t)\<rparr>) d)
      else (Inl ErrNoRows, d)))"

section \<open>Sealing event fields\<close>

definition sealEventFields ::
  "encryptor option \<Rightarrow> 96 word result \<times> 96 word result \<Rightarrow> bytes \<Rightarrow> bytes \<Rightarrow> (bytes \<times> bytes) result" where
  "sealEventFields payloadEnc rs headers payload =
     (case payloadEnc of
        None \<Rightarrow> Inr (headers, payload)
      | Some e \<Rightarrow>
          (case EncryptBytes e (fst rs) headers of
             Inl err \<Rightarrow> Inl (Wrapped ''encrypt headers'' err)
           | Inr h \<Rightarrow>
               (case EncryptBytes e (snd rs) payload of
                  Inl err \<Rightarrow> Inl (Wrapped ''encrypt payload'' err)
                | Inr p \<Rightarrow> Inr (h, p))))"

definition openEventFields ::
  "encryptor option \<Rightarrow> bytes \<Rightarrow> bytes \<Rightarrow> bool \<Rightarrow> (bytes \<times> bytes) result" where
  "openEventFields payloadEnc headersEnc payloadE encrypted =
     (case payloadEnc of
        None \<Rightarrow> Inr (headersEnc, payloadE)
      | Some e \<Rightarrow>
          if \<not> encrypted then Inr (headersEnc, payloadE)
          else (case DecryptBytes e headersEnc of
                  Inl err \<Rightarrow> Inl (Wrapped ''decrypt headers'' err)
                | Inr h \<Rightarrow>
                    (case DecryptBytes e payloadE of
                       Inl err \<Rightarrow> Inl (Wrapped ''decrypt payload'' err)
                     | Inr p \<Rightarrow> Inr (h, p))))"

section \<open>Events\<close>

record InsertEventResult =
  ier_event :: "Event option"
  ier_inserted :: bool

text \<open>\<^verbatim>\<open>scanEvent\<close>: no row is a nil event; otherwise the sealed fields are opened.\<close>

definition scanEvent :: "encryptor option \<Rightarrow> event_row option \<Rightarrow> Event option result" where
  "scanEvent payloadEnc row =
     (case row of
        None \<Rightarrow> Inr None
      | Some r \<Rightarrow>
          (case openEventFields payloadEnc (erow_raw_headers r) (erow_raw_payload r) (erow_encrypted r) of
             Inl err \<Rightarrow> Inl err
           | Inr (h, p) \<Rightarrow>
               Inr (Some \<lparr>ev_id = erow_id r, ev_connection_id = erow_connection_id r,
                          ev_provider_event_id = erow_provider_event_id r,
                          ev_raw_headers = h, ev_raw_payload = p,
                          ev_received_at = erow_received_at r, ev_workflow_id = erow_workflow_id r\<rparr>)))"

definition scan_query :: "encryptor option \<Rightarrow> event_row option query \<Rightarrow> Event option query" where
  "scan_query payloadEnc q d =
     (case q d of (Inl e, d') \<Rightarrow> (Inl e, d') | (Inr row, d') \<Rightarrow> (scanEvent payloadEnc row, d'))"

definition GetEventByProviderID :: "encryptor option \<Rightarrow> uuid \<Rightarrow> string \<Rightarrow> Event option query" where
  "GetEventByProviderID payloadEnc connID providerID =
     scan_query payloadEnc (select (\<lambda>d. find_by event_key (connID, providerID) (events (tbl d))))"

definition GetEvent :: "encryptor option \<Rightarrow> uuid \<Rightarrow> Event option query" where
  "GetEvent payloadEnc i = scan_query payloadEnc (select (\<lambda>d. find_by erow_id i (events (tbl d))))"

text \<open>
  The \<^verbatim>\<open>INSERT INTO events ... ON CONFLICT DO NOTHING RETURNING id, received_at\<close>: a conflict on
  the pair of connection and provider id returns no row.
\<close>

definition insert_event_stmt :: "uuid \<Rightarrow> string \<Rightarrow> bytes \<Rightarrow> bytes \<Rightarrow> (uuid \<times> time) query" where
  "insert_event_stmt connID providerID h p = pool (\<lambda>d0.
     (let (i, d) = gen_random_uuid d0; t = tbl d
      in if \<not> text_ok providerID then (Inl violation, d)
         else if (connID, providerID) \<in> set (keys event_key (events t)) then (Inl ErrNoRows, d)
         else if connID \<in> set (keys conn_id (connections t)) \<and> i \<notin> set (keys erow_id (events t))
         then (Inr (i, db_now d),
               set_tbl (\<lambda>t. t\<lparr>events := events t @
                 [\<lparr>erow_id = i, erow_connection_id = connID, erow_provider_event_id = providerID,
                   erow_raw_headers = h, erow_raw_payload = p, erow_encrypted = True,
                   erow_received_at = db_now d, erow_workflow_id = None\<rparr>]\<rparr>) d)
         else (Inl violation, d)))"

definition InsertEvent ::
  "encryptor option \<Rightarrow> 96 word result \<times> 96 word result \<Rightarrow> Event \<Rightarrow> InsertEventResult query" where
  "InsertEvent payloadEnc rs e d0 =
     (case sealEventFields payloadEnc rs (ev_raw_headers e) (ev_raw_payload e) of
        Inl err \<Rightarrow> (Inl err, d0)
      | Inr (h, p) \<Rightarrow>
          (case insert_event_stmt (ev_connection_id e) (ev_provider_event_id e) h p d0 of
             (Inl err, d) \<Rightarrow>
               if err = ErrNoRows then
                 (case GetEventByProviderID payloadEnc (ev_connection_id e) (ev_provider_event_id e) d of
                    (Inl err2, d') \<Rightarrow> (Inl err2, d')
                  | (Inr existing, d') \<Rightarrow> (Inr \<lparr>ier_event = existing, ier_inserted = False\<rparr>, d'))
               else (Inl err, d)
           | (Inr (i, receivedAt), d) \<Rightarrow>
               (Inr \<lparr>ier_event = Some (e\<lparr>ev_id := i, ev_received_at := receivedAt\<rparr>),
                     ier_inserted = True\<rparr>, d)))"

definition SetEventWorkflowID :: "uuid \<Rightarrow> string \<Rightarrow> unit query" where
  "SetEventWorkflowID i wfID = pool (\<lambda>d.
     (if text_ok wfID
      then (Inr (), set_tbl (\<lambda>t. t\<lparr>events :=
              update_by erow_id i (\<lambda>r. r\<lparr>erow_workflow_id := Some wfID\<rparr>) (events t)\<rparr>) d)
      else (Inl violation, d)))"

text \<open>
  \<^verbatim>\<open>BackfillPayloadEncryption\<close>: the plaintext rows are read once, then each is sealed and written
  back; the count of rows done is returned with any error.  \<open>rs\<close> gives the random bytes drawn
  for each row.
\<close>

definition encrypt_row_stmt :: "uuid \<Rightarrow> bytes \<Rightarrow> bytes \<Rightarrow> int query" where
  "encrypt_row_stmt i h p = pool (\<lambda>d.
     (Inr (if i \<in> set (keys erow_id (events (tbl d))) then 1 else 0),
      set_tbl (\<lambda>t. t\<lparr>events := update_by erow_id i
        (\<lambda>r. r\<lparr>erow_raw_headers := h, erow_raw_payload := p, erow_encrypted := True\<rparr>) (events t)\<rparr>) d))"

fun backfill_rows ::
  "encryptor \<Rightarrow> (nat \<Rightarrow> 96 word result \<times> 96 word result) \<Rightarrow> nat \<Rightarrow> (uuid \<times> bytes \<times> bytes) list
   \<Rightarrow> int \<Rightarrow> db \<Rightarrow> (int \<times> go_error option) \<times> db" where
  "backfill_rows e rs k [] count d = ((count, None), d)"
| "backfill_rows e rs k ((i, h, p) # rows) count d =
     (case sealEventFields (Some e) (rs k) h p of
        Inl err \<Rightarrow> ((count, Some err), d)
      | Inr (h', p') \<Rightarrow>
          (case encrypt_row_stmt i h' p' d of
             (Inl err, d') \<Rightarrow> ((count, Some err), d')
           | (Inr n, d') \<Rightarrow> backfill_rows e rs (Suc k) rows (count + n) d'))"

definition BackfillPayloadEncryption ::
  "encryptor option \<Rightarrow> (nat \<Rightarrow> 96 word result \<times> 96 word result) \<Rightarrow> db \<Rightarrow> (int \<times> go_error option) \<times> db" where
  "BackfillPayloadEncryption payloadEnc rs d0 =
     (case payloadEnc of
        None \<Rightarrow> ((0, None), d0)
      | Some e \<Rightarrow>
          (case select (\<lambda>d. map (\<lambda>r. (erow_id r, erow_raw_headers r, erow_raw_payload r))
                         (filter (\<lambda>r. \<not> erow_encrypted r) (events (tbl d)))) d0 of
             (Inl err, d) \<Rightarrow> ((0, Some err), d)
           | (Inr rows, d) \<Rightarrow> backfill_rows e rs 0 rows 0 d))"

text \<open>Deleting events deletes their deliveries and issues (\<^verbatim>\<open>ON DELETE CASCADE\<close>).\<close>

definition delete_events :: "(event_row \<Rightarrow> bool) \<Rightarrow> tables \<Rightarrow> tables" where
  "delete_events gone t =
     (let kept = filter (\<lambda>e. \<not> gone e) (events t); ids = set (keys erow_id kept)
      in t\<lparr>events := kept,
           deliveries := filter (\<lambda>r. del_event_id r \<in> ids) (deliveries t),
           issues := filter (\<lambda>i. iss_event_id i \<in> ids) (issues t)\<rparr>)"

text \<open>
  Older than the retention of the connection.  A day is 24 hours, as in a session whose time zone
  is UTC, the default of the Postgres image.
\<close>

definition expired :: "time \<Rightarrow> tables \<Rightarrow> event_row \<Rightarrow> bool" where
  "expired now t e =
     (case find_by conn_id (erow_connection_id e) (connections t) of
        None \<Rightarrow> False
      | Some c \<Rightarrow> erow_received_at e < now - conn_retention_days c * (24 * Hour))"

definition PurgeExpiredEvents :: "nat query" where
  "PurgeExpiredEvents = pool (\<lambda>d.
     (Inr (length (filter (expired (db_now d) (tbl d)) (events (tbl d)))),
      set_tbl (\<lambda>t. delete_events (expired (db_now d) t) t) d))"

section \<open>Deliveries\<close>

definition RecordDelivery :: "Delivery \<Rightarrow> Delivery query" where
  "RecordDelivery r = pool (\<lambda>d0.
     (let (i, d) = gen_random_uuid d0; t = tbl d;
          row = r\<lparr>del_id := i, del_attempted_at := db_now d\<rparr>
      in if delivery_check row \<and> i \<notin> set (keys del_id (deliveries t))
            \<and> delivery_key row \<notin> set (keys delivery_key (deliveries t))
            \<and> del_event_id row \<in> set (keys erow_id (events t))
         then (Inr row, set_tbl (\<lambda>t. t\<lparr>deliveries := deliveries t @ [row]\<rparr>) d)
         else (Inl violation, d)))"

definition event_connection :: "tables \<Rightarrow> uuid \<Rightarrow> uuid option" where
  "event_connection t i = map_option erow_connection_id (find_by erow_id i (events t))"

definition ListDeliveriesForConnection :: "uuid \<Rightarrow> nat \<Rightarrow> Delivery list query" where
  "ListDeliveriesForConnection connID limit = select (\<lambda>d.
     take limit (sort_key (\<lambda>r. - del_attempted_at r)
       (filter (\<lambda>r. event_connection (tbl d) (del_event_id r) = Some connID) (deliveries (tbl d)))))"

section \<open>Issues\<close>

definition exhausted_prefix :: string where
  "exhausted_prefix = ''Delivery attempts exhausted''"

text \<open>The row an upsert of issue \<open>n\<close> leaves where \<open>old\<close> was: \<^verbatim>\<open>ON CONFLICT (event_id) DO UPDATE\<close>.\<close>

definition merge_issue :: "issue_row \<Rightarrow> issue_row \<Rightarrow> issue_row" where
  "merge_issue n old = old\<lparr>
     iss_attempts_exhausted := max (iss_attempts_exhausted old) (iss_attempts_exhausted n),
     iss_reason := (if has_prefix (iss_reason n) exhausted_prefix
                       \<and> \<not> has_prefix (iss_reason old) exhausted_prefix
                    then iss_reason old else iss_reason n),
     iss_status := ''open'', iss_resolved_at := None\<rparr>"

definition record_issue_stmt :: "issue_row \<Rightarrow> uuid query" where
  "record_issue_stmt n d0 =
     (let (i, d) = gen_random_uuid d0; t = tbl d;
          row = n\<lparr>iss_id := i, iss_status := ''open'', iss_resolved_at := None, iss_resolved_by := None\<rparr>
      in if \<not> issue_check row then (Inl violation, d)
         else case find_by iss_event_id (iss_event_id n) (issues t) of
                Some old \<Rightarrow>
                  (Inr (iss_id old),
                   set_tbl (\<lambda>t. t\<lparr>issues := update_by iss_event_id (iss_event_id n) (merge_issue n) (issues t)\<rparr>) d)
              | None \<Rightarrow>
                  if i \<notin> set (keys iss_id (issues t))
                     \<and> iss_event_id n \<in> set (keys erow_id (events t))
                     \<and> iss_connection_id n \<in> set (keys conn_id (connections t))
                  then (Inr i, set_tbl (\<lambda>t. t\<lparr>issues := issues t @ [row]\<rparr>) d)
                  else (Inl violation, d))"

definition RecordIssue_store :: "issue_row \<Rightarrow> uuid query" where
  "RecordIssue_store n = pool (record_issue_stmt n)"

text \<open>The join of an issue with its event and its connection.\<close>

definition join_issue :: "tables \<Rightarrow> issue_row \<Rightarrow> Issue option" where
  "join_issue t i =
     (case find_by erow_id (iss_event_id i) (events t) of
        None \<Rightarrow> None
      | Some e \<Rightarrow>
          (case find_by conn_id (iss_connection_id i) (connections t) of
             None \<Rightarrow> None
           | Some c \<Rightarrow> Some (issue_row.extend i
               (Issue.fields (erow_provider_event_id e) (conn_destination_url c)))))"

definition ListIssues :: "string \<Rightarrow> Issue list query" where
  "ListIssues status = select (\<lambda>d.
     sort_key (\<lambda>i. - iss_first_failed_at i)
       (List.map_filter (join_issue (tbl d))
         (if status \<noteq> [] \<and> status \<noteq> ''all''
          then filter (\<lambda>i. iss_status i = status) (issues (tbl d)) else issues (tbl d))))"

definition GetIssue :: "uuid \<Rightarrow> Issue option query" where
  "GetIssue i = select (\<lambda>d.
     (case find_by iss_id i (issues (tbl d)) of None \<Rightarrow> None | Some r \<Rightarrow> join_issue (tbl d) r))"

definition ResolveIssueByEventID :: "uuid \<Rightarrow> unit query" where
  "ResolveIssueByEventID eventID = pool (\<lambda>d.
     (Inr (), set_tbl (\<lambda>t. t\<lparr>issues := update_by (\<lambda>i. (iss_event_id i, iss_status i)) (eventID, ''open'')
        (\<lambda>i. i\<lparr>iss_status := ''resolved'', iss_resolved_at := Some (db_now d)\<rparr>) (issues t)\<rparr>) d))"

definition ResolveIssue :: "uuid \<Rightarrow> uuid \<Rightarrow> unit query" where
  "ResolveIssue i userID = pool (\<lambda>d.
     (if i \<in> set (keys iss_id (issues (tbl d))) \<and> userID \<notin> set (keys user_id (users (tbl d)))
      then (Inl violation, d)
      else (Inr (), set_tbl (\<lambda>t. t\<lparr>issues := update_by iss_id i
        (\<lambda>i. i\<lparr>iss_status := ''resolved'', iss_resolved_at := Some (db_now d), iss_resolved_by := Some userID\<rparr>)
        (issues t)\<rparr>) d)))"

definition open_issues :: "tables \<Rightarrow> issue_row list" where
  "open_issues t = filter (\<lambda>i. iss_status i = ''open'') (issues t)"

definition OpenIssuesCount :: "nat query" where
  "OpenIssuesCount = select (\<lambda>d. length (open_issues (tbl d)))"

text \<open>Hours since the oldest open issue first failed, as an exact number; 0 without open issues.\<close>

definition OldestOpenIssueAge :: "float64 query" where
  "OldestOpenIssueAge = select (\<lambda>d.
     (case map iss_first_failed_at (open_issues (tbl d)) of
        [] \<Rightarrow> 0
      | x # xs \<Rightarrow> f64 (of_int (db_now d - fold min xs x) / of_int Second / 3600)))"

section \<open>Users and sessions\<close>

definition CreateUser :: "User \<Rightarrow> User query" where
  "CreateUser u = pool (\<lambda>d0.
     (let (i, d) = gen_random_uuid d0; t = tbl d; row = u\<lparr>user_id := i, user_created_at := db_now d\<rparr>
      in if text_ok (user_email u) \<and> text_ok (user_password_hash u)
            \<and> i \<notin> set (keys user_id (users t)) \<and> user_email u \<notin> set (keys user_email (users t))
         then (Inr row, set_tbl (\<lambda>t. t\<lparr>users := users t @ [row]\<rparr>) d)
         else (Inl violation, d)))"

definition GetUserByEmail :: "string \<Rightarrow> User option query" where
  "GetUserByEmail email = select (\<lambda>d. find_by user_email email (users (tbl d)))"

definition CreateSession :: "Session \<Rightarrow> Session query" where
  "CreateSession s = pool (\<lambda>d0.
     (let (i, d) = gen_random_uuid d0; t = tbl d; row = s\<lparr>sess_id := i, sess_created_at := db_now d\<rparr>
      in if i \<notin> set (keys sess_id (sessions t)) \<and> sess_user_id s \<in> set (keys user_id (users t))
         then (Inr row, set_tbl (\<lambda>t. t\<lparr>sessions := sessions t @ [row]\<rparr>) d)
         else (Inl violation, d)))"

definition GetSession :: "uuid \<Rightarrow> Session option query" where
  "GetSession i = select (\<lambda>d.
     find (\<lambda>s. sess_id s = i \<and> db_now d < sess_expires_at s) (sessions (tbl d)))"

definition DeleteSession :: "uuid \<Rightarrow> unit query" where
  "DeleteSession i = pool (\<lambda>d.
     (Inr (), set_tbl (\<lambda>t. t\<lparr>sessions := filter (\<lambda>s. sess_id s \<noteq> i) (sessions t)\<rparr>) d))"

definition CountUsers :: "nat query" where
  "CountUsers = select (\<lambda>d. length (users (tbl d)))"

definition Ping :: "unit query" where
  "Ping = select (\<lambda>d. ())"

section \<open>Paths and URLs\<close>

definition GenerateInboundPath :: "(uuid \<Rightarrow> string) \<Rightarrow> uuid \<Rightarrow> string" where
  "GenerateInboundPath uuid_str u = take 8 (uuid_str u)"

definition InboundURL :: "string \<Rightarrow> string \<Rightarrow> string" where
  "InboundURL base path = base @ ''/e/'' @ path"

end
