(* ===== verification/StoreInv.thy ===== *)
theory StoreInv
  imports Store
begin

text \<open>
  Every method of \<^verbatim>\<open>Store\<close> in \<open>Store\<close> keeps \<open>app_inv\<close>: the constraints of the schema, the match
  between issues and events, the resolution times and the limit on alert rules.  The first
  part shows it for the changes of the tables, the second for the methods, whatever
  statements fail on the way.
\<close>

section \<open>Changes of the tables\<close>

lemma app_inv_insert_user:
  assumes "app_inv t" and "user_id u \<notin> set (keys user_id (users t))"
    and "user_email u \<notin> set (keys user_email (users t))"
  shows "app_inv (t\<lparr>users := users t @ [u]\<rparr>)"
  using assms by (simp add: app_inv_def wf_defs issue_matches_event_def issue_status_ok_def row_simps)

lemma app_inv_insert_session:
  assumes "app_inv t" and "sess_id s \<notin> set (keys sess_id (sessions t))"
    and "sess_user_id s \<in> set (keys user_id (users t))"
  shows "app_inv (t\<lparr>sessions := sessions t @ [s]\<rparr>)"
  using assms by (simp add: app_inv_def wf_defs issue_matches_event_def issue_status_ok_def row_simps)

lemma app_inv_delete_sessions:
  "app_inv t \<Longrightarrow> app_inv (t\<lparr>sessions := filter P (sessions t)\<rparr>)"
  by (simp add: app_inv_def wf_defs issue_matches_event_def issue_status_ok_def distinct_keys_filter)

lemma app_inv_insert_connection:
  assumes "app_inv t" and "connection_check c" and "conn_id c \<notin> set (keys conn_id (connections t))"
    and "conn_inbound_path c \<notin> set (keys conn_inbound_path (connections t))"
  shows "app_inv (t\<lparr>connections := connections t @ [c]\<rparr>)"
  using assms by (simp add: app_inv_def wf_defs issue_matches_event_def issue_status_ok_def row_simps)

lemma app_inv_update_connection:
  assumes "app_inv t" and "\<And>r. conn_id (f r) = conn_id r"
    and "\<And>r. conn_inbound_path (f r) = conn_inbound_path r"
    and "list_all connection_check (update_by conn_id i f (connections t))"
  shows "app_inv (t\<lparr>connections := update_by conn_id i f (connections t)\<rparr>)"
  using assms
  by (simp add: app_inv_def wf_defs issue_matches_event_def issue_status_ok_def list_all_iff
      keys_update_by [of conn_id f] keys_update_by [of conn_inbound_path f])

lemma app_inv_insert_event:
  assumes "app_inv t" and "erow_id e \<notin> set (keys erow_id (events t))"
    and "event_key e \<notin> set (keys event_key (events t))"
    and "erow_connection_id e \<in> set (keys conn_id (connections t))"
  shows "app_inv (t\<lparr>events := events t @ [e]\<rparr>)"
  using assms
  by (auto simp: app_inv_def wf_defs issue_matches_event_def issue_status_ok_def row_simps)

lemma app_inv_update_event:
  assumes "app_inv t" and f: "\<And>r. erow_id (f r) = erow_id r" "\<And>r. event_key (f r) = event_key r"
  shows "app_inv (t\<lparr>events := update_by erow_id i f (events t)\<rparr>)"
proof -
  have c: "erow_connection_id (f r) = erow_connection_id r" for r
    using f(2) [of r] by (simp add: event_key_def)
  show ?thesis
    using assms(1)
    by (auto simp: app_inv_def wf_defs issue_matches_event_def issue_status_ok_def set_update_by f c
        keys_update_by [of erow_id f] keys_update_by [of event_key f])
qed

lemma app_inv_delete_events:
  assumes "app_inv t"
  shows "app_inv (delete_events gone t)"
proof -
  have sub: "set (keys erow_id (filter P xs)) \<subseteq> set (keys erow_id xs)" for P xs
    by (auto simp: keys_def)
  show ?thesis
    using assms sub [of "\<lambda>e. \<not> gone e" "events t"]
    by (auto simp: app_inv_def wf_defs issue_matches_event_def issue_status_ok_def delete_events_def
        Let_def distinct_keys_filter)
qed

lemma app_inv_insert_delivery:
  assumes "app_inv t" and "delivery_check r" and "del_id r \<notin> set (keys del_id (deliveries t))"
    and "delivery_key r \<notin> set (keys delivery_key (deliveries t))"
    and "del_event_id r \<in> set (keys erow_id (events t))"
  shows "app_inv (t\<lparr>deliveries := deliveries t @ [r]\<rparr>)"
  using assms
  by (simp add: app_inv_def wf_defs issue_matches_event_def issue_status_ok_def row_simps)

definition issue_row_ok :: "tables \<Rightarrow> issue_row \<Rightarrow> bool" where
  "issue_row_ok t i \<longleftrightarrow>
     issue_check i \<and> iss_event_id i \<in> set (keys erow_id (events t))
     \<and> iss_connection_id i \<in> set (keys conn_id (connections t))
     \<and> (\<forall>e \<in> set (events t). erow_id e = iss_event_id i \<longrightarrow> erow_connection_id e = iss_connection_id i)
     \<and> (iss_status i = ''resolved'' \<longleftrightarrow> iss_resolved_at i \<noteq> None)"

lemma app_inv_issues:
  "app_inv t \<longleftrightarrow>
     app_inv (t\<lparr>issues := []\<rparr>) \<and> distinct (keys iss_id (issues t))
     \<and> distinct (keys iss_event_id (issues t)) \<and> (\<forall>i \<in> set (issues t). issue_row_ok t i)"
  by (auto simp: app_inv_def wf_defs issue_matches_event_def issue_status_ok_def issue_row_ok_def)

lemma app_inv_insert_issue:
  assumes "app_inv t" and "iss_id i \<notin> set (keys iss_id (issues t))"
    and "iss_event_id i \<notin> set (keys iss_event_id (issues t))" and "issue_row_ok t i"
  shows "app_inv (t\<lparr>issues := issues t @ [i]\<rparr>)"
  using assms
  by (subst app_inv_issues, subst (asm) app_inv_issues) (auto simp: row_simps issue_row_ok_def)

lemma app_inv_update_issues:
  assumes inv: "app_inv t" and f: "\<And>r. iss_id (f r) = iss_id r" "\<And>r. iss_event_id (f r) = iss_event_id r"
    and ok: "\<And>r. r \<in> set (issues t) \<Longrightarrow> key r = k \<Longrightarrow> issue_row_ok t r \<Longrightarrow> issue_row_ok t (f r)"
  shows "app_inv (t\<lparr>issues := update_by key k f (issues t)\<rparr>)"
proof -
  have r: "issue_row_ok (t\<lparr>issues := x\<rparr>) i = issue_row_ok t i" for x i
    by (simp add: issue_row_ok_def)
  note h = inv [unfolded app_inv_issues [of t]]
  have "\<forall>i \<in> set (update_by key k f (issues t)). issue_row_ok t i"
    using h ok by (intro ball_update_by) auto
  with h show ?thesis
    by (subst app_inv_issues) (simp add: r keys_update_by [of iss_id f] keys_update_by [of iss_event_id f] f)
qed

section \<open>The methods\<close>

definition preserves :: "(tables \<Rightarrow> bool) \<Rightarrow> (db \<Rightarrow> 'a \<times> db) \<Rightarrow> bool" where
  "preserves P q \<longleftrightarrow> (\<forall>d. P (tbl d) \<longrightarrow> P (tbl (snd (q d))))"

lemma preservesI: "(\<And>d. P (tbl d) \<Longrightarrow> P (tbl (snd (q d)))) \<Longrightarrow> preserves P q"
  by (simp add: preserves_def)

lemma preservesD: "preserves P q \<Longrightarrow> P (tbl d) \<Longrightarrow> P (tbl (snd (q d)))"
  by (simp add: preserves_def)

lemma preserves_pool: "(\<And>d. P (tbl d) \<Longrightarrow> P (tbl (snd (q d)))) \<Longrightarrow> preserves P (pool q)"
  by (rule preservesI) (rule pool_keeps)

lemma preserves_select [keeps]: "preserves P (select f)"
  by (simp add: preserves_def)

text \<open>A call that is followed by code depending on its result.\<close>

lemma preserves_step: "preserves P q \<Longrightarrow> P (tbl d) \<Longrightarrow> q d = (r, d') \<Longrightarrow> P (tbl d')"
  by (metis preserves_def snd_conv)

lemma ListConnections_keeps [keeps]: "preserves P ListConnections"
  and GetConnection_keeps [keeps]: "preserves P (GetConnection i)"
  and GetConnectionByInboundPath_keeps [keeps]: "preserves P (GetConnectionByInboundPath s)"
  and ListDeliveriesForConnection_keeps [keeps]: "preserves P (ListDeliveriesForConnection i n)"
  and ListIssues_keeps [keeps]: "preserves P (ListIssues s)"
  and GetIssue_keeps [keeps]: "preserves P (GetIssue i)"
  and OpenIssuesCount_keeps [keeps]: "preserves P OpenIssuesCount"
  and OldestOpenIssueAge_keeps [keeps]: "preserves P OldestOpenIssueAge"
  and GetUserByEmail_keeps [keeps]: "preserves P (GetUserByEmail s)"
  and GetSession_keeps [keeps]: "preserves P (GetSession i)"
  and CountUsers_keeps [keeps]: "preserves P CountUsers"
  and Ping_keeps [keeps]: "preserves P Ping"
  by (simp_all add: ListConnections_def GetConnection_def GetConnectionByInboundPath_def
      ListDeliveriesForConnection_def ListIssues_def GetIssue_def OpenIssuesCount_def
      OldestOpenIssueAge_def GetUserByEmail_def GetSession_def CountUsers_def Ping_def preserves_select)

lemma scan_query_keeps: "preserves P q \<Longrightarrow> preserves P (scan_query enc q)"
  by (auto simp: scan_query_def intro!: preservesI split: prod.splits sum.splits dest: preserves_step)

lemma GetEvent_keeps [keeps]: "preserves P (GetEvent enc i)"
  and GetEventByProviderID_keeps [keeps]: "preserves P (GetEventByProviderID enc i s)"
  by (simp_all add: GetEvent_def GetEventByProviderID_def scan_query_keeps preserves_select)

lemma CreateConnection_keeps [keeps]: "preserves app_inv (CreateConnection c)"
  unfolding CreateConnection_def
  by (rule preserves_pool)
     (auto simp: Let_def split_beta intro: app_inv_insert_connection split: option.splits)

lemma update_connection_stmt_keeps [keeps]: "preserves app_inv (update_connection_stmt i c)"
  unfolding update_connection_stmt_def
  by (rule preserves_pool)
     (auto simp: Let_def intro!: app_inv_update_connection split: option.splits)

lemma UpdateConnection_keeps [keeps]: "preserves app_inv (UpdateConnection i n u a f b r)"
  by (rule preservesI)
     (auto simp: UpdateConnection_def Let_def split: prod.splits sum.splits option.splits
       dest: preserves_step [OF GetConnection_keeps] preserves_step [OF update_connection_stmt_keeps])

lemma UpdateConnectionSecret_keeps [keeps]: "preserves app_inv (UpdateConnectionSecret i s)"
proof -
  have "list_all connection_check (update_by conn_id i (\<lambda>r. r\<lparr>conn_signing_secret_enc := s\<rparr>) (connections t))"
    if "app_inv t" for t
    using that unfolding list_all_iff
    by (intro ball_update_by) (auto simp: app_inv_def wf_connections_def wf_tables_def connection_check_def)
  then show ?thesis
    unfolding UpdateConnectionSecret_def
    by (intro preserves_pool) (auto intro!: app_inv_update_connection)
qed

lemma insert_event_stmt_keeps [keeps]: "preserves app_inv (insert_event_stmt c s h p)"
  unfolding insert_event_stmt_def
  by (rule preserves_pool) (auto simp: Let_def split_beta event_key_def intro!: app_inv_insert_event)

lemma InsertEvent_keeps [keeps]: "preserves app_inv (InsertEvent enc rs e)"
  by (rule preservesI)
     (auto simp: InsertEvent_def split: prod.splits sum.splits
       dest: preserves_step [OF insert_event_stmt_keeps] preserves_step [OF GetEventByProviderID_keeps])

lemma SetEventWorkflowID_keeps [keeps]: "preserves app_inv (SetEventWorkflowID i w)"
  unfolding SetEventWorkflowID_def
  by (rule preserves_pool) (auto intro!: app_inv_update_event simp: event_key_def)

lemma encrypt_row_stmt_keeps [keeps]: "preserves app_inv (encrypt_row_stmt i h p)"
  unfolding encrypt_row_stmt_def
  by (rule preserves_pool) (auto intro!: app_inv_update_event simp: event_key_def)

lemma backfill_rows_keeps [keeps]: "preserves app_inv (backfill_rows e rs k rows n)"
proof (rule preservesI)
  fix d :: db assume "app_inv (tbl d)"
  then show "app_inv (tbl (snd (backfill_rows e rs k rows n d)))"
  proof (induction e rs k rows n d rule: backfill_rows.induct)
    case (2 e rs k i h p rows count d)
    then show ?case
      by (auto split: sum.splits prod.splits dest: preserves_step [OF encrypt_row_stmt_keeps])
  qed simp
qed

lemma BackfillPayloadEncryption_keeps [keeps]: "preserves app_inv (BackfillPayloadEncryption enc rs)"
  by (rule preservesI)
     (auto simp: BackfillPayloadEncryption_def split: prod.splits sum.splits option.splits
       intro: preservesD [OF backfill_rows_keeps] dest: preserves_step [OF preserves_select])

lemma PurgeExpiredEvents_keeps [keeps]: "preserves app_inv PurgeExpiredEvents"
  unfolding PurgeExpiredEvents_def
  by (rule preserves_pool) (auto intro: app_inv_delete_events)

lemma RecordDelivery_keeps [keeps]: "preserves app_inv (RecordDelivery r)"
  unfolding RecordDelivery_def
  by (rule preserves_pool) (auto simp: Let_def split_beta intro!: app_inv_insert_delivery)

lemma ResolveIssueByEventID_keeps [keeps]: "preserves app_inv (ResolveIssueByEventID i)"
  unfolding ResolveIssueByEventID_def
  by (rule preserves_pool)
     (auto intro!: app_inv_update_issues simp: issue_row_ok_def issue_check_def)

lemma ResolveIssue_keeps [keeps]: "preserves app_inv (ResolveIssue i u)"
  unfolding ResolveIssue_def
  by (rule preserves_pool)
     (auto intro!: app_inv_update_issues simp: issue_row_ok_def issue_check_def)

lemma CreateUser_keeps [keeps]: "preserves app_inv (CreateUser u)"
  unfolding CreateUser_def
  by (rule preserves_pool) (auto simp: Let_def split_beta intro!: app_inv_insert_user)

lemma CreateSession_keeps [keeps]: "preserves app_inv (CreateSession s)"
  unfolding CreateSession_def
  by (rule preserves_pool) (auto simp: Let_def split_beta intro!: app_inv_insert_session)

lemma DeleteSession_keeps [keeps]: "preserves app_inv (DeleteSession i)"
  unfolding DeleteSession_def
  by (rule preserves_pool) (auto intro!: app_inv_delete_sessions)

text \<open>
  Recording an issue keeps the invariant when the caller passes the connection of the event, as
  both callers in \<^verbatim>\<open>workflow/delivery.go\<close> do.
\<close>

lemma merge_issue_ok:
  "issue_row_ok t old \<Longrightarrow> text_ok (iss_reason n) \<Longrightarrow> int4 (iss_attempts_exhausted n) \<Longrightarrow>
   issue_row_ok t (merge_issue n old)"
  by (auto simp: issue_row_ok_def merge_issue_def issue_check_def max_def)

lemma merge_issue_ids [simp]:
  "iss_id (merge_issue n old) = iss_id old" "iss_event_id (merge_issue n old) = iss_event_id old"
  "iss_connection_id (merge_issue n old) = iss_connection_id old"
  "iss_first_failed_at (merge_issue n old) = iss_first_failed_at old"
  "iss_status (merge_issue n old) = ''open''" "iss_resolved_at (merge_issue n old) = None"
  "iss_resolved_by (merge_issue n old) = iss_resolved_by old"
  by (simp_all add: merge_issue_def)

lemma app_inv_merge_issue:
  assumes "app_inv t" and "text_ok (iss_reason n)" and "int4 (iss_attempts_exhausted n)"
  shows "app_inv (t\<lparr>issues := update_by iss_event_id k (merge_issue n) (issues t)\<rparr>)"
  using assms by (intro app_inv_update_issues) (simp_all add: merge_issue_ok merge_issue_ids)

lemma RecordIssue_store_keeps:
  assumes "app_inv (tbl d)"
    and "\<And>e. e \<in> set (events (tbl d)) \<Longrightarrow> erow_id e = iss_event_id n \<Longrightarrow>
             erow_connection_id e = iss_connection_id n"
  shows "app_inv (tbl (snd (RecordIssue_store n d)))"
proof -
  let ?P = "\<lambda>t. app_inv t \<and> (\<forall>e \<in> set (events t). erow_id e = iss_event_id n \<longrightarrow>
                erow_connection_id e = iss_connection_id n)"
  have step: "?P (tbl (snd (record_issue_stmt n d)))" if "?P (tbl d)" for d
    using that
    by (auto simp: record_issue_stmt_def Let_def split_beta issue_check_def find_by_None_iff
        issue_row_ok_def intro!: app_inv_merge_issue app_inv_insert_issue split: option.splits)
  have "?P (tbl (snd (RecordIssue_store n d)))"
    unfolding RecordIssue_store_def
    by (rule pool_keeps [where P = ?P]) (use assms step in blast)+
  then show ?thesis by blast
qed

end
