(* ===== verification/Metrics.thy ===== *)
theory Metrics
  imports Prelude
begin

text \<open>
  \<^verbatim>\<open>internal/metrics/metrics.go\<close>: the Prometheus collectors of the process, as far as the code
  writes them.  A counter vector is a count per label tuple, the histogram is the list of its
  observations, the gauge a number.  The connection label is the connection's identifier.
\<close>

record metrics =
  ingestion_total :: "uuid \<Rightarrow> string \<Rightarrow> nat"
  delivery_latency :: "(uuid \<times> string \<times> int) list"
  dlq_depth :: int
  connection_errors :: "uuid \<Rightarrow> nat"

definition new_metrics :: metrics where
  "new_metrics =
     \<lparr>ingestion_total = (\<lambda>_ _. 0), delivery_latency = [], dlq_depth = 0, connection_errors = (\<lambda>_. 0)\<rparr>"

definition IngestionTotal_Inc :: "uuid \<Rightarrow> string \<Rightarrow> metrics \<Rightarrow> metrics" where
  "IngestionTotal_Inc c outcome m =
     m\<lparr>ingestion_total := (ingestion_total m)(c := (ingestion_total m c)(outcome := Suc (ingestion_total m c outcome)))\<rparr>"

definition DeliveryLatency_Observe :: "uuid \<Rightarrow> string \<Rightarrow> int \<Rightarrow> metrics \<Rightarrow> metrics" where
  "DeliveryLatency_Observe c status ms m = m\<lparr>delivery_latency := delivery_latency m @ [(c, status, ms)]\<rparr>"

definition ConnectionErrors_Inc :: "uuid \<Rightarrow> metrics \<Rightarrow> metrics" where
  "ConnectionErrors_Inc c m = m\<lparr>connection_errors := (connection_errors m)(c := Suc (connection_errors m c))\<rparr>"

definition SetDLQDepth :: "int \<Rightarrow> metrics \<Rightarrow> metrics" where
  "SetDLQDepth n m = m\<lparr>dlq_depth := n\<rparr>"

end
