(* ===== verification/HttpClient.thy ===== *)
theory HttpClient
  imports Prelude
begin

text \<open>
  The \<^verbatim>\<open>http.Client\<close> that the worker makes in \<^verbatim>\<open>cmd/tuma/main.go\<close>, with a timeout and nothing else: it
  follows redirects as \<^verbatim>\<open>net/http\<close> does by default.  After a 301, 302 or 303 it goes on with a GET
  that has no body, after a 307 or 308 it sends the same request again, at most ten requests in
  all.  The network is a parameter, and so are the functions of \<^verbatim>\<open>net/url\<close> and the texts of errors.
\<close>

section \<open>Calls\<close>

record out_request =
  req_method :: string
  req_url :: string
  req_headers :: "(string \<times> string) list"
  req_body :: bytes

text \<open>What a request gets: an error, or a status code and the \<^verbatim>\<open>Location\<close> header (empty if there is none).\<close>

datatype http_answer = SendError string | Response int string

datatype do_reply = DoError string | Status int

text \<open>A call of \<^verbatim>\<open>Do\<close>: the requests it sent with the answers they got, and what it returned.\<close>

record http_call =
  call_hops :: "(out_request \<times> http_answer) list"
  call_reply :: do_reply

text \<open>
  The network during a call: the answer to the \<open>k\<close>-th request, the URL a location resolves to, the
  \<^verbatim>\<open>Referer\<close> that is sent along, and the text of a \<^verbatim>\<open>url.Error\<close>.
\<close>

record http_net =
  hn_answer :: "nat \<Rightarrow> out_request \<Rightarrow> http_answer"
  hn_resolve :: "string \<Rightarrow> string \<Rightarrow> string option"
  hn_referer :: "string \<Rightarrow> string \<Rightarrow> string"
  hn_error :: "string \<Rightarrow> string \<Rightarrow> string"

text \<open>The method of the next request, and whether it keeps the body.\<close>

definition redirectBehavior :: "string \<Rightarrow> int \<Rightarrow> (string \<times> bool) option" where
  "redirectBehavior reqMethod code =
     (if code \<in> {301, 302, 303} then Some (if reqMethod \<noteq> ''GET'' \<and> reqMethod \<noteq> ''HEAD'' then ''GET'' else reqMethod, False)
      else if code \<in> {307, 308} then Some (reqMethod, True)
      else None)"

definition body_headers :: "string list" where
  "body_headers = [''Content-Encoding'', ''Content-Language'', ''Content-Location'', ''Content-Type'']"

definition redirect_request :: "http_net \<Rightarrow> out_request \<Rightarrow> out_request \<Rightarrow> string \<Rightarrow> string \<Rightarrow> bool \<Rightarrow> out_request" where
  "redirect_request N ireq req meth u includeBody =
     \<lparr>req_method = meth, req_url = u,
      req_headers = filter (\<lambda>(k, _). includeBody \<or> k \<notin> set body_headers) (req_headers ireq)
        @ (if hn_referer N (req_url req) u = [] then [] else [(''Referer'', hn_referer N (req_url req) u)]),
      req_body = (if includeBody then req_body ireq else [])\<rparr>"

text \<open>The loop of \<^verbatim>\<open>Client.do\<close>; once a request was sent without the body, the body is not sent again.\<close>

function follow :: "http_net \<Rightarrow> out_request \<Rightarrow> bool \<Rightarrow> out_request \<Rightarrow> (out_request \<times> http_answer) list \<Rightarrow> http_call" where
  "follow N ireq includeBody req reqs =
     (let a = hn_answer N (length reqs) req; hops = reqs @ [(req, a)]
      in case a of
           SendError msg \<Rightarrow> \<lparr>call_hops = hops, call_reply = DoError msg\<rparr>
         | Response code loc \<Rightarrow>
             (case redirectBehavior (req_method req) code of
                None \<Rightarrow> \<lparr>call_hops = hops, call_reply = Status code\<rparr>
              | Some (meth, keep) \<Rightarrow>
                  if loc = [] then \<lparr>call_hops = hops, call_reply = Status code\<rparr>
                  else (case hn_resolve N (req_url req) loc of
                          None \<Rightarrow> \<lparr>call_hops = hops, call_reply = DoError (hn_error N (req_url req) ''failed to parse Location header'')\<rparr>
                        | Some u \<Rightarrow>
                            if 10 \<le> length hops
                            then \<lparr>call_hops = hops, call_reply = DoError (hn_error N loc ''stopped after 10 redirects'')\<rparr>
                            else follow N ireq (includeBody \<and> keep) (redirect_request N ireq req meth u (includeBody \<and> keep)) hops)))"
  by pat_completeness auto
termination
  by (relation "measure (\<lambda>(N, ireq, includeBody, req, reqs). 10 - length reqs)") auto

declare follow.simps [simp del]

definition client_Do :: "http_net \<Rightarrow> out_request \<Rightarrow> http_call" where
  "client_Do N req = follow N req True req []"

section \<open>What a call has sent\<close>

definition redirected :: "http_net \<Rightarrow> out_request \<times> http_answer \<Rightarrow> out_request \<Rightarrow> bool" where
  "redirected N h r \<longleftrightarrow>
     (\<exists>code loc meth keep. snd h = Response code loc \<and> redirectBehavior (req_method (fst h)) code = Some (meth, keep)
        \<and> hn_resolve N (req_url (fst h)) loc = Some (req_url r) \<and> req_method r = meth)"

text \<open>Each request after the first goes where the answer to the one before it leads.\<close>

fun chain :: "http_net \<Rightarrow> (out_request \<times> http_answer) list \<Rightarrow> bool" where
  "chain N (h # h' # hs) \<longleftrightarrow> redirected N h (fst h') \<and> chain N (h' # hs)"
| "chain N _ \<longleftrightarrow> True"

text \<open>An answer that turns a POST into a GET.\<close>

definition drops_body :: "http_answer \<Rightarrow> bool" where
  "drops_body a \<longleftrightarrow> (\<exists>code loc. a = Response code loc \<and> code \<in> {301, 302, 303})"

text \<open>
  A request of a call: the POST again, or a GET without a body after an answer that dropped it;
  the headers that do not describe the body are those of the first request.
\<close>

definition hop_ok :: "out_request \<Rightarrow> (out_request \<times> http_answer) list \<Rightarrow> out_request \<Rightarrow> bool" where
  "hop_ok ireq reqs r \<longleftrightarrow>
     (req_method r = ''POST'' \<and> req_body r = req_body ireq
      \<or> req_method r = ''GET'' \<and> req_body r = [] \<and> (\<exists>h \<in> set reqs. drops_body (snd h)))
     \<and> (\<forall>k v. (k, v) \<in> set (req_headers ireq) \<longrightarrow> k \<notin> set body_headers \<longrightarrow> (k, v) \<in> set (req_headers r))"

definition call_ok :: "http_net \<Rightarrow> out_request \<Rightarrow> http_call \<Rightarrow> bool" where
  "call_ok N ireq c \<longleftrightarrow>
     call_hops c \<noteq> [] \<and> fst (hd (call_hops c)) = ireq \<and> length (call_hops c) \<le> 10 \<and> chain N (call_hops c)
     \<and> (\<forall>h \<in> set (call_hops c). hop_ok ireq (call_hops c) (fst h))
     \<and> (\<forall>code. call_reply c = Status code \<longrightarrow> (\<exists>loc. snd (last (call_hops c)) = Response code loc))"

lemma chain_snoc: "chain N (hs @ [h]) \<longleftrightarrow> chain N hs \<and> (hs \<noteq> [] \<longrightarrow> redirected N (last hs) (fst h))"
proof (induction hs)
  case (Cons h1 hs)
  then show ?case by (cases hs) auto
qed simp

lemma hop_ok_mono: "hop_ok ireq reqs r \<Longrightarrow> set reqs \<subseteq> set reqs' \<Longrightarrow> hop_ok ireq reqs' r"
  by (auto simp: hop_ok_def)

definition follows :: "http_net \<Rightarrow> out_request \<Rightarrow> bool \<Rightarrow> out_request \<Rightarrow> (out_request \<times> http_answer) list \<Rightarrow> bool" where
  "follows N ireq includeBody req reqs \<longleftrightarrow>
     length reqs < 10 \<and> (if reqs = [] then req = ireq else fst (hd reqs) = ireq \<and> redirected N (last reqs) req)
     \<and> chain N reqs \<and> (\<forall>h \<in> set reqs. hop_ok ireq reqs (fst h)) \<and> hop_ok ireq reqs req
     \<and> req_method req = (if includeBody then ''POST'' else ''GET'') \<and> (includeBody \<or> (\<exists>h \<in> set reqs. drops_body (snd h)))"

lemma follows_sent:
  assumes "follows N ireq b req reqs"
  shows "reqs @ [(req, a)] \<noteq> []" "fst (hd (reqs @ [(req, a)])) = ireq" "length (reqs @ [(req, a)]) \<le> 10"
    "chain N (reqs @ [(req, a)])" "\<forall>h \<in> set (reqs @ [(req, a)]). hop_ok ireq (reqs @ [(req, a)]) (fst h)"
  using assms by (auto simp: follows_def chain_snoc hd_append split: if_splits intro: hop_ok_mono)

lemma follows_next:
  assumes f: "follows N ireq b req reqs" and r: "redirectBehavior (req_method req) code = Some (meth, keep)"
    and u: "hn_resolve N (req_url req) loc = Some u" and l: "length (reqs @ [(req, Response code loc)]) < 10"
  shows "follows N ireq (b \<and> keep) (redirect_request N ireq req meth u (b \<and> keep)) (reqs @ [(req, Response code loc)])"
proof -
  let ?r = "redirect_request N ireq req meth u (b \<and> keep)" and ?h = "reqs @ [(req, Response code loc)]"
  note s = follows_sent [OF f, of "Response code loc"]
  have red: "redirected N (last ?h) ?r" using r u by (simp add: redirected_def redirect_request_def)
  have m: "req_method req = (if b then ''POST'' else ''GET'')" using f by (simp add: follows_def)
  then have meth: "meth = (if b \<and> keep then ''POST'' else ''GET'')"
    using r by (auto simp: redirectBehavior_def split: if_splits)
  have drop: "(b \<and> keep) \<or> (\<exists>h \<in> set ?h. drops_body (snd h))"
    using f r by (auto simp: follows_def redirectBehavior_def drops_body_def split: if_splits)
  have "hop_ok ireq ?h ?r"
    using drop meth by (auto simp: hop_ok_def redirect_request_def)
  with s red l meth drop show ?thesis by (simp add: follows_def redirect_request_def)
qed

lemma follow_ok: "follows N ireq b req reqs \<Longrightarrow> call_ok N ireq (follow N ireq b req reqs)"
proof (induction N ireq b req reqs rule: follow.induct)
  case (1 N ireq b req reqs)
  note s = follows_sent [OF 1(2)]
  show ?case
  proof (cases "hn_answer N (length reqs) req")
    case (SendError msg)
    with s [of "SendError msg"] show ?thesis by (subst follow.simps) (simp add: call_ok_def)
  next
    case (Response code loc)
    let ?h = "reqs @ [(req, Response code loc)]"
    have fin: "call_ok N ireq \<lparr>call_hops = ?h, call_reply = Status code\<rparr>" "call_ok N ireq \<lparr>call_hops = ?h, call_reply = DoError m\<rparr>" for m
      using s [of "Response code loc"] by (simp_all add: call_ok_def)
    show ?thesis
    proof (cases "redirectBehavior (req_method req) code = None \<or> loc = [] \<or> hn_resolve N (req_url req) loc = None \<or> 10 \<le> length ?h")
      case True
      with fin Response show ?thesis by (subst follow.simps) (auto simp: Let_def split: option.splits prod.splits)
    next
      case False
      then obtain meth keep u where n: "redirectBehavior (req_method req) code = Some (meth, keep)" "loc \<noteq> []"
        "hn_resolve N (req_url req) loc = Some u" "length ?h < 10" by force
      have "call_ok N ireq (follow N ireq (b \<and> keep) (redirect_request N ireq req meth u (b \<and> keep)) ?h)"
        using 1(1) [OF Response [symmetric] refl refl n(1) refl n(2,3)] follows_next [OF 1(2) n(1,3,4)] n(4) by simp
      with n Response show ?thesis by (subst follow.simps) (simp add: Let_def)
    qed
  qed
qed

lemma client_Do_ok: "req_method req = ''POST'' \<Longrightarrow> call_ok N req (client_Do N req)"
  unfolding client_Do_def by (rule follow_ok) (simp add: follows_def hop_ok_def)

text \<open>Without an answer that drops the body every request of a call is the POST.\<close>

lemma call_ok_posts:
  assumes "call_ok N req c" "\<forall>h \<in> set (call_hops c). \<not> drops_body (snd h)" "h \<in> set (call_hops c)"
  shows "req_method (fst h) = ''POST'' \<and> req_body (fst h) = req_body req"
  using assms by (auto simp: call_ok_def hop_ok_def)

end
