(* ===== verification/Delivery.thy ===== *)
theory Delivery
  imports StoreInv Metrics HttpClient
begin

text \<open>
  \<^verbatim>\<open>internal/workflow/delivery.go\<close>: the per-connection semaphores, the four activities and the
  workflow that retries a delivery.  Temporal runs the workflow and is a parameter: it decides
  the fate of each activity.  The network is a parameter too: what it answers during the
  \<open>n\<close>-th call of the HTTP client.
\<close>

section \<open>Semaphores\<close>

text \<open>
  A pool is a channel with \<open>limit\<close> slots, made at the first use of a connection; \<open>sem_held\<close> is
  how many slots are taken.  A negative limit makes \<^verbatim>\<open>make(chan ...)\<close> panic.
\<close>

record sems =
  sem_limit :: int
  sem_held :: "uuid \<Rightarrow> nat option"

datatype acquired = Acquired sems | Blocks sems | Panics

definition NewConnectionSemaphores :: "int \<Rightarrow> sems" where
  "NewConnectionSemaphores limit = \<lparr>sem_limit = limit, sem_held = (\<lambda>_. None)\<rparr>"

definition acquire :: "uuid \<Rightarrow> sems \<Rightarrow> acquired" where
  "acquire connID cs =
     (case sem_held cs connID of
        None \<Rightarrow>
          if sem_limit cs < 0 then Panics
          else if 0 < sem_limit cs then Acquired (cs\<lparr>sem_held := (sem_held cs)(connID \<mapsto> 1)\<rparr>)
          else Blocks (cs\<lparr>sem_held := (sem_held cs)(connID \<mapsto> 0)\<rparr>)
      | Some n \<Rightarrow>
          if int n < sem_limit cs then Acquired (cs\<lparr>sem_held := (sem_held cs)(connID \<mapsto> Suc n)\<rparr>)
          else Blocks cs)"

text \<open>The function \<^verbatim>\<open>acquire\<close> returns: it takes one element out of the channel.\<close>

definition release :: "uuid \<Rightarrow> sems \<Rightarrow> sems" where
  "release connID cs =
     (case sem_held cs connID of
        Some (Suc n) \<Rightarrow> cs\<lparr>sem_held := (sem_held cs)(connID \<mapsto> n)\<rparr>
      | _ \<Rightarrow> cs)"

section \<open>The worker and its environment\<close>

record DeliverResult =
  dr_success :: bool
  dr_response_code :: int
  dr_latency_ms :: int
  dr_error :: string
  dr_delivery_id :: uuid

datatype act_fate = Runs | LostBefore string | LostAfter string

text \<open>
  The environment: the store's payload key, the text form of UUIDs, the UUIDs that \<^verbatim>\<open>uuid.New\<close>
  returns, the error of \<^verbatim>\<open>http.NewRequest\<close> for a URL, the network during the \<open>n\<close>-th call of \<^verbatim>\<open>Do\<close> and
  the milliseconds it takes, the fate of the \<open>n\<close>-th activity (it runs; it is lost before it runs; it runs and its result
  is lost), the wall clock during it, and the value of out-of-range float conversions.
\<close>

record env =
  payload_enc :: "encryptor option"
  uuid_str :: "uuid \<Rightarrow> string"
  new_uuid :: "nat \<Rightarrow> uuid"
  new_request_err :: "string \<Rightarrow> string option"
  net :: "nat \<Rightarrow> http_net"
  took_ms :: "nat \<Rightarrow> int"
  fate :: "nat \<Rightarrow> act_fate"
  clock :: "nat \<Rightarrow> time"
  oor :: "float64 \<Rightarrow> int"

record worker =
  w_db :: db
  w_metrics :: metrics
  w_sems :: sems
  w_sent :: "http_call list"
  w_sleeps :: "int list"
  w_uuids :: nat
  w_acts :: nat

section \<open>Activities\<close>

record event_meta =
  meta_retry_attempts :: int
  meta_retry_first_delay_s :: int
  meta_retry_backoff_factor :: float64

definition LoadEventMeta :: "env \<Rightarrow> uuid \<Rightarrow> worker \<Rightarrow> event_meta result \<times> worker" where
  "LoadEventMeta E eventID w =
     (case GetEvent (payload_enc E) eventID (w_db w) of
        (Inr (Some event), d1) \<Rightarrow>
          (case GetConnection (ev_connection_id event) d1 of
             (Inr (Some conn), d2) \<Rightarrow>
               (Inr \<lparr>meta_retry_attempts = conn_retry_attempts conn,
                     meta_retry_first_delay_s = conn_retry_first_delay_s conn,
                     meta_retry_backoff_factor = conn_retry_backoff_factor conn\<rparr>, w\<lparr>w_db := d2\<rparr>)
           | (_, d2) \<Rightarrow> (Inl (ErrText ''connection not found''), w\<lparr>w_db := d2\<rparr>))
      | (_, d1) \<Rightarrow> (Inl (ErrText ''event not found''), w\<lparr>w_db := d1\<rparr>))"

definition new_issue :: "uuid \<Rightarrow> uuid \<Rightarrow> string \<Rightarrow> int \<Rightarrow> time \<Rightarrow> issue_row" where
  "new_issue eventID connID reason attempts failedAt =
     \<lparr>iss_id = 0, iss_event_id = eventID, iss_connection_id = connID, iss_reason = reason,
      iss_attempts_exhausted = attempts, iss_first_failed_at = failedAt, iss_status = [],
      iss_resolved_at = None, iss_resolved_by = None\<rparr>"

text \<open>A failing attempt opens an issue at once; an error of the store is only logged.\<close>

definition noteOpenIssue :: "env \<Rightarrow> Event \<Rightarrow> int \<Rightarrow> string \<Rightarrow> worker \<Rightarrow> worker" where
  "noteOpenIssue E event attempt reason w =
     w\<lparr>w_db := snd (RecordIssue_store
         (new_issue (ev_id event) (ev_connection_id event) reason attempt (clock E (w_acts w))) (w_db w))\<rparr>"

definition record_delivery_ignored :: "uuid \<Rightarrow> int \<Rightarrow> string \<Rightarrow> int option \<Rightarrow> int \<Rightarrow> worker \<Rightarrow> worker" where
  "record_delivery_ignored eventID attempt status code latency w =
     w\<lparr>w_db := snd (RecordDelivery
         \<lparr>del_id = 0, del_event_id = eventID, del_attempt_number = attempt, del_status = status,
          del_response_code = code, del_latency_ms = Some latency, del_attempted_at = 0\<rparr> (w_db w))\<rparr>"

definition delivery_request :: "env \<Rightarrow> Event \<Rightarrow> Connection \<Rightarrow> int \<Rightarrow> uuid \<Rightarrow> out_request" where
  "delivery_request E event conn attempt deliveryID =
     \<lparr>req_method = ''POST'', req_url = conn_destination_url conn,
      req_headers =
        [(''Content-Type'', ''application/json''),
         (''X-Tuma-Delivery-Id'', uuid_str E deliveryID),
         (''X-Tuma-Event-Id'', ev_provider_event_id event),
         (''X-Tuma-Attempt'', itoa attempt)],
      req_body = ev_raw_payload event\<rparr>"

definition success_code :: "int \<Rightarrow> bool" where
  "success_code code \<longleftrightarrow> 200 \<le> code \<and> code < 300"

text \<open>\<^verbatim>\<open>DeliverActivity\<close> from the draw of the delivery id on, with the semaphore held.\<close>

definition deliver_locked ::
  "env \<Rightarrow> uuid \<Rightarrow> Event \<Rightarrow> Connection \<Rightarrow> int \<Rightarrow> worker \<Rightarrow> DeliverResult \<times> worker" where
  "deliver_locked E eventID event conn attempt w0 =
     (let deliveryID = new_uuid E (w_uuids w0); w = w0\<lparr>w_uuids := Suc (w_uuids w0)\<rparr>
      in case new_request_err E (conn_destination_url conn) of
           Some msg \<Rightarrow>
             (\<lparr>dr_success = False, dr_response_code = 0, dr_latency_ms = 0, dr_error = msg,
               dr_delivery_id = deliveryID\<rparr>, w)
         | None \<Rightarrow>
             (let req = delivery_request E event conn attempt deliveryID;
                  call = client_Do (net E (length (w_sent w))) req;
                  latency = took_ms E (length (w_sent w));
                  w1 = w\<lparr>w_sent := w_sent w @ [call]\<rparr>
              in case call_reply call of
                   DoError msg \<Rightarrow>
                     (let w2 = w1\<lparr>w_metrics := DeliveryLatency_Observe (conn_id conn) ''failed'' latency
                                   (ConnectionErrors_Inc (conn_id conn) (w_metrics w1))\<rparr>;
                          w3 = record_delivery_ignored eventID attempt ''failed'' None latency w2;
                          w4 = noteOpenIssue E event attempt (''delivery failed: '' @ msg) w3
                      in (\<lparr>dr_success = False, dr_response_code = 0, dr_latency_ms = latency,
                           dr_error = msg, dr_delivery_id = deliveryID\<rparr>, w4))
                 | Status code \<Rightarrow>
                     (let success = success_code code;
                          status = (if success then ''delivered'' else ''failed'');
                          m1 = (if success then w_metrics w1
                                else ConnectionErrors_Inc (conn_id conn) (w_metrics w1));
                          w2 = w1\<lparr>w_metrics := DeliveryLatency_Observe (conn_id conn) status latency m1\<rparr>;
                          w3 = record_delivery_ignored eventID attempt status (Some code) latency w2
                      in if success
                         then (\<lparr>dr_success = True, dr_response_code = code, dr_latency_ms = latency,
                                dr_error = [], dr_delivery_id = deliveryID\<rparr>, w3)
                         else (let reason = ''destination returned '' @ itoa code;
                                   w4 = noteOpenIssue E event attempt reason w3
                               in (\<lparr>dr_success = False, dr_response_code = code, dr_latency_ms = latency,
                                    dr_error = reason, dr_delivery_id = deliveryID\<rparr>, w4)))))"

text \<open>
  The whole activity.  Where no slot is free the send on the channel waits; the activity's
  start-to-close timeout of 30 seconds then fails it, unless a slot is released first, which
  is the case of a state with a free slot.
\<close>

definition DeliverActivity :: "env \<Rightarrow> uuid \<Rightarrow> int \<Rightarrow> worker \<Rightarrow> DeliverResult result \<times> worker" where
  "DeliverActivity E eventID attempt w =
     (case GetEvent (payload_enc E) eventID (w_db w) of
        (Inr (Some event), d1) \<Rightarrow>
          (case GetConnection (ev_connection_id event) d1 of
             (Inr (Some conn), d2) \<Rightarrow>
               (case acquire (conn_id conn) (w_sems w) of
                  Panics \<Rightarrow> (Inl (ErrText ''panic: makechan: size out of range''), w\<lparr>w_db := d2\<rparr>)
                | Blocks s \<Rightarrow> (Inl (ErrText ''activity StartToClose timeout''), w\<lparr>w_db := d2, w_sems := s\<rparr>)
                | Acquired s \<Rightarrow>
                    (let (r, w') = deliver_locked E eventID event conn attempt (w\<lparr>w_db := d2, w_sems := s\<rparr>)
                     in (Inr r, w'\<lparr>w_sems := release (conn_id conn) (w_sems w')\<rparr>)))
           | (_, d2) \<Rightarrow> (Inl (ErrText ''connection not found''), w\<lparr>w_db := d2\<rparr>))
      | (_, d1) \<Rightarrow> (Inl (ErrText ''event not found''), w\<lparr>w_db := d1\<rparr>))"

text \<open>Both recording activities refresh the gauge of open issues when the count succeeds.\<close>

definition refresh_dlq :: "worker \<Rightarrow> worker" where
  "refresh_dlq w =
     (case OpenIssuesCount (w_db w) of
        (Inr n, d) \<Rightarrow> w\<lparr>w_db := d, w_metrics := SetDLQDepth (int n) (w_metrics w)\<rparr>
      | (Inl _, d) \<Rightarrow> w\<lparr>w_db := d\<rparr>)"

definition RecordDelivered :: "uuid \<Rightarrow> worker \<Rightarrow> unit result \<times> worker" where
  "RecordDelivered eventID w =
     (case ResolveIssueByEventID eventID (w_db w) of
        (Inl e, d) \<Rightarrow> (Inl e, w\<lparr>w_db := d\<rparr>)
      | (Inr _, d) \<Rightarrow> (Inr (), refresh_dlq (w\<lparr>w_db := d\<rparr>)))"

definition RecordIssue :: "env \<Rightarrow> uuid \<Rightarrow> int \<Rightarrow> worker \<Rightarrow> unit result \<times> worker" where
  "RecordIssue E eventID attempts w =
     (case GetEvent (payload_enc E) eventID (w_db w) of
        (Inr (Some event), d1) \<Rightarrow>
          (case RecordIssue_store (new_issue eventID (ev_connection_id event)
                  ''Delivery attempts exhausted'' attempts (clock E (w_acts w))) d1 of
             (Inl e, d2) \<Rightarrow> (Inl e, w\<lparr>w_db := d2\<rparr>)
           | (Inr _, d2) \<Rightarrow> (Inr (), refresh_dlq (w\<lparr>w_db := d2\<rparr>)))
      | (_, d1) \<Rightarrow> (Inl (ErrText ''event not found''), w\<lparr>w_db := d1\<rparr>))"

section \<open>The workflow\<close>

text \<open>
  \<^verbatim>\<open>workflow.ExecuteActivity(...).Get(...)\<close> with at most one attempt per activity.
\<close>

definition ExecuteActivity :: "env \<Rightarrow> (worker \<Rightarrow> 'a result \<times> worker) \<Rightarrow> worker \<Rightarrow> 'a result \<times> worker" where
  "ExecuteActivity E act w0 =
     (let w = w0\<lparr>w_acts := Suc (w_acts w0)\<rparr>
      in case fate E (w_acts w0) of
           Runs \<Rightarrow> act w
         | LostBefore m \<Rightarrow> (Inl (ErrText m), w)
         | LostAfter m \<Rightarrow> (Inl (ErrText m), snd (act w)))"

definition backoff :: "(float64 \<Rightarrow> int) \<Rightarrow> int \<Rightarrow> float64 \<Rightarrow> int \<Rightarrow> int" where
  "backoff conv firstDelayS factor attempt =
     (let delay = ((\<lambda>x. fmul x factor) ^^ nat (attempt - 1)) (float_of_int firstDelayS)
      in wrap64 (int64_of_float conv delay * Second))"

function delivery_loop :: "env \<Rightarrow> uuid \<Rightarrow> event_meta \<Rightarrow> int \<Rightarrow> worker \<Rightarrow> unit result \<times> worker" where
  "delivery_loop E eventID meta attempt w =
     (if attempt \<le> meta_retry_attempts meta then
        (case ExecuteActivity E (DeliverActivity E eventID attempt) w of
           (Inl e, w1) \<Rightarrow> (Inl e, w1)
         | (Inr result, w1) \<Rightarrow>
             if dr_success result then ExecuteActivity E (RecordDelivered eventID) w1
             else delivery_loop E eventID meta (attempt + 1)
                    (if attempt < meta_retry_attempts meta
                     then w1\<lparr>w_sleeps := w_sleeps w1 @
                       [backoff (oor E) (meta_retry_first_delay_s meta) (meta_retry_backoff_factor meta) attempt]\<rparr>
                     else w1))
      else ExecuteActivity E (RecordIssue E eventID (meta_retry_attempts meta)) w)"
  by pat_completeness auto
termination
  by (relation "measure (\<lambda>(E, eventID, meta, attempt, w). nat (meta_retry_attempts meta + 1 - attempt))") auto

declare delivery_loop.simps [simp del]

definition DeliveryWorkflow :: "env \<Rightarrow> uuid \<Rightarrow> worker \<Rightarrow> unit result \<times> worker" where
  "DeliveryWorkflow E eventID w =
     (case ExecuteActivity E (LoadEventMeta E eventID) w of
        (Inl e, w1) \<Rightarrow> (Inl e, w1)
      | (Inr meta, w1) \<Rightarrow> delivery_loop E eventID meta 1 w1)"

definition WorkflowID :: "(uuid \<Rightarrow> string) \<Rightarrow> uuid \<Rightarrow> string" where
  "WorkflowID ustr eventID = ''delivery-'' @ ustr eventID"

definition ReplayWorkflowID :: "(uuid \<Rightarrow> string) \<Rightarrow> uuid \<Rightarrow> time \<Rightarrow> string" where
  "ReplayWorkflowID ustr eventID now = ''delivery-replay-'' @ ustr eventID @ ''-'' @ itoa now"

end
