(* ===== verification/DeliveryProps.thy ===== *)
theory DeliveryProps
  imports Delivery
begin

text \<open>
  What the delivery workflow guarantees.  The first part follows one run through its
  activities, whatever Temporal, Postgres and the destination do; the second assumes that
  nothing fails but the destination and shows that the run completes.
\<close>

section \<open>What the store calls leave alone\<close>

definition same_events :: "tables \<Rightarrow> tables \<Rightarrow> bool" where
  "same_events t0 t \<longleftrightarrow> events t = events t0 \<and> connections t = connections t0"

lemma same_events_refl [simp]: "same_events t t"
  by (simp add: same_events_def)

lemma RecordDelivery_same [keeps]: "preserves (same_events t) (RecordDelivery r)"
  unfolding RecordDelivery_def
  by (rule preserves_pool) (auto simp: Let_def split_beta same_events_def)

lemma RecordIssue_store_same [keeps]: "preserves (same_events t) (RecordIssue_store n)"
  unfolding RecordIssue_store_def
  by (rule preserves_pool)
     (auto simp: record_issue_stmt_def Let_def split_beta same_events_def split: option.splits)

lemma ResolveIssueByEventID_same [keeps]: "preserves (same_events t) (ResolveIssueByEventID i)"
  unfolding ResolveIssueByEventID_def
  by (rule preserves_pool) (auto simp: same_events_def)

lemma GetEvent_SomeD:
  "GetEvent enc i d = (Inr (Some ev), d') \<Longrightarrow>
   scanEvent enc (find_by erow_id i (events (tbl d))) = Inr (Some ev) \<and> d' = d\<lparr>faults := tl (faults d)\<rparr>"
  by (auto simp: GetEvent_def scan_query_def split: prod.splits sum.splits dest!: select_InrD)

lemma GetEvent_tbl: "GetEvent enc i d = (r, d') \<Longrightarrow> tbl d' = tbl d"
  by (rule preserves_step [OF GetEvent_keeps [where P = "\<lambda>t. t = tbl d"] refl])

lemma GetConnection_SomeD:
  "GetConnection i d = (Inr x, d') \<Longrightarrow>
   x = find_by conn_id i (connections (tbl d)) \<and> d' = d\<lparr>faults := tl (faults d)\<rparr>"
  by (auto simp: GetConnection_def dest!: select_InrD)

lemma GetConnection_tbl: "GetConnection i d = (r, d') \<Longrightarrow> tbl d' = tbl d"
  by (rule preserves_step [OF GetConnection_keeps [where P = "\<lambda>t. t = tbl d"] refl])

lemma scanEvent_SomeD:
  "scanEvent enc row = Inr (Some ev) \<Longrightarrow>
   \<exists>r. row = Some r \<and> ev_id ev = erow_id r \<and> ev_connection_id ev = erow_connection_id r
     \<and> ev_provider_event_id ev = erow_provider_event_id r
     \<and> openEventFields enc (erow_raw_headers r) (erow_raw_payload r) (erow_encrypted r)
         = Inr (ev_raw_headers ev, ev_raw_payload ev)"
  by (auto simp: scanEvent_def split: option.splits sum.splits)

section \<open>The run invariant\<close>

text \<open>
  A call is faithful to event \<open>eventID\<close> when it starts with a POST to the destination of the
  event's connection that carries the opened payload unchanged and names the provider's event
  id, and from there on only follows the redirects it is given, in some network.
\<close>

definition event_post :: "env \<Rightarrow> uuid \<Rightarrow> tables \<Rightarrow> out_request \<Rightarrow> bool" where
  "event_post E eventID t req \<longleftrightarrow>
     (\<exists>ev c. scanEvent (payload_enc E) (find_by erow_id eventID (events t)) = Inr (Some ev)
        \<and> find_by conn_id (ev_connection_id ev) (connections t) = Some c
        \<and> req_method req = ''POST'' \<and> req_url req = conn_destination_url c \<and> req_body req = ev_raw_payload ev
        \<and> (''X-Tuma-Event-Id'', ev_provider_event_id ev) \<in> set (req_headers req))"

definition faithful :: "env \<Rightarrow> uuid \<Rightarrow> tables \<Rightarrow> http_call \<Rightarrow> bool" where
  "faithful E eventID t call \<longleftrightarrow> (\<exists>req n. event_post E eventID t req \<and> call_ok (net E n) req call)"

definition run_ok :: "env \<Rightarrow> uuid \<Rightarrow> worker \<Rightarrow> worker \<Rightarrow> bool" where
  "run_ok E eventID w0 w \<longleftrightarrow>
     app_inv (tbl (w_db w)) \<and> same_events (tbl (w_db w0)) (tbl (w_db w))
     \<and> (\<exists>new. w_sent w = w_sent w0 @ new \<and> (\<forall>call \<in> set new. faithful E eventID (tbl (w_db w0)) call))"

lemma run_ok_refl: "app_inv (tbl (w_db w)) \<Longrightarrow> run_ok E eventID w w"
  by (simp add: run_ok_def)

lemma run_ok_frame [simp]:
  "run_ok E i w0 (w\<lparr>w_acts := a\<rparr>) = run_ok E i w0 w"
  "run_ok E i w0 (w\<lparr>w_sleeps := s\<rparr>) = run_ok E i w0 w"
  "run_ok E i w0 (w\<lparr>w_sems := m\<rparr>) = run_ok E i w0 w"
  "run_ok E i w0 (w\<lparr>w_uuids := u\<rparr>) = run_ok E i w0 w"
  "run_ok E i w0 (w\<lparr>w_metrics := x\<rparr>) = run_ok E i w0 w"
  by (simp_all add: run_ok_def)

lemma run_ok_db:
  "run_ok E i w0 w \<Longrightarrow> app_inv (tbl d) \<Longrightarrow> same_events (tbl (w_db w0)) (tbl d) \<Longrightarrow>
   run_ok E i w0 (w\<lparr>w_db := d\<rparr>)"
  by (auto simp: run_ok_def)

lemma run_ok_same_tbl: "run_ok E i w0 w \<Longrightarrow> tbl d = tbl (w_db w) \<Longrightarrow> run_ok E i w0 (w\<lparr>w_db := d\<rparr>)"
  by (auto simp: run_ok_def)

lemma run_ok_query:
  assumes "run_ok E i w0 w" and "preserves app_inv q" and "preserves (same_events (tbl (w_db w0))) q"
  shows "run_ok E i w0 (w\<lparr>w_db := snd (q (w_db w))\<rparr>)"
  using assms by (intro run_ok_db) (auto simp: run_ok_def preserves_def)

lemma record_delivery_ignored_ok:
  "run_ok E i w0 w \<Longrightarrow> run_ok E i w0 (record_delivery_ignored e a s c l w)"
  unfolding record_delivery_ignored_def
  by (rule run_ok_query [OF _ RecordDelivery_keeps RecordDelivery_same])

lemma record_issue_ok:
  assumes ok: "run_ok E i w0 w"
    and ev: "scanEvent enc (find_by erow_id i (events (tbl (w_db w0)))) = Inr (Some ev)"
  shows "run_ok E i w0 (w\<lparr>w_db := snd (RecordIssue_store (new_issue i (ev_connection_id ev) r a f) (w_db w))\<rparr>)"
proof (rule run_ok_db [OF ok])
  have ev': "events (tbl (w_db w)) = events (tbl (w_db w0))" and inv: "app_inv (tbl (w_db w))"
    using ok by (auto simp: run_ok_def same_events_def)
  have "distinct (keys erow_id (events (tbl (w_db w0))))"
    using inv ev' by (simp add: app_inv_def wf_defs)
  moreover obtain row where "find_by erow_id i (events (tbl (w_db w0))) = Some row"
    and "ev_connection_id ev = erow_connection_id row"
    using scanEvent_SomeD [OF ev] by auto
  ultimately have "erow_connection_id e = ev_connection_id ev"
    if "e \<in> set (events (tbl (w_db w)))" "erow_id e = i" for e
    using that ev' by (metis find_by_Some_iff_distinct option.inject)
  with inv show "app_inv (tbl (snd (RecordIssue_store (new_issue i (ev_connection_id ev) r a f) (w_db w))))"
    by (intro RecordIssue_store_keeps) (auto simp: new_issue_def)
  show "same_events (tbl (w_db w0)) (tbl (snd (RecordIssue_store (new_issue i (ev_connection_id ev) r a f) (w_db w))))"
    using ok preservesD [OF RecordIssue_store_same] by (auto simp: run_ok_def)
qed

lemma noteOpenIssue_ok:
  assumes "run_ok E i w0 w"
    and "scanEvent enc (find_by erow_id i (events (tbl (w_db w0)))) = Inr (Some ev)"
  shows "run_ok E i w0 (noteOpenIssue E ev a r w)"
proof -
  have "ev_id ev = i"
    using scanEvent_SomeD [OF assms(2)] find_by_SomeD by fastforce
  then show ?thesis
    unfolding noteOpenIssue_def using record_issue_ok [OF assms] by simp
qed

lemma run_ok_send:
  "run_ok E i w0 w \<Longrightarrow> faithful E i (tbl (w_db w0)) call \<Longrightarrow>
   run_ok E i w0 (w\<lparr>w_uuids := u, w_sent := w_sent w @ [call]\<rparr>)"
  by (auto simp: run_ok_def)

lemma delivery_request_faithful:
  assumes "scanEvent (payload_enc E) (find_by erow_id i (events t)) = Inr (Some ev)"
    and "find_by conn_id (ev_connection_id ev) (connections t) = Some c"
  shows "faithful E i t (client_Do (net E n) (delivery_request E ev c a did))"
proof -
  have "event_post E i t (delivery_request E ev c a did)" using assms by (auto simp: event_post_def delivery_request_def)
  moreover have "call_ok (net E n) (delivery_request E ev c a did) (client_Do (net E n) (delivery_request E ev c a did))"
    by (rule client_Do_ok) (simp add: delivery_request_def)
  ultimately show ?thesis unfolding faithful_def by blast
qed

lemma deliver_locked_ok:
  assumes "run_ok E i w0 w"
    and "scanEvent (payload_enc E) (find_by erow_id i (events (tbl (w_db w0)))) = Inr (Some ev)"
    and "find_by conn_id (ev_connection_id ev) (connections (tbl (w_db w0))) = Some c"
  shows "run_ok E i w0 (snd (deliver_locked E i ev c a w))"
  using assms
  by (auto simp: deliver_locked_def Let_def split: option.splits prod.splits do_reply.splits
      intro!: noteOpenIssue_ok record_delivery_ignored_ok run_ok_send
        delivery_request_faithful)

text \<open>The activities, one by one, and the loop over them.\<close>

definition keeps_run :: "env \<Rightarrow> uuid \<Rightarrow> worker \<Rightarrow> (worker \<Rightarrow> 'a \<times> worker) \<Rightarrow> bool" where
  "keeps_run E i w0 act \<longleftrightarrow> (\<forall>w. run_ok E i w0 w \<longrightarrow> run_ok E i w0 (snd (act w)))"

lemma run_ok_opened:
  assumes "run_ok E i w0 w" and "GetEvent enc i (w_db w) = (Inr (Some ev), d)"
  shows "scanEvent enc (find_by erow_id i (events (tbl (w_db w0)))) = Inr (Some ev)"
    and "GetConnection j d = (Inr (Some c), d') \<Longrightarrow> find_by conn_id j (connections (tbl (w_db w0))) = Some c"
  using assms GetEvent_SomeD [OF assms(2)] GetEvent_tbl [OF assms(2)]
  by (auto simp: run_ok_def same_events_def dest!: GetConnection_SomeD)

lemma LoadEventMeta_keeps: "keeps_run E i w0 (LoadEventMeta E i)"
  by (auto simp: keeps_run_def LoadEventMeta_def split: prod.splits sum.splits option.splits
      intro!: run_ok_same_tbl dest!: GetEvent_tbl GetConnection_tbl)

lemma DeliverActivity_keeps: "keeps_run E i w0 (DeliverActivity E i a)"
  unfolding keeps_run_def
proof (intro allI impI)
  fix w assume ok: "run_ok E i w0 w"
  obtain r d1 where ge: "GetEvent (payload_enc E) i (w_db w) = (r, d1)" by fastforce
  have ok1: "run_ok E i w0 (w\<lparr>w_db := d1\<rparr>)" using ok GetEvent_tbl [OF ge] by (rule run_ok_same_tbl)
  show "run_ok E i w0 (snd (DeliverActivity E i a w))"
  proof (cases "\<exists>ev. r = Inr (Some ev)")
    case False
    with ok1 show ?thesis
      by (auto simp: DeliverActivity_def ge split: sum.splits option.splits)
  next
    case True
    then obtain ev where r: "r = Inr (Some ev)" by blast
    obtain r2 d2 where gc: "GetConnection (ev_connection_id ev) d1 = (r2, d2)" by fastforce
    have ok2: "run_ok E i w0 (w\<lparr>w_db := d2\<rparr>)"
      using ok GetConnection_tbl [OF gc] GetEvent_tbl [OF ge] by (intro run_ok_same_tbl) auto
    have ok3: "run_ok E i w0 (w\<lparr>w_db := d2, w_sems := s\<rparr>)" for s
      using ok2 by (simp add: run_ok_def)
    show ?thesis
    proof (cases "\<exists>c. r2 = Inr (Some c)")
      case False
      with ok2 show ?thesis
        by (auto simp: DeliverActivity_def ge r gc split: sum.splits option.splits)
    next
      case True
      then obtain c where r2: "r2 = Inr (Some c)" by blast
      note opened = run_ok_opened [OF ok ge [unfolded r]]
      have "run_ok E i w0 (snd (deliver_locked E i ev c a (w\<lparr>w_db := d2, w_sems := s\<rparr>)))" for s
        by (rule deliver_locked_ok [OF ok3 opened(1) opened(2) [OF gc [unfolded r2]]])
      with ok2 ok3 show ?thesis
        by (auto simp: DeliverActivity_def ge r gc r2 split_beta split: acquired.splits)
    qed
  qed
qed

lemma refresh_dlq_tbl [simp]: "tbl (w_db (refresh_dlq w)) = tbl (w_db w)"
  and refresh_dlq_sent [simp]: "w_sent (refresh_dlq w) = w_sent w"
  and refresh_dlq_sleeps [simp]: "w_sleeps (refresh_dlq w) = w_sleeps w"
  by (auto simp: refresh_dlq_def split: prod.splits sum.splits
      dest: preserves_step [OF OpenIssuesCount_keeps [where P = "\<lambda>t. t = tbl (w_db w)"] refl])

lemma run_ok_refresh [simp]: "run_ok E i w0 (refresh_dlq w) = run_ok E i w0 w"
  by (simp add: run_ok_def)

lemma RecordDelivered_keeps: "keeps_run E i w0 (RecordDelivered i)"
  unfolding keeps_run_def
proof (intro allI impI)
  fix w assume ok: "run_ok E i w0 w"
  have "run_ok E i w0 (w\<lparr>w_db := snd (ResolveIssueByEventID i (w_db w))\<rparr>)"
    by (rule run_ok_query [OF ok ResolveIssueByEventID_keeps ResolveIssueByEventID_same])
  then show "run_ok E i w0 (snd (RecordDelivered i w))"
    by (auto simp: RecordDelivered_def split: prod.splits sum.splits)
qed

lemma RecordIssue_keeps: "keeps_run E i w0 (RecordIssue E i a)"
  unfolding keeps_run_def
proof (intro allI impI)
  fix w assume ok: "run_ok E i w0 w"
  obtain r d1 where ge: "GetEvent (payload_enc E) i (w_db w) = (r, d1)" by fastforce
  have ok1: "run_ok E i w0 (w\<lparr>w_db := d1\<rparr>)" using ok GetEvent_tbl [OF ge] by (rule run_ok_same_tbl)
  have "run_ok E i w0 (w\<lparr>w_db := snd (RecordIssue_store (new_issue i (ev_connection_id ev) t a f) d1)\<rparr>)"
    if "r = Inr (Some ev)" for ev t f
    using record_issue_ok [OF ok1 run_ok_opened(1) [OF ok]] ge that by fastforce
  with ok1 show "run_ok E i w0 (snd (RecordIssue E i a w))"
    by (auto simp: RecordIssue_def ge split: prod.splits sum.splits option.splits) (metis snd_conv)+
qed

lemma ExecuteActivity_keeps: "keeps_run E i w0 act \<Longrightarrow> keeps_run E i w0 (ExecuteActivity E act)"
  by (auto simp: keeps_run_def ExecuteActivity_def Let_def split: act_fate.splits)

lemma keeps_runD: "keeps_run E i w0 act \<Longrightarrow> run_ok E i w0 w \<Longrightarrow> act w = (r, w') \<Longrightarrow> run_ok E i w0 w'"
  by (metis keeps_run_def snd_conv)

text \<open>
  Induction along a run of the loop: attempts used up, an activity lost, a delivery, or a
  failed attempt followed by the rest of the run.
\<close>

definition slept :: "env \<Rightarrow> event_meta \<Rightarrow> int \<Rightarrow> worker \<Rightarrow> worker" where
  "slept E meta a w =
     (if a < meta_retry_attempts meta
      then w\<lparr>w_sleeps := w_sleeps w @
        [backoff (oor E) (meta_retry_first_delay_s meta) (meta_retry_backoff_factor meta) a]\<rparr>
      else w)"

lemma slept_simps [simp]:
  "w_db (slept E meta a w) = w_db w" "w_sent (slept E meta a w) = w_sent w"
  "w_sems (slept E meta a w) = w_sems w"
  by (simp_all add: slept_def)

lemma run_ok_slept [simp]: "run_ok E i w0 (slept E' meta a w) = run_ok E i w0 w"
  by (simp add: slept_def)

lemma delivery_loop_induct [case_names exhausted lost delivered retry]:
  assumes exhausted: "\<And>a w. \<not> a \<le> meta_retry_attempts meta \<Longrightarrow>
      Q a w (ExecuteActivity E (RecordIssue E i (meta_retry_attempts meta)) w)"
    and lost: "\<And>a w e w1. a \<le> meta_retry_attempts meta \<Longrightarrow>
      ExecuteActivity E (DeliverActivity E i a) w = (Inl e, w1) \<Longrightarrow> Q a w (Inl e, w1)"
    and delivered: "\<And>a w r w1. a \<le> meta_retry_attempts meta \<Longrightarrow>
      ExecuteActivity E (DeliverActivity E i a) w = (Inr r, w1) \<Longrightarrow> dr_success r \<Longrightarrow>
      Q a w (ExecuteActivity E (RecordDelivered i) w1)"
    and retry: "\<And>a w r w1 res. a \<le> meta_retry_attempts meta \<Longrightarrow>
      ExecuteActivity E (DeliverActivity E i a) w = (Inr r, w1) \<Longrightarrow> \<not> dr_success r \<Longrightarrow>
      Q (a + 1) (slept E meta a w1) res \<Longrightarrow> Q a w res"
  shows "Q a w (delivery_loop E i meta a w)"
proof (induction "nat (meta_retry_attempts meta + 1 - a)" arbitrary: a w rule: less_induct)
  case less
  show ?case
  proof (cases "a \<le> meta_retry_attempts meta")
    case False
    then show ?thesis by (subst delivery_loop.simps) (simp add: exhausted)
  next
    case True
    obtain r w1 where ex: "ExecuteActivity E (DeliverActivity E i a) w = (r, w1)" by fastforce
    show ?thesis
    proof (cases r)
      case (Inl e)
      with True ex lost show ?thesis by (subst delivery_loop.simps) simp
    next
      case (Inr result)
      have "Q (a + 1) (slept E meta a w1) (delivery_loop E i meta (a + 1) (slept E meta a w1))"
        using True by (intro less) auto
      from retry [OF True ex [unfolded Inr] _ this] delivered [OF True ex [unfolded Inr]]
      show ?thesis
        using True ex Inr by (subst delivery_loop.simps) (simp add: slept_def)
    qed
  qed
qed

lemma delivery_loop_keeps: "keeps_run E i w0 (delivery_loop E i meta a)"
  unfolding keeps_run_def
proof (intro allI)
  fix w
  show "run_ok E i w0 w \<longrightarrow> run_ok E i w0 (snd (delivery_loop E i meta a w))"
  proof (rule delivery_loop_induct [where Q = "\<lambda>a w res. run_ok E i w0 w \<longrightarrow> run_ok E i w0 (snd res)"],
      goal_cases exhausted lost delivered retry)
    case (exhausted a w)
    then show ?case using ExecuteActivity_keeps [OF RecordIssue_keeps] by (simp add: keeps_run_def)
  next
    case (lost a w e w1)
    then show ?case using keeps_runD [OF ExecuteActivity_keeps [OF DeliverActivity_keeps]] by force
  next
    case (delivered a w r w1)
    then show ?case
      using keeps_runD [OF ExecuteActivity_keeps [OF DeliverActivity_keeps]]
        ExecuteActivity_keeps [OF RecordDelivered_keeps] by (auto simp: keeps_run_def)
  next
    case (retry a w r w1 res)
    then show ?case using keeps_runD [OF ExecuteActivity_keeps [OF DeliverActivity_keeps]] by auto
  qed
qed

lemma DeliveryWorkflow_keeps: "keeps_run E i w0 (DeliveryWorkflow E i)"
  unfolding keeps_run_def
proof (intro allI impI)
  fix w assume ok: "run_ok E i w0 w"
  show "run_ok E i w0 (snd (DeliveryWorkflow E i w))"
    using keeps_runD [OF ExecuteActivity_keeps [OF LoadEventMeta_keeps] ok] delivery_loop_keeps
    by (auto simp: DeliveryWorkflow_def keeps_run_def split: prod.splits sum.splits)
qed

section \<open>What a completed run has done\<close>

definition open_issue_for :: "uuid \<Rightarrow> tables \<Rightarrow> bool" where
  "open_issue_for i t \<longleftrightarrow> (\<exists>r \<in> set (issues t). iss_event_id r = i \<and> iss_status r = ''open'')"

lemma ExecuteActivity_InrD:
  "ExecuteActivity E act w = (Inr x, w') \<Longrightarrow> act (w\<lparr>w_acts := Suc (w_acts w)\<rparr>) = (Inr x, w')"
  by (auto simp: ExecuteActivity_def Let_def split: act_fate.splits)

lemma ResolveIssueByEventID_resolved:
  assumes "ResolveIssueByEventID i d = (Inr x, d')"
  shows "\<not> open_issue_for i (tbl d')"
proof -
  define res :: "issue_row \<Rightarrow> issue_row" where "res = (\<lambda>r. r\<lparr>iss_status := ''resolved'', iss_resolved_at := Some (db_now d)\<rparr>)"
  have st: "iss_status (res r) = ''resolved''" for r by (simp add: res_def)
  have "d' = snd (Inr (), set_tbl (\<lambda>t. t\<lparr>issues :=
      update_by (\<lambda>i. (iss_event_id i, iss_status i)) (i, ''open'') res (issues t)\<rparr>) (d\<lparr>faults := tl (faults d)\<rparr>))"
    using pool_InrD [OF assms [unfolded ResolveIssueByEventID_def]] by (simp add: res_def)
  then have "issues (tbl d') = update_by (\<lambda>i. (iss_event_id i, iss_status i)) (i, ''open'') res (issues (tbl d))"
    by simp
  then show ?thesis by (auto simp: open_issue_for_def update_by_def st)
qed

lemma RecordDelivered_resolved:
  "RecordDelivered i w = (Inr x, w') \<Longrightarrow> \<not> open_issue_for i (tbl (w_db w'))"
  by (auto simp: RecordDelivered_def split: prod.splits sum.splits dest: ResolveIssueByEventID_resolved)

lemma record_issue_stmt_open:
  "record_issue_stmt n d = (Inr x, d') \<Longrightarrow>
   \<exists>r \<in> set (issues (tbl d')). iss_event_id r = iss_event_id n \<and> iss_status r = ''open''
     \<and> iss_attempts_exhausted n \<le> iss_attempts_exhausted r"
proof (cases "find_by iss_event_id (iss_event_id n) (issues (tbl d))")
  case None
  assume "record_issue_stmt n d = (Inr x, d')"
  with None show ?thesis by (auto simp: record_issue_stmt_def Let_def split_beta split: if_splits)
next
  case (Some old)
  assume "record_issue_stmt n d = (Inr x, d')"
  with Some have "issues (tbl d') = update_by iss_event_id (iss_event_id n) (merge_issue n) (issues (tbl d))"
    by (auto simp: record_issue_stmt_def Let_def split_beta split: if_splits)
  moreover have "merge_issue n old \<in> set (update_by iss_event_id (iss_event_id n) (merge_issue n) (issues (tbl d)))"
    using find_by_SomeD [OF Some] by (auto simp: set_update_by)
  moreover have "iss_attempts_exhausted n \<le> iss_attempts_exhausted (merge_issue n old)"
    by (simp add: merge_issue_def)
  ultimately show ?thesis using find_by_SomeD [OF Some] by (metis merge_issue_ids(2,5))
qed

lemma RecordIssue_store_open:
  "RecordIssue_store n d = (Inr x, d') \<Longrightarrow>
   \<exists>r \<in> set (issues (tbl d')). iss_event_id r = iss_event_id n \<and> iss_status r = ''open''
     \<and> iss_attempts_exhausted n \<le> iss_attempts_exhausted r"
  unfolding RecordIssue_store_def by (drule pool_InrD) (rule record_issue_stmt_open)

definition exhausted_issue :: "uuid \<Rightarrow> int \<Rightarrow> tables \<Rightarrow> bool" where
  "exhausted_issue i n t \<longleftrightarrow>
     (\<exists>r \<in> set (issues t). iss_event_id r = i \<and> iss_status r = ''open'' \<and> n \<le> iss_attempts_exhausted r)"

lemma RecordIssue_open:
  "RecordIssue E i n w = (Inr x, w') \<Longrightarrow> exhausted_issue i n (tbl (w_db w'))"
  by (auto simp: RecordIssue_def exhausted_issue_def split: prod.splits sum.splits option.splits
      dest!: RecordIssue_store_open simp: new_issue_def)

text \<open>Call number \<open>n\<close> of the worker ended with a 2xx answer, of the destination or of where that redirected to.\<close>

definition succeeded :: "http_call list \<Rightarrow> nat \<Rightarrow> bool" where
  "succeeded sent n \<longleftrightarrow> n < length sent \<and> (case call_reply (sent ! n) of Status code \<Rightarrow> success_code code | DoError _ \<Rightarrow> False)"

lemma succeeded_append: "n < length sent \<Longrightarrow> succeeded (sent @ new) n = succeeded sent n"
  by (simp add: succeeded_def nth_append)

text \<open>A call that the client made for a POST, and what its success means.\<close>

definition post_call :: "http_call \<Rightarrow> bool" where
  "post_call c \<longleftrightarrow> (\<exists>N req. req_method req = ''POST'' \<and> c = client_Do N req)"

lemma delivery_post_call: "post_call (client_Do N (delivery_request E ev c a did))"
  unfolding post_call_def by (rule exI [of _ N], rule exI [of _ "delivery_request E ev c a did"]) (simp add: delivery_request_def)

lemma record_frames [simp]:
  "w_sent (record_delivery_ignored e a s c l w) = w_sent w"
  "w_sent (noteOpenIssue E ev a r w) = w_sent w"
  "w_sleeps (record_delivery_ignored e a s c l w) = w_sleeps w"
  "w_sleeps (noteOpenIssue E ev a r w) = w_sleeps w"
  "w_sems (record_delivery_ignored e a s c l w) = w_sems w"
  "w_sems (noteOpenIssue E ev a r w) = w_sems w"
  by (simp_all add: record_delivery_ignored_def noteOpenIssue_def)

text \<open>
  Calls of one activity: at most one; a success means that it ended with a 2xx answer, a
  reported failure that it did not.
\<close>

definition posts :: "worker \<Rightarrow> DeliverResult result \<Rightarrow> worker \<Rightarrow> bool" where
  "posts w r w' \<longleftrightarrow>
     (\<exists>new. w_sent w' = w_sent w @ new \<and> length new \<le> 1 \<and> (\<forall>c \<in> set new. post_call c)
        \<and> (\<forall>res. r = Inr res \<longrightarrow> dr_success res = succeeded (w_sent w') (length (w_sent w))))"

lemma posts_frame: "w_sent w' = w_sent w \<Longrightarrow> r = Inl e \<Longrightarrow> posts w r w'"
  by (simp add: posts_def)

lemma deliver_locked_posts:
  assumes "deliver_locked E i ev c a w = (r, w')"
  shows "posts w (Inr r) w'"
  using assms
  by (auto simp: deliver_locked_def Let_def succeeded_def posts_def delivery_post_call
      split: option.splits prod.splits do_reply.splits if_splits)

lemma DeliverActivity_posts:
  assumes "DeliverActivity E i a w = (r, w')"
  shows "posts w r w'"
  using assms
  by (auto simp: DeliverActivity_def split: prod.splits sum.splits option.splits acquired.splits
      intro: posts_frame dest!: deliver_locked_posts) (simp_all add: posts_def)

lemma Execute_deliver_posts:
  assumes "ExecuteActivity E (DeliverActivity E i a) w = (r, w')"
  shows "posts w r w'"
proof -
  obtain r1 w1 where d: "DeliverActivity E i a (w\<lparr>w_acts := Suc (w_acts w)\<rparr>) = (r1, w1)" by fastforce
  from DeliverActivity_posts [OF this] assms d show ?thesis
    by (auto simp: ExecuteActivity_def Let_def posts_def split: act_fate.splits)
qed

lemma recording_sent:
  "w_sent (snd (RecordDelivered i w)) = w_sent w" "w_sent (snd (RecordIssue E i n w)) = w_sent w"
  "w_sent (snd (LoadEventMeta E i w)) = w_sent w"
  by (auto simp: RecordDelivered_def RecordIssue_def LoadEventMeta_def split: prod.splits sum.splits option.splits)

lemma ExecuteActivity_sent:
  assumes "\<And>v. w_sent (snd (act v)) = w_sent v"
  shows "w_sent (snd (ExecuteActivity E act w)) = w_sent w"
  using assms by (simp add: ExecuteActivity_def Let_def split: act_fate.splits)

lemma recording_Execute:
  "w_sent (snd (ExecuteActivity E (RecordDelivered i) w)) = w_sent w"
  "w_sent (snd (ExecuteActivity E (RecordIssue E i n) w)) = w_sent w"
  "w_sent (snd (ExecuteActivity E (LoadEventMeta E i) w)) = w_sent w"
  by (rule ExecuteActivity_sent, rule recording_sent)+

text \<open>
  The outcome of a run from attempt \<open>a\<close> on: at most one call per attempt left, no call after
  one that succeeded, and a run that completes has either delivered, leaving no open issue, or
  had every call fail and opened an issue with the full number of attempts.
\<close>

definition outcome :: "uuid \<Rightarrow> int \<Rightarrow> int \<Rightarrow> worker \<Rightarrow> unit result \<times> worker \<Rightarrow> bool" where
  "outcome i maxA a w res \<longleftrightarrow>
     (\<exists>new. w_sent (snd res) = w_sent w @ new \<and> length new \<le> nat (maxA + 1 - a) \<and> (\<forall>c \<in> set new. post_call c)
        \<and> (\<forall>k. Suc k < length new \<longrightarrow> \<not> succeeded (w_sent (snd res)) (length (w_sent w) + k))
        \<and> (fst res = Inr () \<longrightarrow>
             new \<noteq> [] \<and> succeeded (w_sent (snd res)) (length (w_sent w) + length new - 1)
               \<and> \<not> open_issue_for i (tbl (w_db (snd res)))
             \<or> (\<forall>k < length new. \<not> succeeded (w_sent (snd res)) (length (w_sent w) + k))
               \<and> exhausted_issue i maxA (tbl (w_db (snd res)))))"

lemma outcome_delivered:
  assumes "posts w (Inr r) w1" and "dr_success r" and "a \<le> maxA"
  shows "outcome i maxA a w (ExecuteActivity E (RecordDelivered i) w1)"
proof -
  obtain new where n: "w_sent w1 = w_sent w @ new" "length new \<le> 1" "\<forall>c \<in> set new. post_call c" "succeeded (w_sent w1) (length (w_sent w))"
    using assms(1,2) by (auto simp: posts_def)
  then have 1: "length new = 1" by (cases new) (auto simp: succeeded_def)
  obtain x w2 where ex: "ExecuteActivity E (RecordDelivered i) w1 = (x, w2)" by fastforce
  have s: "w_sent w2 = w_sent w1" using recording_Execute(1) [of E i w1] ex by simp
  have "x = Inr () \<Longrightarrow> \<not> open_issue_for i (tbl (w_db w2))"
    using ex by (auto dest!: ExecuteActivity_InrD RecordDelivered_resolved)
  with n 1 s assms(3) show ?thesis by (auto simp: outcome_def ex intro!: exI [of _ new])
qed

lemma outcome_exhausted:
  assumes "maxA < a"
  shows "outcome i maxA a w (ExecuteActivity E (RecordIssue E i maxA) w)"
proof -
  obtain x w2 where ex: "ExecuteActivity E (RecordIssue E i maxA) w = (x, w2)" by fastforce
  have s: "w_sent w2 = w_sent w" using recording_Execute(2) [of E i maxA w] ex by simp
  have "x = Inr () \<Longrightarrow> exhausted_issue i maxA (tbl (w_db w2))"
    using ex by (auto dest!: ExecuteActivity_InrD RecordIssue_open)
  with s assms show ?thesis by (auto simp: outcome_def ex)
qed

lemma outcome_retry:
  assumes p: "posts w (Inr r) w1" and f: "\<not> dr_success r" and a: "a \<le> maxA"
    and o: "outcome i maxA (a + 1) w2 res" and w2: "w_sent w2 = w_sent w1"
  shows "outcome i maxA a w res"
proof -
  obtain n1 where n1: "w_sent w1 = w_sent w @ n1" "length n1 \<le> 1" "\<forall>c \<in> set n1. post_call c" "\<not> succeeded (w_sent w1) (length (w_sent w))"
    using p f by (auto simp: posts_def)
  obtain n2 where n2: "w_sent (snd res) = w_sent w1 @ n2" "length n2 \<le> nat (maxA - a)" "\<forall>c \<in> set n2. post_call c"
    and early: "\<forall>k. Suc k < length n2 \<longrightarrow> \<not> succeeded (w_sent (snd res)) (length (w_sent w1) + k)"
    and fin: "fst res = Inr () \<longrightarrow>
             n2 \<noteq> [] \<and> succeeded (w_sent (snd res)) (length (w_sent w1) + length n2 - 1)
               \<and> \<not> open_issue_for i (tbl (w_db (snd res)))
             \<or> (\<forall>k < length n2. \<not> succeeded (w_sent (snd res)) (length (w_sent w1) + k))
               \<and> exhausted_issue i maxA (tbl (w_db (snd res)))"
    using o w2 by (auto simp: outcome_def)
  have first: "\<not> succeeded (w_sent (snd res)) (length (w_sent w) + k)" if "k < length n1" for k
    using n1 n2(1) that succeeded_append [of "length (w_sent w)" "w_sent w1" n2] by (cases k) auto
  have pos: "length (w_sent w) + k = length (w_sent w1) + (k - length n1)" if "\<not> k < length n1" for k
    using n1 that by auto
  have "\<not> succeeded (w_sent (snd res)) (length (w_sent w) + k)" if "Suc k < length (n1 @ n2)" for k
  proof (cases "k < length n1")
    case False
    then have "Suc (k - length n1) < length n2" using that by simp
    with early show ?thesis unfolding pos [OF False] by blast
  qed (rule first)
  moreover have "\<not> succeeded (w_sent (snd res)) (length (w_sent w) + k)"
    if "k < length (n1 @ n2)" "\<forall>k < length n2. \<not> succeeded (w_sent (snd res)) (length (w_sent w1) + k)" for k
  proof (cases "k < length n1")
    case False
    then have "k - length n1 < length n2" using that(1) by simp
    with that(2) show ?thesis unfolding pos [OF False] by blast
  qed (rule first)
  moreover have "n2 \<noteq> [] \<Longrightarrow> length (w_sent w) + length (n1 @ n2) - 1 = length (w_sent w1) + length n2 - 1"
    using n1 by simp
  moreover have "length (n1 @ n2) \<le> nat (maxA + 1 - a)" using n1 n2 a by auto
  ultimately show ?thesis
    unfolding outcome_def using n1(1,3) n2(1,3) fin by (intro exI [of _ "n1 @ n2"]) auto
qed

lemma delivery_loop_outcome: "outcome i (meta_retry_attempts meta) a w (delivery_loop E i meta a w)"
proof (rule delivery_loop_induct [where Q = "outcome i (meta_retry_attempts meta)"],
    goal_cases exhausted lost delivered retry)
  case (exhausted a w)
  then show ?case by (intro outcome_exhausted) simp
next
  case (lost a w e w1)
  then show ?case using Execute_deliver_posts [OF lost(2)] by (auto simp: outcome_def posts_def)
next
  case (delivered a w r w1)
  show ?case by (rule outcome_delivered [OF Execute_deliver_posts [OF delivered(2)] delivered(3,1)])
next
  case (retry a w r w1 res)
  show ?case by (rule outcome_retry [OF Execute_deliver_posts [OF retry(2)] retry(3,1,4)]) simp
qed


definition ended_well :: "http_call \<Rightarrow> bool" where
  "ended_well c \<longleftrightarrow>
     (\<exists>r code loc. last (call_hops c) = (r, Response code loc) \<and> success_code code
        \<and> (req_method r = ''POST'' \<and> req_body r = req_body (fst (hd (call_hops c)))
           \<or> (\<exists>h \<in> set (call_hops c). drops_body (snd h))))"

lemma post_call_ended:
  assumes "post_call c" "call_reply c = Status code" "success_code code"
  shows "ended_well c"
proof -
  obtain N req where "req_method req = ''POST''" "c = client_Do N req" using assms(1) by (auto simp: post_call_def)
  then have ok: "call_ok N req c" using client_Do_ok by blast
  then have "last (call_hops c) \<in> set (call_hops c)" "fst (hd (call_hops c)) = req" by (simp_all add: call_ok_def)
  moreover obtain loc where "snd (last (call_hops c)) = Response code loc" using ok assms(2) by (auto simp: call_ok_def)
  ultimately show ?thesis
    using call_ok_posts [OF ok] assms(3) unfolding ended_well_def by (metis prod.collapse)
qed

lemma post_call_short: "post_call c \<Longrightarrow> length (call_hops c) \<le> 10"
  using client_Do_ok by (fastforce simp: post_call_def call_ok_def)

section \<open>An undisturbed run\<close>

text \<open>
  Nothing fails but the destination: no statement and no activity is lost, the event opens, its
  connection exists, a slot of the connection is free, the destination URL parses and Postgres
  hands out fresh identifiers.
\<close>

definition fresh_issue_ids :: "db \<Rightarrow> bool" where
  "fresh_issue_ids d \<longleftrightarrow>
     inj (uuid_src d) \<and> (\<forall>k \<ge> uuid_pos d. uuid_src d k \<notin> set (keys iss_id (issues (tbl d))))"

definition slot_free :: "uuid \<Rightarrow> sems \<Rightarrow> bool" where
  "slot_free c s \<longleftrightarrow> (case sem_held s c of None \<Rightarrow> 0 < sem_limit s | Some n \<Rightarrow> int n < sem_limit s)"

definition quiet_store :: "env \<Rightarrow> uuid \<Rightarrow> Event \<Rightarrow> Connection \<Rightarrow> db \<Rightarrow> bool" where
  "quiet_store E i ev c d \<longleftrightarrow>
     faults d = [] \<and> fresh_issue_ids d
     \<and> scanEvent (payload_enc E) (find_by erow_id i (events (tbl d))) = Inr (Some ev)
     \<and> find_by conn_id (ev_connection_id ev) (connections (tbl d)) = Some c
     \<and> connection_check c"

definition quiet :: "env \<Rightarrow> uuid \<Rightarrow> Event \<Rightarrow> Connection \<Rightarrow> worker \<Rightarrow> bool" where
  "quiet E i ev c w \<longleftrightarrow>
     quiet_store E i ev c (w_db w) \<and> slot_free (conn_id c) (w_sems w)
     \<and> (\<forall>n. fate E n = Runs) \<and> new_request_err E (conn_destination_url c) = None"

lemma quiet_frame [simp]:
  "quiet E i ev c (w\<lparr>w_acts := n\<rparr>) = quiet E i ev c w"
  "quiet E i ev c (w\<lparr>w_sleeps := s\<rparr>) = quiet E i ev c w"
  "quiet E i ev c (slept E' meta a w) = quiet E i ev c w"
  by (simp_all add: quiet_def slept_def)

lemma acquire_slot:
  assumes "slot_free c s"
  obtains s' where "acquire c s = Acquired s'" "slot_free c (release c s')"
  using assms
  by (auto simp: slot_free_def acquire_def release_def split: option.splits nat.splits)

lemma RecordDelivery_quiet:
  assumes "faults d = []" "fresh_issue_ids d"
  shows "faults (snd (RecordDelivery r d)) = []" "fresh_issue_ids (snd (RecordDelivery r d))"
    "events (tbl (snd (RecordDelivery r d))) = events (tbl d)"
    "connections (tbl (snd (RecordDelivery r d))) = connections (tbl d)"
  using assms
  by (auto simp: RecordDelivery_def Let_def split_beta fresh_issue_ids_def gen_random_uuid_def)

lemma RecordIssue_store_quiet:
  assumes "faults d = []" "fresh_issue_ids d"
  shows "faults (snd (RecordIssue_store r d)) = []" "fresh_issue_ids (snd (RecordIssue_store r d))"
    "events (tbl (snd (RecordIssue_store r d))) = events (tbl d)"
    "connections (tbl (snd (RecordIssue_store r d))) = connections (tbl d)"
  using assms
  by (auto simp: RecordIssue_store_def record_issue_stmt_def Let_def split_beta fresh_issue_ids_def
      gen_random_uuid_def keys_update_by row_simps inj_eq split: option.splits)

lemma quiet_reads:
  assumes "quiet_store E i ev c d"
  shows "GetEvent (payload_enc E) i d = (Inr (Some ev), d)"
    and "GetConnection (ev_connection_id ev) d = (Inr (Some c), d)"
  using assms by (simp_all add: quiet_store_def GetEvent_def GetConnection_def scan_query_def select_def)

lemma record_delivery_quiet [simp]:
  "quiet_store E i ev c (w_db w) \<Longrightarrow> quiet_store E i ev c (w_db (record_delivery_ignored e a s co l w))"
  by (auto simp: quiet_store_def record_delivery_ignored_def RecordDelivery_quiet)

lemma noteOpenIssue_quiet [simp]:
  "quiet_store E i ev c (w_db w) \<Longrightarrow> quiet_store E i ev c (w_db (noteOpenIssue E e a r w))"
  by (auto simp: quiet_store_def noteOpenIssue_def RecordIssue_store_quiet)

text \<open>One attempt makes exactly one call and reports what it returned.\<close>

lemma deliver_locked_quiet:
  assumes "quiet_store E i ev c (w_db w)" and "new_request_err E (conn_destination_url c) = None"
    and "deliver_locked E i ev c a w = (r, w')"
  shows "quiet_store E i ev c (w_db w') \<and> w_sems w' = w_sems w \<and> w_sleeps w' = w_sleeps w
     \<and> (\<exists>did. w_sent w' = w_sent w @ [client_Do (net E (length (w_sent w))) (delivery_request E ev c a did)])"
  using assms
  by (auto simp: deliver_locked_def Let_def split: prod.splits do_reply.splits if_splits)

lemma DeliverActivity_quiet:
  assumes q: "quiet E i ev c w"
  obtains r w' where "DeliverActivity E i a w = (Inr r, w')" "quiet E i ev c w'"
    "w_sleeps w' = w_sleeps w" "length (w_sent w') = Suc (length (w_sent w))"
    "\<exists>did. w_sent w' = w_sent w @ [client_Do (net E (length (w_sent w))) (delivery_request E ev c a did)]"
proof -
  have st: "quiet_store E i ev c (w_db w)" using q by (simp add: quiet_def)
  obtain s' where s': "acquire (conn_id c) (w_sems w) = Acquired s'" "slot_free (conn_id c) (release (conn_id c) s')"
    using acquire_slot q by (metis quiet_def)
  obtain r w' where d: "deliver_locked E i ev c a (w\<lparr>w_sems := s'\<rparr>) = (r, w')" by fastforce
  have p: "quiet_store E i ev c (w_db w') \<and> w_sems w' = s' \<and> w_sleeps w' = w_sleeps w
     \<and> (\<exists>did. w_sent w' = w_sent w @ [client_Do (net E (length (w_sent w))) (delivery_request E ev c a did)])"
    using deliver_locked_quiet [OF _ _ d] st q by (auto simp: quiet_def)
  have "DeliverActivity E i a w = (Inr r, w'\<lparr>w_sems := release (conn_id c) (w_sems w')\<rparr>)"
    by (simp add: DeliverActivity_def quiet_reads [OF st] s' d)
  then show thesis by (rule that) (use p s' q in \<open>auto simp: quiet_def\<close>)
qed

lemma Execute_quiet: "quiet E i ev c w \<Longrightarrow> ExecuteActivity E act w = act (w\<lparr>w_acts := Suc (w_acts w)\<rparr>)"
  by (simp add: ExecuteActivity_def quiet_def)

lemma RecordDelivered_quiet:
  assumes "quiet E i ev c w"
  shows "fst (ExecuteActivity E (RecordDelivered j) w) = Inr ()"
    "w_sleeps (snd (ExecuteActivity E (RecordDelivered j) w)) = w_sleeps w"
  using assms unfolding Execute_quiet [OF assms]
  by (auto simp: RecordDelivered_def ResolveIssueByEventID_def quiet_def quiet_store_def)

lemma exhausted_reason_ok: "text_ok ''Delivery attempts exhausted''"
  by code_simp

lemma RecordIssue_quiet:
  assumes q: "quiet E i ev c w" and n: "int4 n"
  shows "fst (ExecuteActivity E (RecordIssue E i n) w) = Inr ()"
    "w_sleeps (snd (ExecuteActivity E (RecordIssue E i n) w)) = w_sleeps w"
proof -
  let ?n = "new_issue i (ev_connection_id ev) ''Delivery attempts exhausted'' n (clock E (Suc (w_acts w)))"
  have st: "quiet_store E i ev c (w_db w)" using q by (simp add: quiet_def)
  have "i \<in> set (keys erow_id (events (tbl (w_db w))))"
    "ev_connection_id ev \<in> set (keys conn_id (connections (tbl (w_db w))))"
    using st scanEvent_SomeD [of "payload_enc E" "find_by erow_id i (events (tbl (w_db w)))" ev]
    by (auto simp: quiet_store_def set_keys dest!: find_by_SomeD intro: rev_image_eqI)
  then have "\<exists>j d. RecordIssue_store ?n (w_db w) = (Inr j, d)"
    using st n exhausted_reason_ok
    by (auto simp: RecordIssue_store_def record_issue_stmt_def Let_def split_beta quiet_store_def
        issue_check_def new_issue_def fresh_issue_ids_def split: option.splits)
  then show "fst (ExecuteActivity E (RecordIssue E i n) w) = Inr ()"
    "w_sleeps (snd (ExecuteActivity E (RecordIssue E i n) w)) = w_sleeps w"
    unfolding Execute_quiet [OF q]
    by (auto simp: RecordIssue_def quiet_reads [OF st])
qed


text \<open>
  The whole loop: it completes, makes one call per attempt and sleeps the back-off between
  attempts, and nothing after the last one.
\<close>

definition backoffs :: "env \<Rightarrow> event_meta \<Rightarrow> int \<Rightarrow> int list" where
  "backoffs E meta a =
     map (backoff (oor E) (meta_retry_first_delay_s meta) (meta_retry_backoff_factor meta))
       [a .. meta_retry_attempts meta - 1]"

lemma backoffs_Cons:
  "a < meta_retry_attempts meta \<Longrightarrow>
   backoffs E meta a =
     backoff (oor E) (meta_retry_first_delay_s meta) (meta_retry_backoff_factor meta) a # backoffs E meta (a + 1)"
  by (simp add: backoffs_def upto_rec1)

lemma backoffs_Nil: "meta_retry_attempts meta \<le> a \<Longrightarrow> backoffs E meta a = []"
  by (simp add: backoffs_def)

definition completes :: "env \<Rightarrow> event_meta \<Rightarrow> int \<Rightarrow> worker \<Rightarrow> unit result \<times> worker \<Rightarrow> bool" where
  "completes E meta a w res \<longleftrightarrow>
     fst res = Inr () \<and>
     (let n = length (w_sent (snd res)) - length (w_sent w)
      in length (w_sent w) \<le> length (w_sent (snd res))
         \<and> w_sleeps (snd res) = w_sleeps w @ take (n - 1) (backoffs E meta a)
         \<and> ((\<forall>k. \<not> succeeded (w_sent (snd res)) (length (w_sent w) + k)) \<longrightarrow>
              n = nat (meta_retry_attempts meta + 1 - a)))"

lemma completes_retry:
  assumes a: "a \<le> meta_retry_attempts meta" and q: "quiet E i ev c w"
    and d: "ExecuteActivity E (DeliverActivity E i a) w = (Inr r, w1)"
    and w1: "w_sleeps w1 = w_sleeps w" "length (w_sent w1) = Suc (length (w_sent w))"
    and more: "a < meta_retry_attempts meta \<longrightarrow> length (w_sent w1) < length (w_sent (snd res))"
    and c: "completes E meta (a + 1) (slept E meta a w1) res"
  shows "completes E meta a w res"
proof (cases "a < meta_retry_attempts meta")
  case True
  have le: "length (w_sent w1) \<le> length (w_sent (snd res))"
    and sl: "w_sleeps (snd res) = w_sleeps (slept E meta a w1)
              @ take (length (w_sent (snd res)) - length (w_sent w1) - 1) (backoffs E meta (a + 1))"
    using c by (auto simp: completes_def Let_def)
  have "length (w_sent (snd res)) - length (w_sent w) - 1 = Suc (length (w_sent (snd res)) - length (w_sent w1) - 1)"
    using more True w1(2) by simp
  then have "w_sleeps (snd res) = w_sleeps w @ take (length (w_sent (snd res)) - length (w_sent w) - 1) (backoffs E meta a)"
    using sl True w1(1) by (simp add: slept_def backoffs_Cons)
  moreover have "length (w_sent (snd res)) - length (w_sent w) = nat (meta_retry_attempts meta + 1 - a)"
    if no: "\<forall>k. \<not> succeeded (w_sent (snd res)) (length (w_sent w) + k)"
  proof -
    have "\<forall>k. \<not> succeeded (w_sent (snd res)) (length (w_sent w1) + k)"
      using no w1(2) by (metis add_Suc add_Suc_right)
    then show ?thesis using c w1(2) le True by (auto simp: completes_def Let_def)
  qed
  ultimately show ?thesis using c le w1(2) by (auto simp: completes_def Let_def)
next
  case False
  then have e: "a = meta_retry_attempts meta" using a by simp
  have "\<forall>k. \<not> succeeded (w_sent (snd res)) (length (w_sent w) + k) \<Longrightarrow>
     \<forall>k. \<not> succeeded (w_sent (snd res)) (length (w_sent w1) + k)"
    using w1(2) by (metis add_Suc add_Suc_right)
  then show ?thesis using c w1 e by (auto simp: completes_def Let_def slept_def backoffs_Nil)
qed

lemma delivery_loop_completes:
  assumes "int4 (meta_retry_attempts meta)" and "quiet E i ev c w"
  shows "completes E meta a w (delivery_loop E i meta a w)
     \<and> (a \<le> meta_retry_attempts meta \<longrightarrow> length (w_sent w) < length (w_sent (snd (delivery_loop E i meta a w))))"
proof -
  let ?Q = "\<lambda>a w res. quiet E i ev c w \<longrightarrow> completes E meta a w res
     \<and> (a \<le> meta_retry_attempts meta \<longrightarrow> length (w_sent w) < length (w_sent (snd res)))"
  have step: "quiet E i ev c w1 \<and> w_sleeps w1 = w_sleeps w \<and> length (w_sent w1) = Suc (length (w_sent w)) \<and> (\<exists>x. r = Inr x)"
    if "quiet E i ev c w" "ExecuteActivity E (DeliverActivity E i a) w = (r, w1)" for a w r w1
    using that DeliverActivity_quiet [of E i ev c "w\<lparr>w_acts := Suc (w_acts w)\<rparr>" a]
    by (auto simp: Execute_quiet [OF that(1)])
  have "?Q a w (delivery_loop E i meta a w)"
  proof (rule delivery_loop_induct [where Q = ?Q], goal_cases exhausted lost delivered retry)
    case (exhausted a w)
    then show ?case using RecordIssue_quiet [OF _ assms(1)] recording_Execute(2)
      by (auto simp: completes_def)
  next
    case (lost a w e w1)
    then show ?case using step [OF _ lost(2)] by auto
  next
    case (delivered a w r w1)
    have "succeeded (w_sent w1) (length (w_sent w) + 0)"
      using Execute_deliver_posts [OF delivered(2)] delivered(3) by (auto simp: posts_def)
    then have acc: "(\<forall>k. \<not> succeeded (w_sent w1) (length (w_sent w) + k)) = False" by blast
    show ?case using step [OF _ delivered(2)] RecordDelivered_quiet recording_Execute(1)
      by (auto simp: completes_def Let_def acc)
  next
    case (retry a w r w1 res)
    show ?case
    proof (intro impI)
      assume q: "quiet E i ev c w"
      note s = step [OF q retry(2)]
      have c: "completes E meta (a + 1) (slept E meta a w1) res"
        and m: "a + 1 \<le> meta_retry_attempts meta \<longrightarrow> length (w_sent w1) < length (w_sent (snd res))"
        using retry(4) s by auto
      have "length (w_sent w1) \<le> length (w_sent (snd res))"
        using c by (simp add: completes_def Let_def)
      then show "completes E meta a w res \<and>
        (a \<le> meta_retry_attempts meta \<longrightarrow> length (w_sent w) < length (w_sent (snd res)))"
        using completes_retry [OF retry(1) q retry(2)] s c m by auto
    qed
  qed
  with assms(2) show ?thesis by blast
qed

end
