(* ===== verification/DeliveryClaims.thy ===== *)
theory DeliveryClaims
  imports DeliveryProps
begin

text \<open>
  The properties of \<^verbatim>\<open>internal/workflow/delivery.go\<close>: what a run of the workflow has done when
  it ends, that an undisturbed run ends, what redirects do, the retry schedule, and the semaphores.
\<close>

section \<open>A concrete worker\<close>

text \<open>One stored event, one connection with three attempts, and a destination that answers 500, 503, 200.\<close>

definition demo_connection :: Connection where
  "demo_connection =
     \<lparr>conn_id = 1, conn_name = ''shop'', conn_source_type = ''stripe'', conn_inbound_path = ''ab12cd34'',
      conn_destination_url = ''http://d'', conn_signing_secret_enc = [], conn_retry_attempts = 3,
      conn_retry_first_delay_s = 60, conn_retry_backoff_factor = 2, conn_retention_days = 30,
      conn_is_playground = False, conn_created_at = 0\<rparr>"

definition demo_event :: event_row where
  "demo_event =
     \<lparr>erow_id = 7, erow_connection_id = 1, erow_provider_event_id = ''evt_1'', erow_raw_headers = ''{}'',
      erow_raw_payload = ''hello'', erow_encrypted = False, erow_received_at = 0, erow_workflow_id = None\<rparr>"

definition demo_db :: db where
  "demo_db =
     \<lparr>tbl = empty_tables\<lparr>connections := [demo_connection], events := [demo_event]\<rparr>, db_now = 5,
      uuid_src = (\<lambda>n. n), uuid_pos = 100, numeric = (\<lambda>_ _ x. Some x), faults = []\<rparr>"

definition demo_worker :: worker where
  "demo_worker =
     \<lparr>w_db = demo_db, w_metrics = new_metrics, w_sems = NewConnectionSemaphores 2, w_sent = [],
      w_sleeps = [], w_uuids = 0, w_acts = 0\<rparr>"

definition demo_env :: "int list \<Rightarrow> env" where
  "demo_env codes =
     \<lparr>payload_enc = None, uuid_str = (\<lambda>_. ''u''), new_uuid = (\<lambda>n. n), new_request_err = (\<lambda>_. None),
      net = (\<lambda>n. \<lparr>hn_answer = (\<lambda>_ _. Response (codes ! n) []), hn_resolve = (\<lambda>_ loc. Some loc), hn_referer = (\<lambda>_ _. []),
        hn_error = (\<lambda>_ m. m)\<rparr>), took_ms = (\<lambda>_. 12), fate = (\<lambda>_. Runs), clock = (\<lambda>n. int n), oor = (\<lambda>_. 0)\<rparr>"

lemmas demo_defs = demo_connection_def demo_event_def demo_db_def demo_worker_def demo_env_def

section \<open>What a run has done\<close>

lemma LoadEventMeta_InrD:
  assumes "LoadEventMeta E i w = (Inr meta, w')"
  shows "\<exists>ev c. scanEvent (payload_enc E) (find_by erow_id i (events (tbl (w_db w)))) = Inr (Some ev)
     \<and> find_by conn_id (ev_connection_id ev) (connections (tbl (w_db w))) = Some c
     \<and> meta_retry_attempts meta = conn_retry_attempts c
     \<and> meta_retry_first_delay_s meta = conn_retry_first_delay_s c
     \<and> meta_retry_backoff_factor meta = conn_retry_backoff_factor c \<and> w_sent w' = w_sent w"
  using assms
  by (auto simp: LoadEventMeta_def split: prod.splits sum.splits option.splits
      dest!: GetEvent_SomeD GetConnection_SomeD) metis

lemma outcome_done:
  assumes "outcome i maxA a w res" and "fst res = Inr ()"
  shows "(\<exists>n \<ge> length (w_sent w). succeeded (w_sent (snd res)) n \<and> ended_well (w_sent (snd res) ! n)) \<and> \<not> open_issue_for i (tbl (w_db (snd res)))
     \<or> exhausted_issue i maxA (tbl (w_db (snd res)))"
proof -
  obtain new where s: "w_sent (snd res) = w_sent w @ new" and p: "\<forall>c \<in> set new. post_call c"
    and r: "new \<noteq> [] \<and> succeeded (w_sent (snd res)) (length (w_sent w) + length new - 1) \<and> \<not> open_issue_for i (tbl (w_db (snd res)))
      \<or> exhausted_issue i maxA (tbl (w_db (snd res)))"
    using assms by (auto simp: outcome_def)
  have "ended_well (w_sent (snd res) ! n)" if "length (w_sent w) \<le> n" "succeeded (w_sent (snd res)) n" for n
    using that p post_call_ended [of "new ! (n - length (w_sent w))"] by (auto simp: s succeeded_def nth_append split: do_reply.splits)
  moreover have "length (w_sent w) \<le> length (w_sent w) + length new - 1" if "new \<noteq> []"
    using that by (cases new) auto
  ultimately show ?thesis using r by blast
qed

definition config_of :: "env \<Rightarrow> uuid \<Rightarrow> tables \<Rightarrow> Connection option" where
  "config_of E i t =
     (case scanEvent (payload_enc E) (find_by erow_id i (events t)) of
        Inr (Some ev) \<Rightarrow> find_by conn_id (ev_connection_id ev) (connections t)
      | _ \<Rightarrow> None)"

lemma DeliveryWorkflow_outcome:
  "(case config_of E i (tbl (w_db w)) of
      None \<Rightarrow> (\<exists>e. fst (DeliveryWorkflow E i w) = Inl e) \<and> w_sent (snd (DeliveryWorkflow E i w)) = w_sent w
    | Some c \<Rightarrow> outcome i (conn_retry_attempts c) 1 w (DeliveryWorkflow E i w))"
proof -
  obtain r w1 where ex: "ExecuteActivity E (LoadEventMeta E i) w = (r, w1)" by fastforce
  have s: "w_sent w1 = w_sent w" using recording_Execute(3) [of E i w] ex by simp
  show ?thesis
  proof (cases r)
    case (Inl e)
    with ex s show ?thesis by (simp add: DeliveryWorkflow_def outcome_def split: option.splits)
  next
    case (Inr meta)
    with LoadEventMeta_InrD [OF ExecuteActivity_InrD [OF ex [unfolded Inr]]]
    obtain c where c: "config_of E i (tbl (w_db w)) = Some c" "meta_retry_attempts meta = conn_retry_attempts c"
      by (auto simp: config_of_def)
    have "outcome i (conn_retry_attempts c) 1 w (delivery_loop E i meta 1 w1)"
      using delivery_loop_outcome [of i meta 1 w1 E] c s by (simp add: outcome_def)
    then show ?thesis using ex Inr c by (simp add: DeliveryWorkflow_def)
  qed
qed

text \<open>
  C2. A run of the delivery workflow that completes has delivered or has left an issue: whatever
  Postgres, Temporal and the destination did on the way, either one of the run's own calls ended
  in a 2xx answer and the event has no open issue, or the event has an open issue that records
  at least the number of attempts configured for its connection.  The request that got the 2xx
  answer was a POST with the body of the first one, unless the call had been redirected by a
  301, 302 or 303 on the way.
\<close>

theorem workflow_completed:
  assumes "fst (DeliveryWorkflow E i w) = Inr ()"
  shows "\<exists>c. config_of E i (tbl (w_db w)) = Some c \<and>
    (let w' = snd (DeliveryWorkflow E i w)
     in (\<exists>n \<ge> length (w_sent w). succeeded (w_sent w') n \<and> ended_well (w_sent w' ! n)) \<and> \<not> open_issue_for i (tbl (w_db w'))
        \<or> exhausted_issue i (conn_retry_attempts c) (tbl (w_db w')))"
proof -
  obtain c where c: "config_of E i (tbl (w_db w)) = Some c"
    and o: "outcome i (conn_retry_attempts c) 1 w (DeliveryWorkflow E i w)"
    using DeliveryWorkflow_outcome [of E i w] assms by (auto split: option.splits)
  from c outcome_done [OF o assms] show ?thesis by (auto simp: Let_def)
qed

lemma demo_completes: "fst (DeliveryWorkflow (demo_env [500, 503, 200]) 7 demo_worker) = Inr ()"
  by code_simp

theorem workflow_completed_witness:
  "\<exists>c. config_of (demo_env [500, 503, 200]) 7 (tbl (w_db demo_worker)) = Some c \<and>
    (let w' = snd (DeliveryWorkflow (demo_env [500, 503, 200]) 7 demo_worker)
     in (\<exists>n \<ge> length (w_sent demo_worker). succeeded (w_sent w') n \<and> ended_well (w_sent w' ! n))
          \<and> \<not> open_issue_for 7 (tbl (w_db w'))
        \<or> exhausted_issue 7 (conn_retry_attempts c) (tbl (w_db w')))"
  by (rule workflow_completed [OF demo_completes])

text \<open>
  A run never makes more calls than the connection's number of attempts, each of at most ten
  requests, redirects included, and never another one after a call that ended in a 2xx answer.
\<close>

lemma workflow_calls:
  "\<exists>new. w_sent (snd (DeliveryWorkflow E i w)) = w_sent w @ new
     \<and> length new \<le> (case config_of E i (tbl (w_db w)) of None \<Rightarrow> 0 | Some c \<Rightarrow> nat (conn_retry_attempts c))
     \<and> (\<forall>c \<in> set new. length (call_hops c) \<le> 10)
     \<and> (\<forall>k. Suc k < length new \<longrightarrow>
          \<not> succeeded (w_sent (snd (DeliveryWorkflow E i w))) (length (w_sent w) + k))"
  using DeliveryWorkflow_outcome [of E i w] by (auto simp: outcome_def post_call_short split: option.splits)

text \<open>
  C7. A run keeps the invariants of the database, leaves events and connections as they were, and
  makes only faithful calls: each starts with a POST to the destination of the event's connection
  with the stored payload, opened, and the provider's event id; every further request goes where
  the answer before it redirected to, as the same POST with the same payload, or, after a 301, 302
  or 303, as a GET without a body; and a call has at most ten requests.  The run makes at most as
  many calls as the connection configures attempts, and none after one that ended in a 2xx answer.
\<close>

theorem workflow_faithful:
  assumes "app_inv (tbl (w_db w))"
  shows "let w' = snd (DeliveryWorkflow E i w)
     in app_inv (tbl (w_db w')) \<and> same_events (tbl (w_db w)) (tbl (w_db w'))
        \<and> (\<exists>new. w_sent w' = w_sent w @ new
             \<and> (\<forall>call \<in> set new. faithful E i (tbl (w_db w)) call \<and> length (call_hops call) \<le> 10)
             \<and> length new \<le> (case config_of E i (tbl (w_db w)) of None \<Rightarrow> 0 | Some c \<Rightarrow> nat (conn_retry_attempts c))
             \<and> (\<forall>k. Suc k < length new \<longrightarrow> \<not> succeeded (w_sent w') (length (w_sent w) + k)))"
proof -
  let ?w = "snd (DeliveryWorkflow E i w)"
  have "run_ok E i w ?w" using DeliveryWorkflow_keeps [of E i w] run_ok_refl [OF assms] by (simp add: keeps_run_def)
  then have "app_inv (tbl (w_db ?w)) \<and> same_events (tbl (w_db w)) (tbl (w_db ?w))"
    and "\<exists>new. w_sent ?w = w_sent w @ new \<and> (\<forall>call \<in> set new. faithful E i (tbl (w_db w)) call)"
    by (simp_all add: run_ok_def)
  moreover obtain new where "w_sent ?w = w_sent w @ new"
     "length new \<le> (case config_of E i (tbl (w_db w)) of None \<Rightarrow> 0 | Some c \<Rightarrow> nat (conn_retry_attempts c))"
     "\<forall>c \<in> set new. length (call_hops c) \<le> 10"
     "\<forall>k. Suc k < length new \<longrightarrow> \<not> succeeded (w_sent ?w) (length (w_sent w) + k)"
    using workflow_calls [of E i w] by blast
  ultimately show ?thesis unfolding Let_def by (metis same_append_eq)
qed

lemma demo_inv: "app_inv (tbl (w_db demo_worker))"
proof -
  have "connection_check demo_connection" by code_simp
  then show ?thesis
    by (simp add: app_inv_def wf_defs issue_matches_event_def issue_status_ok_def empty_tables_def demo_worker_def
        demo_db_def keys_def) (simp add: demo_event_def demo_connection_def)
qed

theorem workflow_faithful_witness:
  "let E = demo_env [500, 503, 200]; w' = snd (DeliveryWorkflow E 7 demo_worker)
   in app_inv (tbl (w_db w')) \<and> same_events (tbl (w_db demo_worker)) (tbl (w_db w')) \<and> length (w_sent w') = 3
      \<and> (\<forall>call \<in> set (w_sent w'). faithful E 7 (tbl (w_db demo_worker)) call) \<and> \<not> succeeded (w_sent w') 1"
proof -
  have l: "length (w_sent (snd (DeliveryWorkflow (demo_env [500, 503, 200]) 7 demo_worker))) = 3" and e: "w_sent demo_worker = []"
    by code_simp+
  have "Suc 1 < length (w_sent (snd (DeliveryWorkflow (demo_env [500, 503, 200]) 7 demo_worker)))" by (simp add: l)
  with workflow_faithful [OF demo_inv, of "demo_env [500, 503, 200]" 7] l show ?thesis
    unfolding Let_def e append_Nil list.size(3) add_0 by blast
qed

section \<open>An undisturbed run completes\<close>


lemma demo_quiet:
  "quiet (demo_env codes) 7
     \<lparr>ev_id = 7, ev_connection_id = 1, ev_provider_event_id = ''evt_1'', ev_raw_headers = ''{}'',
      ev_raw_payload = ''hello'', ev_received_at = 0, ev_workflow_id = None\<rparr> demo_connection demo_worker"
proof -
  have "connection_check demo_connection" by code_simp
  then show ?thesis
    by (simp add: quiet_def quiet_store_def fresh_issue_ids_def slot_free_def scanEvent_def openEventFields_def
        NewConnectionSemaphores_def empty_tables_def find_by_Cons inj_on_def demo_worker_def demo_db_def demo_env_def)
       (simp add: demo_event_def demo_connection_def)
qed



section \<open>Redirects\<close>

lemma client_Do_redirected:
  assumes "\<forall>q. hn_answer N 0 q = Response code loc" "code \<in> {301, 302, 303}" "loc \<noteq> []"
    and "hn_resolve N (req_url req) loc = Some u" "\<forall>q. hn_answer N 1 q = Response code' loc'" "success_code code'"
    and "req_method req = ''POST''"
  shows "\<exists>r. client_Do N req = \<lparr>call_hops = [(req, Response code loc), (r, Response code' loc')], call_reply = Status code'\<rparr>
     \<and> req_body r = []"
proof -
  have b: "redirectBehavior ''POST'' code = Some (''GET'', False)" "redirectBehavior ''GET'' code' = None"
    using assms(2,6) by (auto simp: redirectBehavior_def success_code_def)
  let ?r = "redirect_request N req req ''GET'' u False"
  have "req_method ?r = ''GET''" "req_body ?r = []" by (simp_all add: redirect_request_def)
  moreover have "client_Do N req = follow N req False ?r [(req, Response code loc)]"
    unfolding client_Do_def using assms b by (subst follow.simps) (simp add: Let_def)
  moreover have "follow N req False ?r [(req, Response code loc)] =
      \<lparr>call_hops = [(req, Response code loc), (?r, Response code' loc')], call_reply = Status code'\<rparr>"
    using assms b \<open>req_method ?r = ''GET''\<close> by (subst follow.simps) (simp add: Let_def)
  ultimately show ?thesis by auto
qed

text \<open>
  C25. A redirect loses the event: when the destination answers the POST with a 301, 302 or 303 and
  the page it points to can be fetched, the run ends after one attempt as delivered, with no
  open issue, although every request that carried the payload got the redirect for an answer.
\<close>

theorem redirect_loses_event:
  assumes q: "quiet E i ev c w" and N: "N = net E (length (w_sent w))"
    and "\<forall>q. hn_answer N 0 q = Response code loc" "code \<in> {301, 302, 303}" "loc \<noteq> []"
    and "hn_resolve N (conn_destination_url c) loc = Some u" "\<forall>q. hn_answer N 1 q = Response code' loc'" "success_code code'"
  shows "let w' = snd (DeliveryWorkflow E i w)
     in fst (DeliveryWorkflow E i w) = Inr () \<and> \<not> open_issue_for i (tbl (w_db w'))
        \<and> (\<exists>call. w_sent w' = w_sent w @ [call]
             \<and> (\<forall>h \<in> set (call_hops call). req_body (fst h) \<noteq> [] \<longrightarrow> snd h = Response code loc))"
proof -
  let ?w1 = "w\<lparr>w_acts := Suc (w_acts w)\<rparr>"
  let ?meta = "\<lparr>meta_retry_attempts = conn_retry_attempts c, meta_retry_first_delay_s = conn_retry_first_delay_s c,
    meta_retry_backoff_factor = conn_retry_backoff_factor c\<rparr>"
  have st: "quiet_store E i ev c (w_db w)" using q by (simp add: quiet_def)
  have att: "1 \<le> conn_retry_attempts c" using st by (auto simp: quiet_store_def connection_check_def)
  have q1: "quiet E i ev c ?w1" "quiet E i ev c (?w1\<lparr>w_acts := Suc (w_acts ?w1)\<rparr>)" using q by simp_all
  obtain r w2 where d: "ExecuteActivity E (DeliverActivity E i 1) ?w1 = (Inr r, w2)" and q2: "quiet E i ev c w2"
    and "\<exists>did. w_sent w2 = w_sent w @ [client_Do N (delivery_request E ev c 1 did)]"
    using DeliverActivity_quiet [OF q1(2), of 1] Execute_quiet [OF q1(1)] N by (metis (no_types, lifting) worker.select_convs(4) worker.update_convs(7) worker.surjective)
  then obtain did where s2: "w_sent w2 = w_sent w @ [client_Do N (delivery_request E ev c 1 did)]" by blast
  obtain r' where call: "client_Do N (delivery_request E ev c 1 did) =
      \<lparr>call_hops = [(delivery_request E ev c 1 did, Response code loc), (r', Response code' loc')], call_reply = Status code'\<rparr>"
    "req_body r' = []"
    using client_Do_redirected [OF assms(3-5) _ assms(7,8), of "delivery_request E ev c 1 did" u] assms(6)
    by (auto simp: delivery_request_def)
  have "succeeded (w_sent w2) (length (w_sent w))" using assms(8) by (simp add: succeeded_def s2 call)
  then have ok: "dr_success r" using Execute_deliver_posts [OF d] by (auto simp: posts_def)
  let ?res = "ExecuteActivity E (RecordDelivered i) w2"
  have run: "DeliveryWorkflow E i w = ?res"
    using att ok d
    by (simp add: DeliveryWorkflow_def Execute_quiet [OF q] LoadEventMeta_def quiet_reads [OF st]) (subst delivery_loop.simps, simp)
  obtain x w3 where x: "?res = (x, w3)" by fastforce
  have f: "x = Inr ()" using RecordDelivered_quiet(1) [OF q2, of i] x by simp
  have "\<not> open_issue_for i (tbl (w_db w3))"
    using ExecuteActivity_InrD [OF x [unfolded f]] by (rule RecordDelivered_resolved)
  moreover have "w_sent w3 = w_sent w2" using recording_Execute(1) [of E i w2] x by simp
  ultimately show ?thesis unfolding run x Let_def using f s2 call by auto
qed

definition demo_moved :: env where
  "demo_moved = (demo_env [])\<lparr>net := (\<lambda>_. \<lparr>hn_answer = (\<lambda>k _. if k = 0 then Response 302 ''http://d/login'' else Response 200 []),
     hn_resolve = (\<lambda>_ loc. Some loc), hn_referer = (\<lambda>u _. u), hn_error = (\<lambda>_ m. m)\<rparr>)\<rparr>"

lemma demo_moved_quiet:
  "quiet demo_moved 7
     \<lparr>ev_id = 7, ev_connection_id = 1, ev_provider_event_id = ''evt_1'', ev_raw_headers = ''{}'',
      ev_raw_payload = ''hello'', ev_received_at = 0, ev_workflow_id = None\<rparr> demo_connection demo_worker"
  using demo_quiet [of "[]"] by (simp add: quiet_def quiet_store_def demo_moved_def demo_env_def)

theorem redirect_loses_event_witness:
  "fst (DeliveryWorkflow demo_moved 7 demo_worker) = Inr ()
   \<and> (\<exists>call. w_sent (snd (DeliveryWorkflow demo_moved 7 demo_worker)) = [call]
        \<and> (\<forall>h \<in> set (call_hops call). req_body (fst h) \<noteq> [] \<longrightarrow> snd h = Response 302 ''http://d/login''))"
proof -
  have "w_sent demo_worker = []" by (simp add: demo_worker_def)
  with redirect_loses_event [OF demo_moved_quiet refl, of 302 "''http://d/login''" "''http://d/login''" 200 "[]"] show ?thesis
    by (simp add: Let_def demo_moved_def success_code_def)
qed

section \<open>The retry schedule\<close>

lemma backoff_float:
  assumes "0 < k" and "0 < f" and "f * k ^ n \<le> 2 ^ 53"
  shows "((\<lambda>x. fmul x (of_int k)) ^^ n) (float_of_int f) = of_int (f * k ^ n)"
  using assms(3)
proof (induction n)
  case 0
  then show ?case using assms f64_of_int [of f] by (simp add: float_of_int_def)
next
  case (Suc n)
  have "f * k ^ n * 1 \<le> f * k ^ n * k" using assms(1,2) by (intro mult_left_mono) auto
  also have "\<dots> = f * k ^ Suc n" by simp
  finally have "f * k ^ n \<le> 2 ^ 53" using Suc.prems by simp
  note IH = Suc.IH [OF this]
  have "f64 (of_int (f * k ^ Suc n)) = of_int (f * k ^ Suc n)"
    using Suc.prems assms(1,2) by (intro f64_of_int) simp
  then show ?case using IH by (simp add: fmul_def mult.assoc mult.commute [of "of_int k"])
qed

text \<open>
  C29. With a whole-number factor the delay before attempt \<open>a + 1\<close> is the first delay times the
  factor to the power \<open>a - 1\<close>, as Go's \<^verbatim>\<open>time.Duration\<close> holds it: exactly while it is below some 292
  years, since neither the float multiplications nor the conversion lose anything, and wrapped
  around beyond.  With the default schedule of one minute doubled at each attempt the 29th
  delay is negative, so the workflow does not wait at all.
\<close>

theorem backoff_wraps:
  assumes "0 < k" and "0 < f" and "f * k ^ nat (a - 1) \<le> 2 ^ 53"
  shows "backoff conv f (of_int k) a = wrap64 (f * k ^ nat (a - 1) * Second)
     \<and> (f * k ^ nat (a - 1) * Second < 2 ^ 63 \<longrightarrow> backoff conv f (of_int k) a = f * k ^ nat (a - 1) * Second)"
proof -
  let ?d = "f * k ^ nat (a - 1)"
  have d: "0 < ?d" using assms by simp
  have "trunc_rat (of_int ?d) = ?d" using d unfolding trunc_rat_def by (simp del: of_int_mult of_int_power)
  moreover have "in_int64 ?d" using d assms(3) by (auto simp: in_int64_def)
  ultimately have "backoff conv f (of_int k) a = wrap64 (?d * Second)"
    using backoff_float [OF assms] by (simp add: backoff_def int64_of_float_def del: of_int_mult of_int_power)
  moreover have "wrap64 (?d * Second) = ?d * Second" if "?d * Second < 2 ^ 63"
    using that d by (intro wrap64_id) (auto simp: in_int64_def)
  ultimately show ?thesis by simp
qed

theorem backoff_wraps_witness:
  "backoff (\<lambda>_. 0) 60 (of_int 2) 5 = 960 * Second \<and> backoff (\<lambda>_. 0) 60 (of_int 2) 29 < 0"
  using backoff_wraps [of 2 60 5 "\<lambda>_. 0"] backoff_wraps [of 2 60 29 "\<lambda>_. 0"] by (simp add: wrap64_def)

section \<open>Replays\<close>

text \<open>
  A replay starts the same workflow again, so its attempts count from 1 again.  Where the rows
  of the first run are still there, none of the replay's deliveries is recorded.
\<close>

definition attempts_recorded :: "uuid \<Rightarrow> int \<Rightarrow> tables \<Rightarrow> bool" where
  "attempts_recorded i n t \<longleftrightarrow> (\<forall>a \<in> {1 .. n}. (i, a) \<in> set (keys delivery_key (deliveries t)))"

lemma RecordIssue_store_deliveries: "preserves (\<lambda>t. deliveries t = D) (RecordIssue_store n)"
  unfolding RecordIssue_store_def
  by (rule preserves_pool) (auto simp: record_issue_stmt_def Let_def split_beta split: option.splits)

lemma ResolveIssueByEventID_deliveries: "preserves (\<lambda>t. deliveries t = D) (ResolveIssueByEventID i)"
  unfolding ResolveIssueByEventID_def by (rule preserves_pool) auto

lemma RecordDelivery_duplicate:
  "delivery_key r \<in> set (keys delivery_key D) \<Longrightarrow> preserves (\<lambda>t. deliveries t = D) (RecordDelivery r)"
  unfolding RecordDelivery_def
  by (rule preserves_pool) (auto simp: Let_def split_beta delivery_key_def)

abbreviation rows_of :: "worker \<Rightarrow> Delivery list" where
  "rows_of w \<equiv> deliveries (tbl (w_db w))"

lemma record_delivery_rows:
  "(e, a) \<in> set (keys delivery_key (rows_of w)) \<Longrightarrow> rows_of (record_delivery_ignored e a s c l w) = rows_of w"
  using preservesD [OF RecordDelivery_duplicate [of _ "rows_of w"], of _ "w_db w"]
  by (simp add: record_delivery_ignored_def delivery_key_def)

lemma noteOpenIssue_rows [simp]: "rows_of (noteOpenIssue E ev a r w) = rows_of w"
  using preservesD [OF RecordIssue_store_deliveries [of "rows_of w"], of "w_db w"] by (simp add: noteOpenIssue_def)

lemma deliver_locked_rows:
  "(i, a) \<in> set (keys delivery_key (rows_of w)) \<Longrightarrow> rows_of (snd (deliver_locked E i ev c a w)) = rows_of w"
  by (auto simp: deliver_locked_def Let_def record_delivery_rows
      split: option.splits prod.splits do_reply.splits)

lemma DeliverActivity_rows:
  assumes "(i, a) \<in> set (keys delivery_key (rows_of w))"
  shows "rows_of (snd (DeliverActivity E i a w)) = rows_of w"
proof -
  have "rows_of w' = rows_of w"
    if "deliver_locked E i ev c a (w\<lparr>w_db := d, w_sems := s\<rparr>) = (r, w')" "tbl d = tbl (w_db w)" for ev c d s r w'
    using deliver_locked_rows [of i a "w\<lparr>w_db := d, w_sems := s\<rparr>" E ev c] that assms by simp
  then show ?thesis
    by (auto simp: DeliverActivity_def split: prod.splits sum.splits option.splits acquired.splits
        dest!: GetEvent_tbl GetConnection_tbl)
qed

lemma ExecuteActivity_rows:
  "(\<And>v. rows_of v = rows_of w \<Longrightarrow> rows_of (snd (act v)) = rows_of w) \<Longrightarrow>
   rows_of (snd (ExecuteActivity E act w)) = rows_of w"
  by (simp add: ExecuteActivity_def Let_def split: act_fate.splits)

lemma recording_rows:
  "rows_of (snd (ExecuteActivity E (RecordDelivered i) w)) = rows_of w"
  "rows_of (snd (ExecuteActivity E (RecordIssue E i n) w)) = rows_of w"
  "rows_of (snd (ExecuteActivity E (LoadEventMeta E i) w)) = rows_of w"
proof -
  have d: "rows_of (snd (RecordDelivered i v)) = rows_of v" for v
    using preserves_step [OF ResolveIssueByEventID_deliveries refl]
    by (auto simp: RecordDelivered_def split: prod.splits sum.splits)
  have i: "rows_of (snd (RecordIssue E i n v)) = rows_of v" for v
    using preserves_step [OF RecordIssue_store_deliveries refl]
    by (auto simp: RecordIssue_def split: prod.splits sum.splits option.splits dest!: GetEvent_tbl)
  have l: "rows_of (snd (LoadEventMeta E i v)) = rows_of v" for v
    by (auto simp: LoadEventMeta_def split: prod.splits sum.splits option.splits
        dest!: GetEvent_tbl GetConnection_tbl)
  show "rows_of (snd (ExecuteActivity E (RecordDelivered i) w)) = rows_of w"
    "rows_of (snd (ExecuteActivity E (RecordIssue E i n) w)) = rows_of w"
    "rows_of (snd (ExecuteActivity E (LoadEventMeta E i) w)) = rows_of w"
    by (rule ExecuteActivity_rows, simp add: d i l)+
qed

lemma delivery_loop_rows:
  assumes "attempts_recorded i (meta_retry_attempts meta) (tbl (w_db w))" and "1 \<le> a"
  shows "rows_of (snd (delivery_loop E i meta a w)) = rows_of w"
proof -
  let ?Q = "\<lambda>a w res. attempts_recorded i (meta_retry_attempts meta) (tbl (w_db w)) \<and> 1 \<le> a \<longrightarrow>
      rows_of (snd res) = rows_of w"
  have step: "rows_of w1 = rows_of w"
    if "ExecuteActivity E (DeliverActivity E i a) w = (r, w1)" "1 \<le> a" "a \<le> meta_retry_attempts meta"
      "attempts_recorded i (meta_retry_attempts meta) (tbl (w_db w))" for a w r w1
    using ExecuteActivity_rows [of w "DeliverActivity E i a" E] DeliverActivity_rows [of i a _ E] that
    by (auto simp: attempts_recorded_def)
  have "?Q a w (delivery_loop E i meta a w)"
  proof (rule delivery_loop_induct [where Q = ?Q], goal_cases exhausted lost delivered retry)
    case (exhausted a w)
    then show ?case by (simp add: recording_rows)
  next
    case (lost a w e w1)
    then show ?case using step by auto
  next
    case (delivered a w r w1)
    then show ?case using step by (auto simp: recording_rows)
  next
    case (retry a w r w1 res)
    then show ?case using step [OF retry(2)] by (auto simp: attempts_recorded_def)
  qed
  with assms show ?thesis by blast
qed

text \<open>
  C27. A replay of an event whose attempts are all on record leaves the table of deliveries as it
  is, whatever the destination answers: the insert violates the uniqueness of event and attempt
  number and its error is dropped.
\<close>

theorem replay_not_recorded:
  assumes "config_of E i (tbl (w_db w)) = Some c"
    and "attempts_recorded i (conn_retry_attempts c) (tbl (w_db w))"
  shows "deliveries (tbl (w_db (snd (DeliveryWorkflow E i w)))) = deliveries (tbl (w_db w))"
proof -
  obtain r w1 where ex: "ExecuteActivity E (LoadEventMeta E i) w = (r, w1)" by fastforce
  have rows: "rows_of w1 = rows_of w" using recording_rows(3) [of E i w] ex by simp
  show ?thesis
  proof (cases r)
    case (Inl e)
    with ex rows show ?thesis by (simp add: DeliveryWorkflow_def)
  next
    case (Inr meta)
    with LoadEventMeta_InrD [OF ExecuteActivity_InrD [OF ex [unfolded Inr]]] assms(1)
    have "meta_retry_attempts meta = conn_retry_attempts c" by (auto simp: config_of_def)
    then have "rows_of (snd (delivery_loop E i meta 1 w1)) = rows_of w1"
      using assms(2) rows by (intro delivery_loop_rows) (simp_all add: attempts_recorded_def)
    with ex Inr rows show ?thesis by (simp add: DeliveryWorkflow_def)
  qed
qed

text \<open>The witness: three failing attempts, then a replay that the destination accepts.\<close>

definition demo_after :: worker where
  "demo_after = snd (DeliveryWorkflow (demo_env [500, 500, 500]) 7 demo_worker)"

lemma demo_replay_delivers:
  "succeeded
     (w_sent (snd (DeliveryWorkflow (demo_env [500, 500, 500, 200]) 7 demo_after))) 3"
  by code_simp

theorem replay_not_recorded_witness:
  "deliveries (tbl (w_db (snd (DeliveryWorkflow (demo_env [500, 500, 500, 200]) 7 demo_after))))
     = deliveries (tbl (w_db demo_after))
   \<and> succeeded
       (w_sent (snd (DeliveryWorkflow (demo_env [500, 500, 500, 200]) 7 demo_after))) 3"
proof (intro conjI demo_replay_delivers, rule replay_not_recorded)
  show "config_of (demo_env [500, 500, 500, 200]) 7 (tbl (w_db demo_after)) = Some demo_connection"
    by code_simp
  have "keys delivery_key (deliveries (tbl (w_db demo_after))) = [(7, 1), (7, 2), (7, 3)]"
    by code_simp
  moreover have "{1 .. conn_retry_attempts demo_connection} = {1, 2, 3}"
    by (auto simp: demo_connection_def)
  ultimately show "attempts_recorded 7 (conn_retry_attempts demo_connection) (tbl (w_db demo_after))"
    by (simp add: attempts_recorded_def)
qed

section \<open>Semaphores\<close>

text \<open>
  The semaphores as a machine driven by calls, from any number of activities, in any order, with
  the connections of the deliveries that are in flight beside them: a delivery starts when
  \<^verbatim>\<open>acquire\<close> returns, and releases its slot when it ends.
\<close>

datatype sem_call = Acq uuid | Rel uuid

fun sem_step :: "sem_call \<Rightarrow> sems \<times> uuid list \<Rightarrow> sems \<times> uuid list" where
  "sem_step (Acq c) (s, flying) =
     (case acquire c s of Acquired s' \<Rightarrow> (s', c # flying) | Blocks s' \<Rightarrow> (s', flying) | Panics \<Rightarrow> (s, flying))"
| "sem_step (Rel c) (s, flying) = (if c \<in> set flying then (release c s, remove1 c flying) else (s, flying))"

definition taken :: "uuid \<Rightarrow> sems \<Rightarrow> nat" where
  "taken c s = (case sem_held s c of None \<Rightarrow> 0 | Some n \<Rightarrow> n)"

definition sem_inv :: "int \<Rightarrow> sems \<times> uuid list \<Rightarrow> bool" where
  "sem_inv limit x \<longleftrightarrow> sem_limit (fst x) = limit
     \<and> (\<forall>c. taken c (fst x) = count_list (snd x) c \<and> int (count_list (snd x) c) \<le> max 0 limit)"

lemma acquire_taken:
  "acquire c s = Acquired s' \<Longrightarrow> sem_limit s' = sem_limit s \<and> int (taken c s) < sem_limit s
     \<and> (\<forall>d. taken d s' = (if d = c then Suc (taken c s) else taken d s))"
  "acquire c s = Blocks s' \<Longrightarrow> sem_limit s' = sem_limit s \<and> (\<forall>d. taken d s' = taken d s)"
  by (auto simp: acquire_def taken_def split: option.splits if_splits)

lemma release_taken: "sem_limit (release c s) = sem_limit s" "taken d (release c s) = (if d = c then taken c s - 1 else taken d s)"
  by (auto simp: release_def taken_def split: option.splits nat.splits)

interpretation sem_machine: inv_machine sem_step "sem_inv limit"
proof
  fix x l
  assume inv: "sem_inv limit x"
  obtain s flying where x: "x = (s, flying)" by fastforce
  show "sem_inv limit (sem_step l x)"
  proof (cases l)
    case (Acq c)
    with inv x show ?thesis
      by (cases "acquire c s") (auto simp: sem_inv_def dest: acquire_taken)
  next
    case (Rel c)
    with inv x show ?thesis
      by (auto simp: sem_inv_def release_taken count_list_remove1) (meson diff_le_self int_ops(1) of_nat_mono order_trans)
  qed
qed

lemma sem_inv_new: "sem_inv limit (NewConnectionSemaphores limit, [])"
  by (simp add: sem_inv_def NewConnectionSemaphores_def taken_def)

text \<open>
  C26. However the calls of concurrent activities interleave, a connection never has more
  deliveries in flight than the limit, and a further one gets a slot exactly while it has fewer;
  in particular with a limit of zero, which is what an unreadable configuration value yields, no
  activity ever gets a slot.
\<close>

theorem semaphores_bounded:
  "let (s, flying) = fold sem_step calls (NewConnectionSemaphores limit, [])
   in \<forall>c. int (count_list flying c) \<le> max 0 limit
      \<and> ((\<exists>s'. acquire c s = Acquired s') \<longleftrightarrow> int (count_list flying c) < limit)"
proof -
  obtain s flying where f: "fold sem_step calls (NewConnectionSemaphores limit, []) = (s, flying)" by fastforce
  have inv: "sem_inv limit (s, flying)"
    using sem_machine.run_inv [OF sem_inv_new, of limit calls] f by simp
  have "(\<exists>s'. acquire c s = Acquired s') \<longleftrightarrow> int (taken c s) < sem_limit s" for c
    by (auto simp: acquire_def taken_def split: option.splits)
  with inv show ?thesis by (simp add: f sem_inv_def)
qed

end
