(* ===== verification/Json.thy ===== *)
theory Json
  imports GoStrings "HOL-Library.Char_ord" "HOL-Library.List_Lexorder"
begin

text \<open>
  What the sources use of \<^verbatim>\<open>encoding/json\<close> for writing: \<^verbatim>\<open>json.Marshal\<close> of maps, slices, strings,
  whole numbers and booleans.  Maps are written in the order of their keys; strings are quoted
  with the HTML-safe escapes.
\<close>

datatype json =
    JNull
  | JBool bool
  | JNum int
  | JStr string
  | JArr "json list"
  | JObj "(string \<times> json) list"

definition hex4 :: "nat \<Rightarrow> string" where
  "hex4 n = [CHR 0x5C, CHR ''u'', hex_digit (n div 4096 mod 16), hex_digit (n div 256 mod 16),
             hex_digit (n div 16 mod 16), hex_digit (n mod 16)]"

text \<open>A byte below 0x80.\<close>

definition quote_ascii :: "char \<Rightarrow> string" where
  "quote_ascii c =
     (let n = (of_char c :: nat)
      in if c = CHR 0x5C \<or> c = CHR 0x22 then [CHR 0x5C, c]
         else if n = 0x08 then [CHR 0x5C, CHR ''b'']
         else if n = 0x0C then [CHR 0x5C, CHR ''f'']
         else if n = 0x0A then [CHR 0x5C, CHR ''n'']
         else if n = 0x0D then [CHR 0x5C, CHR ''r'']
         else if n = 0x09 then [CHR 0x5C, CHR ''t'']
         else if n < 0x20 \<or> c = CHR ''<'' \<or> c = CHR ''>'' \<or> c = CHR ''&'' then hex4 n
         else [c])"

text \<open>
  A string rune by rune: bytes that are not valid UTF-8 become U+FFFD, the line and paragraph
  separators are escaped.
\<close>

function quote_runes :: "string \<Rightarrow> string" where
  "quote_runes s =
     (if s = [] then []
      else let n = rune_len (map of_char s)
           in if n = 0 then hex4 0xFFFD @ quote_runes (tl s)
              else if n = 1 then quote_ascii (hd s) @ quote_runes (tl s)
              else if take 3 s = [CHR 0xE2, CHR 0x80, CHR 0xA8] then hex4 0x2028 @ quote_runes (drop 3 s)
              else if take 3 s = [CHR 0xE2, CHR 0x80, CHR 0xA9] then hex4 0x2029 @ quote_runes (drop 3 s)
              else take n s @ quote_runes (drop n s))"
  by pat_completeness auto
termination
  by (relation "measure length") (auto simp: neq_Nil_conv)

declare quote_runes.simps [simp del]

definition quote :: "string \<Rightarrow> string" where
  "quote s = [CHR 0x22] @ quote_runes s @ [CHR 0x22]"

primrec join :: "string \<Rightarrow> string list \<Rightarrow> string" where
  "join sep [] = []"
| "join sep (x # xs) = x @ concat (map (\<lambda>y. sep @ y) xs)"

fun marshal :: "json \<Rightarrow> string" where
  "marshal JNull = ''null''"
| "marshal (JBool b) = (if b then ''true'' else ''false'')"
| "marshal (JNum n) = itoa n"
| "marshal (JStr s) = quote s"
| "marshal (JArr xs) = ''['' @ join '','' (map marshal xs) @ '']''"
| "marshal (JObj kvs) =
     ''{'' @ join '','' (map (\<lambda>(k, v). quote k @ '':'' @ v) (sort_key fst (map (\<lambda>(k, v). (k, marshal v)) kvs))) @ ''}''"

text \<open>A struct is written in the order of its fields; the caller leaves out the \<^verbatim>\<open>omitempty\<close> fields that are empty.\<close>

definition marshal_struct :: "(string \<times> json) list \<Rightarrow> string" where
  "marshal_struct kvs = ''{'' @ join '','' (map (\<lambda>(k, v). quote k @ '':'' @ marshal v) kvs) @ ''}''"

text \<open>Quoting keeps printable ASCII without markup as it is.\<close>

definition plain_char :: "char \<Rightarrow> bool" where
  "plain_char c \<longleftrightarrow> 0x20 \<le> (of_char c :: nat) \<and> (of_char c :: nat) < 0x80
     \<and> c \<notin> {CHR 0x22, CHR 0x5C, CHR ''<'', CHR ''>'', CHR ''&''}"

lemma quote_ascii_plain: "plain_char c \<Longrightarrow> quote_ascii c = [c]"
  by (auto simp: plain_char_def quote_ascii_def Let_def)

lemma quote_runes_plain: "list_all plain_char s \<Longrightarrow> quote_runes s = s"
proof (induction s)
  case Nil
  then show ?case by (simp add: quote_runes.simps)
next
  case (Cons c s)
  then have "plain_char c" by simp
  then have "rune_len (map of_char (c # s)) = 1" by (simp add: plain_char_def)
  with Cons show ?case by (subst quote_runes.simps) (simp add: Let_def quote_ascii_plain)
qed

lemma quote_plain: "list_all plain_char s \<Longrightarrow> quote s = [CHR 0x22] @ s @ [CHR 0x22]"
  by (simp add: quote_def quote_runes_plain)

end
