(* ===== verification/JsonRead.thy ===== *)
theory JsonRead
  imports Json Float64
begin

text \<open>
  What the sources use of \<^verbatim>\<open>encoding/json\<close> for reading: \<^verbatim>\<open>json.Unmarshal\<close> and \<^verbatim>\<open>Decoder.Decode\<close> into
  structs of strings, numbers, booleans, pointers to these and slices of strings.  The
  scanner's stack of open arrays and objects is explicit, with its limit of 10000; strings are
  unquoted as \<^verbatim>\<open>unquoteBytes\<close> does.  Reading what \<open>marshal\<close> wrote gives the value back.
\<close>

section \<open>Values\<close>

text \<open>A number is kept as its literal, as \<^verbatim>\<open>literalStore\<close> gets it.\<close>

datatype jval =
    VNull
  | VBool bool
  | VNum string
  | VStr string
  | VArr "jval list"
  | VObj "(string \<times> jval) list"

section \<open>Tokens\<close>

definition ordc :: "char \<Rightarrow> nat" where
  "ordc c = of_char c"

definition is_space :: "char \<Rightarrow> bool" where
  "is_space c \<longleftrightarrow> c = CHR '' '' \<or> c = CHR 0x09 \<or> c = CHR 0x0D \<or> c = CHR 0x0A"

definition is_digit :: "char \<Rightarrow> bool" where
  "is_digit c \<longleftrightarrow> 48 \<le> ordc c \<and> ordc c \<le> 57"

definition rune_error :: string where
  "rune_error = [CHR 0xEF, CHR 0xBF, CHR 0xBD]"

text \<open>\<^verbatim>\<open>utf8.AppendRune\<close>.\<close>

definition encode_rune :: "nat \<Rightarrow> string" where
  "encode_rune r =
     (if r < 0x80 then [char_of r]
      else if r < 0x800 then [char_of (0xC0 + r div 64), char_of (0x80 + r mod 64)]
      else if 0xD800 \<le> r \<and> r < 0xE000 \<or> 0x110000 \<le> r then rune_error
      else if r < 0x10000 then [char_of (0xE0 + r div 4096), char_of (0x80 + r div 64 mod 64), char_of (0x80 + r mod 64)]
      else [char_of (0xF0 + r div 262144), char_of (0x80 + r div 4096 mod 64), char_of (0x80 + r div 64 mod 64),
            char_of (0x80 + r mod 64)])"

text \<open>\<^verbatim>\<open>getu4\<close>: the four hexadecimal digits of an escape.\<close>

fun getu4 :: "string \<Rightarrow> nat option" where
  "getu4 (a # b # c # d # _) =
     (case (hex_value a, hex_value b, hex_value c, hex_value d) of
        (Some w, Some x, Some y, Some z) \<Rightarrow> Some (4096 * w + 256 * x + 16 * y + z)
      | _ \<Rightarrow> None)"
| "getu4 _ = None"

text \<open>The rune of an escape whose first unit is \<open>u\<close>, and what follows it: a valid pair is taken whole.\<close>

definition surrogate_pair :: "nat \<Rightarrow> string \<Rightarrow> nat option" where
  "surrogate_pair u s =
     (if 0xD800 \<le> u \<and> u < 0xDC00 \<and> has_prefix s [CHR 0x5C, CHR ''u''] then
        (case getu4 (drop 2 s) of
           Some v \<Rightarrow> if 0xDC00 \<le> v \<and> v < 0xE000 then Some ((u - 0xD800) * 1024 + (v - 0xDC00) + 0x10000) else None
         | None \<Rightarrow> None)
      else None)"

definition simple_escapes :: "(char \<times> char) list" where
  "simple_escapes =
     [(CHR 0x22, CHR 0x22), (CHR 0x5C, CHR 0x5C), (CHR ''/'', CHR ''/''), (CHR ''b'', CHR 0x08), (CHR ''f'', CHR 0x0C),
      (CHR ''n'', CHR 0x0A), (CHR ''r'', CHR 0x0D), (CHR ''t'', CHR 0x09)]"

text \<open>After a backslash: the bytes it stands for, and the rest.\<close>

definition unescape :: "string \<Rightarrow> (string \<times> string) option" where
  "unescape s =
     (case s of
        [] \<Rightarrow> None
      | c # r \<Rightarrow>
          (if c = CHR ''u'' then
             (case getu4 r of
                None \<Rightarrow> None
              | Some u \<Rightarrow>
                  (case surrogate_pair u (drop 4 r) of
                     Some x \<Rightarrow> Some (encode_rune x, drop 10 r)
                   | None \<Rightarrow> Some (encode_rune u, drop 4 r)))
           else map_option (\<lambda>x. ([x], r)) (map_of simple_escapes c)))"

lemma unescape_shorter: "unescape s = Some (t, r) \<Longrightarrow> length r < length s"
  by (auto simp: unescape_def split: list.splits if_splits option.splits)

text \<open>After the opening quote: the string, and what follows its closing quote.\<close>

function scan_string :: "string \<Rightarrow> (string \<times> string) option" where
  "scan_string s =
     (case s of
        [] \<Rightarrow> None
      | c # r \<Rightarrow>
          if c = CHR 0x22 then Some ([], r)
          else if c = CHR 0x5C then
            (case unescape r of
               None \<Rightarrow> None
             | Some (t, r') \<Rightarrow> map_option (\<lambda>(u, q). (t @ u, q)) (scan_string r'))
          else if ordc c < 0x20 then None
          else (let n = rune_len (map of_char s)
                in if n = 0 then map_option (\<lambda>(u, q). (rune_error @ u, q)) (scan_string r)
                   else map_option (\<lambda>(u, q). (take n s @ u, q)) (scan_string (drop n s))))"
  by pat_completeness auto
termination
  by (relation "measure length") (auto dest: unescape_shorter)

declare scan_string.simps [simp del]

text \<open>A number: sign, whole part, fraction and exponent.\<close>

definition int_part :: "string \<Rightarrow> (string \<times> string) option" where
  "int_part s =
     (case s of
        [] \<Rightarrow> None
      | c # r \<Rightarrow> if c = CHR ''0'' then Some ([c], r)
                else if is_digit c then Some (takeWhile is_digit s, dropWhile is_digit s) else None)"

definition digits1 :: "string \<Rightarrow> (string \<times> string) option" where
  "digits1 s = (if takeWhile is_digit s = [] then None else Some (takeWhile is_digit s, dropWhile is_digit s))"

definition frac_part :: "string \<Rightarrow> (string \<times> string) option" where
  "frac_part s =
     (case s of
        c # r \<Rightarrow> if c = CHR ''.'' then map_option (\<lambda>(d, q). (c # d, q)) (digits1 r) else Some ([], s)
      | [] \<Rightarrow> Some ([], s))"

definition exp_part :: "string \<Rightarrow> (string \<times> string) option" where
  "exp_part s =
     (case s of
        c # r \<Rightarrow>
          if c = CHR ''e'' \<or> c = CHR ''E'' then
            (case r of
               g # q \<Rightarrow> if g = CHR ''+'' \<or> g = CHR ''-'' then map_option (\<lambda>(d, t). (c # g # d, t)) (digits1 q)
                       else map_option (\<lambda>(d, t). (c # d, t)) (digits1 r)
             | [] \<Rightarrow> None)
          else Some ([], s)
      | [] \<Rightarrow> Some ([], s))"

definition scan_number :: "string \<Rightarrow> (string \<times> string) option" where
  "scan_number s =
     (let neg = has_prefix s ''-''
      in case int_part (if neg then tl s else s) of
           None \<Rightarrow> None
         | Some (i, r) \<Rightarrow>
             (case frac_part r of
                None \<Rightarrow> None
              | Some (f, q) \<Rightarrow>
                  (case exp_part q of
                     None \<Rightarrow> None
                   | Some (e, t) \<Rightarrow> Some ((if neg then ''-'' else []) @ i @ f @ e, t))))"

datatype json_token = OpenObj | CloseObj | OpenArr | CloseArr | Comma | Colon | Literal jval

definition next_token :: "string \<Rightarrow> (json_token \<times> string) option" where
  "next_token s0 =
     (let s = dropWhile is_space s0
      in case s of
           [] \<Rightarrow> None
         | c # r \<Rightarrow>
             if c = CHR ''{'' then Some (OpenObj, r)
             else if c = CHR ''}'' then Some (CloseObj, r)
             else if c = CHR ''['' then Some (OpenArr, r)
             else if c = CHR '']'' then Some (CloseArr, r)
             else if c = CHR '','' then Some (Comma, r)
             else if c = CHR '':'' then Some (Colon, r)
             else if c = CHR 0x22 then map_option (\<lambda>(t, q). (Literal (VStr t), q)) (scan_string r)
             else if has_prefix s ''null'' then Some (Literal VNull, drop 4 s)
             else if has_prefix s ''true'' then Some (Literal (VBool True), drop 4 s)
             else if has_prefix s ''false'' then Some (Literal (VBool False), drop 5 s)
             else map_option (\<lambda>(t, q). (Literal (VNum t), q)) (scan_number s))"

section \<open>The automaton\<close>

text \<open>
  What may come next (\<^verbatim>\<open>scanner.step\<close>) and the arrays and objects still open
  (\<^verbatim>\<open>scanner.parseState\<close>), with what they hold so far, newest first.
\<close>

datatype json_expect = AtValue | AtFirst | AtFirstKey | AtKey | AfterKey string | After jval

datatype json_frame = InArr "jval list" | InObj "(string \<times> jval) list" | InMember "(string \<times> jval) list" string

definition maxNestingDepth :: nat where
  "maxNestingDepth = 10000"

definition open_frame :: "json_expect \<Rightarrow> json_frame \<Rightarrow> json_frame list \<Rightarrow> (json_expect \<times> json_frame list) option" where
  "open_frame e f st = (if length st < maxNestingDepth then Some (e, f # st) else None)"

fun begin_value :: "json_frame list \<Rightarrow> json_token \<Rightarrow> (json_expect \<times> json_frame list) option" where
  "begin_value st (Literal v) = Some (After v, st)"
| "begin_value st OpenArr = open_frame AtFirst (InArr []) st"
| "begin_value st OpenObj = open_frame AtFirstKey (InObj []) st"
| "begin_value st _ = None"

fun object_key :: "json_frame list \<Rightarrow> json_token \<Rightarrow> (json_expect \<times> json_frame list) option" where
  "object_key st (Literal (VStr k)) = Some (AfterKey k, st)"
| "object_key st _ = None"

fun end_value :: "jval \<Rightarrow> json_frame list \<Rightarrow> json_token \<Rightarrow> (json_expect \<times> json_frame list) option" where
  "end_value v (InArr vs # st) t =
     (if t = Comma then Some (AtValue, InArr (v # vs) # st)
      else if t = CloseArr then Some (After (VArr (rev (v # vs))), st) else None)"
| "end_value v (InMember ms k # st) t =
     (if t = Comma then Some (AtKey, InObj ((k, v) # ms) # st)
      else if t = CloseObj then Some (After (VObj (rev ((k, v) # ms))), st) else None)"
| "end_value v _ t = None"

fun json_step :: "json_expect \<Rightarrow> json_frame list \<Rightarrow> json_token \<Rightarrow> (json_expect \<times> json_frame list) option" where
  "json_step AtValue st t = begin_value st t"
| "json_step AtFirst st t = (if t = CloseArr then Some (After (VArr []), tl st) else begin_value st t)"
| "json_step AtFirstKey st t = (if t = CloseObj then Some (After (VObj []), tl st) else object_key st t)"
| "json_step AtKey st t = object_key st t"
| "json_step (AfterKey k) st t =
     (case (st, t) of (InObj ms # st', Colon) \<Rightarrow> Some (AtValue, InMember ms k # st') | _ \<Rightarrow> None)"
| "json_step (After v) st t = end_value v st t"

lemma scan_string_Nil [simp]: "scan_string [] = None"
  by (simp add: scan_string.simps)

lemma scan_string_close [simp]: "scan_string (CHR 0x22 # r) = Some ([], r)"
  by (simp add: scan_string.simps)

lemma scan_string_escape:
  "scan_string (CHR 0x5C # r) =
     (case unescape r of None \<Rightarrow> None | Some (t, r') \<Rightarrow> map_option (\<lambda>(u, q). (t @ u, q)) (scan_string r'))"
  by (subst scan_string.simps) simp

lemma scan_string_char:
  assumes "c \<noteq> CHR 0x22" "c \<noteq> CHR 0x5C"
  shows "scan_string (c # r) =
     (if ordc c < 0x20 then None
      else let n = rune_len (map of_char (c # r))
           in if n = 0 then map_option (\<lambda>(u, q). (rune_error @ u, q)) (scan_string r)
              else map_option (\<lambda>(u, q). (take n (c # r) @ u, q)) (scan_string (drop n (c # r))))"
  using assms by (subst scan_string.simps) (simp only: list.case if_False)

lemma scan_string_shorter: "scan_string s = Some (t, r) \<Longrightarrow> length r < length s"
proof (induction "length s" arbitrary: s t r rule: less_induct)
  case less
  then obtain c q where s: "s = c # q" by (cases s) simp_all
  consider "c = CHR 0x22" | (escape) "c = CHR 0x5C" | (char) "c \<noteq> CHR 0x22" "c \<noteq> CHR 0x5C" by blast
  then show ?case
  proof cases
    case escape
    with less(2) obtain u q' v where u: "unescape q = Some (u, q')" and v: "scan_string q' = Some (v, r)"
      by (auto simp: s scan_string_escape split: option.splits)
    from less(1) [OF _ v] unescape_shorter [OF u] show ?thesis by (simp add: s)
  next
    case char
    let ?n = "rune_len (map of_char s)"
    have "\<exists>v. scan_string (drop (max 1 ?n) s) = Some (v, r)"
      using less(2) by (auto simp: s scan_string_char [OF char] Let_def max_def split: if_splits)
    with less(1) [of "drop (max 1 ?n) s"] show ?thesis by (auto simp: s)
  qed (use less(2) s in simp)
qed

lemma scan_number_shorter: "scan_number s = Some (t, r) \<Longrightarrow> length r < length s"
proof -
  have d: "digits1 x = Some (a, b) \<Longrightarrow> length b < length x" for x a b
    by (auto simp: digits1_def split: if_splits) (metis length_append length_greater_0_conv less_add_same_cancel2 takeWhile_dropWhile_id)
  have i: "int_part x = Some (a, b) \<Longrightarrow> length b < length x" for x a b
    by (auto simp: int_part_def le_imp_less_Suc [OF length_dropWhile_le] split: list.splits if_splits)
  have f: "frac_part x = Some (a, b) \<Longrightarrow> length b \<le> length x" for x a b
    by (auto simp: frac_part_def split: list.splits if_splits dest!: d)
  have e: "exp_part x = Some (a, b) \<Longrightarrow> length b \<le> length x" for x a b
    by (auto simp: exp_part_def split: list.splits if_splits dest!: d)
  assume "scan_number s = Some (t, r)"
  then show ?thesis
    by (auto simp: scan_number_def Let_def split: option.splits prod.splits if_splits dest!: i f e)
qed

lemma next_token_shorter: "next_token s0 = Some (t, r) \<Longrightarrow> length r < length s0"
proof -
  assume a: "next_token s0 = Some (t, r)"
  let ?s = "dropWhile is_space s0"
  have "length r < length ?s"
    using a by (cases ?s) (auto simp: next_token_def Let_def split: if_splits dest: scan_string_shorter scan_number_shorter)
  then show ?thesis using length_dropWhile_le [of is_space s0] by linarith
qed

function json_parse :: "json_expect \<Rightarrow> json_frame list \<Rightarrow> string \<Rightarrow> (jval \<times> string) option" where
  "json_parse e st s =
     (case (e, st) of
        (After v, []) \<Rightarrow> Some (v, s)
      | _ \<Rightarrow>
          (case next_token s of
             None \<Rightarrow> None
           | Some (t, r) \<Rightarrow>
               (case json_step e st t of
                  None \<Rightarrow> None
                | Some (e', st') \<Rightarrow> json_parse e' st' r)))"
  by pat_completeness auto
termination
  by (relation "measure (\<lambda>(e, st, s). length s)") (auto dest: next_token_shorter)

declare json_parse.simps [simp del]

lemma parse_done [simp]: "json_parse (After v) [] s = Some (v, s)"
  by (simp add: json_parse.simps)

text \<open>One step of the automaton, when it is not at its end.\<close>

lemma parse_step:
  "next_token s = Some (t, r) \<Longrightarrow> json_step e st t = Some (e', st') \<Longrightarrow> json_parse e st s = json_parse e' st' r"
  by (subst json_parse.simps) (cases e; cases st; simp)

section \<open>Decoding\<close>

text \<open>\<^verbatim>\<open>json.Unmarshal\<close>: nothing but white space may follow the value.\<close>

definition read_value :: "string \<Rightarrow> jval option" where
  "read_value s =
     (case json_parse AtValue [] s of
        Some (v, r) \<Rightarrow> if list_all is_space r then Some v else None
      | None \<Rightarrow> None)"

text \<open>
  Storing a value in a variable: \<open>None\<close> is an \<^verbatim>\<open>UnmarshalTypeError\<close>.  \<^verbatim>\<open>null\<close> leaves a variable as
  it is and sets a pointer to \<^verbatim>\<open>nil\<close>.
\<close>

type_synonym 'a json_store = "jval \<Rightarrow> 'a \<Rightarrow> 'a option"

fun into_string :: "string json_store" where
  "into_string VNull x = Some x"
| "into_string (VStr s) x = Some s"
| "into_string _ x = None"

fun into_bool :: "bool json_store" where
  "into_bool VNull x = Some x"
| "into_bool (VBool b) x = Some b"
| "into_bool _ x = None"

fun into_int :: "int json_store" where
  "into_int VNull x = Some x"
| "into_int (VNum s) x = (case parse_int64 s of (n, err) \<Rightarrow> if err then None else Some n)"
| "into_int _ x = None"

text \<open>
  \<^verbatim>\<open>strconv.ParseFloat\<close> of a JSON number: the nearest binary64 number, an error when that is
  infinite.  The exponent stops growing at 10000.
\<close>

definition digits_value :: "string \<Rightarrow> nat" where
  "digits_value s = foldl (\<lambda>n c. 10 * n + (ordc c - 48)) 0 s"

definition exp_value :: "string \<Rightarrow> int" where
  "exp_value e =
     (let d = filter is_digit e;
          n = foldl (\<lambda>n c. if n < 10000 then 10 * n + (int (ordc c) - 48) else n) 0 d
      in if CHR ''-'' \<in> set e then - n else n)"

definition decimal_value :: "string \<Rightarrow> rat" where
  "decimal_value s =
     (let mant = takeWhile (\<lambda>c. c \<noteq> CHR ''e'' \<and> c \<noteq> CHR ''E'') s;
          expo = dropWhile (\<lambda>c. c \<noteq> CHR ''e'' \<and> c \<noteq> CHR ''E'') s;
          frac = filter is_digit (dropWhile (\<lambda>c. c \<noteq> CHR ''.'') mant);
          m = rat_of_nat (digits_value (filter is_digit mant))
      in (if has_prefix s ''-'' then - m else m) * 10 powi (exp_value expo - int (length frac)))"

definition parse_float :: "string \<Rightarrow> float64 option" where
  "parse_float s =
     (let x = decimal_value s;
          e = max (expo \<bar>x\<bar>) (- 1022) - 52;
          y = (if x = 0 then 0 else sgn x * of_int (rne (\<bar>x\<bar> / 2 powi e)) * 2 powi e)
      in if 2 ^ 1024 \<le> \<bar>y\<bar> then None else Some y)"

fun into_float :: "float64 json_store" where
  "into_float VNull x = Some x"
| "into_float (VNum s) x = parse_float s"
| "into_float _ x = None"

fun into_ptr :: "'a json_store \<Rightarrow> 'a \<Rightarrow> 'a option json_store" where
  "into_ptr put zero VNull x = Some None"
| "into_ptr put zero v x = map_option Some (put v (case x of None \<Rightarrow> zero | Some y \<Rightarrow> y))"

text \<open>A slice: the elements are stored over the old ones, the rest of which is cut off.\<close>

fun into_elems :: "'a json_store \<Rightarrow> 'a \<Rightarrow> jval list \<Rightarrow> 'a list \<Rightarrow> 'a list option" where
  "into_elems put zero [] xs = Some []"
| "into_elems put zero (v # vs) xs =
     (case (put v (case xs of [] \<Rightarrow> zero | x # _ \<Rightarrow> x), into_elems put zero vs (tl xs)) of
        (Some y, Some ys) \<Rightarrow> Some (y # ys)
      | _ \<Rightarrow> None)"

fun into_slice :: "'a json_store \<Rightarrow> 'a \<Rightarrow> 'a list json_store" where
  "into_slice put zero VNull xs = Some []"
| "into_slice put zero (VArr vs) xs = into_elems put zero vs xs"
| "into_slice put zero _ xs = None"

text \<open>
  \<^verbatim>\<open>foldName\<close>: ASCII letters and the two other letters that fold to ASCII, U+017F and U+212A.
\<close>

fun fold_name :: "string \<Rightarrow> string" where
  "fold_name [] = []"
| "fold_name (c # s) =
     (if c = CHR 0xC5 \<and> has_prefix s [CHR 0xBF] then CHR ''s'' # fold_name (tl s)
      else if c = CHR 0xE2 \<and> has_prefix s [CHR 0x84, CHR 0xAA] then CHR ''k'' # fold_name (tl (tl s))
      else lower_char c # fold_name s)"

text \<open>A struct: the json_fields by the names of their tags, exactly or else up to folding; unknown read_members are skipped.\<close>

type_synonym 'r json_fields = "(string \<times> 'r json_store) list"

definition find_field :: "'r json_fields \<Rightarrow> string \<Rightarrow> 'r json_store option" where
  "find_field fs k =
     (case map_of fs k of
        Some f \<Rightarrow> Some f
      | None \<Rightarrow> map_option snd (find (\<lambda>(n, _). fold_name n = fold_name k) fs))"

definition store_member :: "'r json_fields \<Rightarrow> string \<times> jval \<Rightarrow> 'r option \<Rightarrow> 'r option" where
  "store_member fs m r =
     (case (r, find_field fs (fst m)) of
        (Some x, Some f) \<Rightarrow> f (snd m) x
      | _ \<Rightarrow> r)"

fun into_struct :: "'r json_fields \<Rightarrow> 'r json_store" where
  "into_struct fs VNull r = Some r"
| "into_struct fs (VObj ms) r = fold (store_member fs) ms (Some r)"
| "into_struct fs _ r = None"

text \<open>A json_field of a record, from its selector and its update.\<close>

definition json_field :: "string \<Rightarrow> 'a json_store \<Rightarrow> ('r \<Rightarrow> 'a) \<Rightarrow> (('a \<Rightarrow> 'a) \<Rightarrow> 'r \<Rightarrow> 'r) \<Rightarrow> string \<times> 'r json_store" where
  "json_field name put get upd = (name, \<lambda>v r. map_option (\<lambda>x. upd (\<lambda>_. x) r) (put v (get r)))"

definition Unmarshal :: "'r json_fields \<Rightarrow> 'r \<Rightarrow> string \<Rightarrow> 'r option" where
  "Unmarshal fs zero s = (case read_value s of Some v \<Rightarrow> into_struct fs v zero | None \<Rightarrow> None)"

text \<open>
  \<^verbatim>\<open>Decoder.Decode\<close> of the first value of a stream.  An array or object is complete with its last
  bracket; another value only with the byte after it or the end of the stream.
\<close>

fun bracketed :: "jval \<Rightarrow> bool" where
  "bracketed (VArr _) = True"
| "bracketed (VObj _) = True"
| "bracketed _ = False"

definition Decode :: "'r json_fields \<Rightarrow> 'r \<Rightarrow> string \<Rightarrow> bool \<Rightarrow> 'r option" where
  "Decode fs zero s fails =
     (case json_parse AtValue [] s of
        Some (v, r) \<Rightarrow> if bracketed v \<or> r \<noteq> [] \<or> \<not> fails then into_struct fs v zero else None
      | None \<Rightarrow> None)"

end
