(* ===== verification/Adapters.thy ===== *)
theory Adapters
  imports Sha256 JsonRead
begin

text \<open>
  \<^verbatim>\<open>internal/adapters\<close>: how each kind of source signs its webhooks and names its events.
  \<^verbatim>\<open>adapters.go\<close> has the registry and the Stripe, GitHub, generic-HMAC and internal adapters,
  \<^verbatim>\<open>easypost.go\<close> the EasyPost one.  Parameters: \<open>now\<close>, the wall clock; \<open>nfkd\<close>, the Unicode
  normalisation of \<^verbatim>\<open>golang.org/x/text\<close>.
\<close>

section \<open>HTTP headers\<close>

text \<open>\<^verbatim>\<open>http.Header\<close>: the values received for each canonical header name, in order.\<close>

type_synonym header = "(string \<times> string list) list"

definition upper_char :: "char \<Rightarrow> char" where
  "upper_char c = (let d = (of_char c :: nat) in if 97 \<le> d \<and> d \<le> 122 then char_of (d - 32) else c)"

fun canonical_from :: "bool \<Rightarrow> string \<Rightarrow> string" where
  "canonical_from up [] = []"
| "canonical_from up (c # s) = (if up then upper_char c else lower_char c) # canonical_from (c = CHR ''-'') s"

definition header_get :: "header \<Rightarrow> string \<Rightarrow> string" where
  "header_get h k =
     (case map_of h (canonical_from True k) of Some (v # _) \<Rightarrow> v | _ \<Rightarrow> [])"

section \<open>Adapters\<close>

datatype SourceAdapter =
    StripeAdapter
  | GitHubAdapter
  | EasyPostAdapter
  | GenericHMACAdapter (Header: string) (Algorithm: string)
  | InternalAdapter

definition registry :: "(string \<times> SourceAdapter) list" where
  "registry =
     [(''stripe'', StripeAdapter),
      (''github'', GitHubAdapter),
      (''easypost'', EasyPostAdapter),
      (''generic_hmac'', GenericHMACAdapter ''X-Signature'' ''sha256''),
      (''internal'', InternalAdapter)]"

definition Get :: "string \<Rightarrow> SourceAdapter result" where
  "Get sourceType =
     (case map_of registry sourceType of
        None \<Rightarrow> Inl (ErrText (''unknown source type: '' @ sourceType))
      | Some a \<Rightarrow> Inr a)"

definition hashBody :: "bytes \<Rightarrow> string" where
  "hashBody body = hex_encode (take 16 (sha256 body))"

subsection \<open>Stripe\<close>

definition stripeTolerance :: int where
  "stripeTolerance = 5 * Minute"

text \<open>
  \<^verbatim>\<open>time.Since(time.Unix(ts, 0))\<close>: \<^verbatim>\<open>time.Unix\<close> shifts the seconds to the year 1 in 64-bit
  arithmetic, and the difference of two times saturates.
\<close>

definition since_unix :: "time \<Rightarrow> int \<Rightarrow> int" where
  "since_unix now ts = sat64 (now - (wrap64 (ts + 62135596800) - 62135596800) * Second)"

definition stripe_part :: "string \<Rightarrow> int \<times> bytes list \<Rightarrow> int \<times> bytes list" where
  "stripe_part part = (\<lambda>(ts, v1s).
     (case split2_char (CHR ''='') (trim_space part) of
        [k, v] \<Rightarrow>
          if k = ''t'' then (fst (parse_int64 v), v1s)
          else if k = ''v1'' then
            (case hex_decode v of None \<Rightarrow> (ts, v1s) | Some decoded \<Rightarrow> (ts, v1s @ [decoded]))
          else (ts, v1s)
      | _ \<Rightarrow> (ts, v1s)))"

definition stripe_parts :: "string \<Rightarrow> int \<times> bytes list" where
  "stripe_parts sig = fold stripe_part (split_char (CHR '','') sig) (0, [])"

definition stripe_expected :: "string \<Rightarrow> int \<Rightarrow> bytes \<Rightarrow> bytes" where
  "stripe_expected secret ts body = hmac_sha256 secret (itoa ts @ ''.'' @ body)"

definition stripe_Verify :: "time \<Rightarrow> header \<Rightarrow> bytes \<Rightarrow> string \<Rightarrow> bool" where
  "stripe_Verify now headers body secret0 =
     (let secret = trim_space secret0;
          sig = header_get headers ''Stripe-Signature''
      in if sig = [] \<or> secret = [] then False
         else let (ts, v1s) = stripe_parts sig
              in if ts = 0 \<or> v1s = [] then False
                 else if stripeTolerance < since_unix now ts then False
                 else list_ex (\<lambda>v. v = stripe_expected secret ts body) v1s)"

text \<open>Stripe and EasyPost name an event by the \<open>id\<close> of its JSON body.\<close>

definition json_ExtractEventID :: "bytes \<Rightarrow> string" where
  "json_ExtractEventID body =
     (case Unmarshal [(''id'', into_string)] [] body of
        Some i \<Rightarrow> if i \<noteq> [] then i else hashBody body
      | None \<Rightarrow> hashBody body)"

subsection \<open>GitHub\<close>

definition github_Verify :: "header \<Rightarrow> bytes \<Rightarrow> string \<Rightarrow> bool" where
  "github_Verify headers body secret =
     (let sig = header_get headers ''X-Hub-Signature-256''
      in if sig = [] \<or> secret = [] then False
         else if \<not> has_prefix sig ''sha256='' then False
         else trim_prefix sig ''sha256='' = hex_encode (hmac_sha256 secret body))"

definition github_ExtractEventID :: "header \<Rightarrow> bytes \<Rightarrow> string" where
  "github_ExtractEventID headers body =
     (let i = header_get headers ''X-GitHub-Delivery'' in if i \<noteq> [] then i else hashBody body)"

subsection \<open>Generic HMAC\<close>

definition generic_Verify :: "string \<Rightarrow> header \<Rightarrow> bytes \<Rightarrow> string \<Rightarrow> bool" where
  "generic_Verify hdr headers body secret =
     (let sig = header_get headers hdr
      in if sig = [] \<or> secret = [] then False
         else trim_prefix sig ''sha256='' = hex_encode (hmac_sha256 secret body))"

definition generic_ExtractEventID :: "header \<Rightarrow> bytes \<Rightarrow> string" where
  "generic_ExtractEventID headers body =
     (let i = header_get headers ''X-Event-Id'' in
      if i \<noteq> [] then i
      else let j = header_get headers ''X-Request-Id'' in if j \<noteq> [] then j else hashBody body)"

subsection \<open>EasyPost\<close>

definition easypostLegacyDigest :: "(string \<Rightarrow> string) \<Rightarrow> string \<Rightarrow> bytes \<Rightarrow> string" where
  "easypostLegacyDigest nfkd secret body =
     ''hmac-sha256-hex='' @ hex_encode (hmac_sha256 (nfkd secret) body)"

definition easypost_Verify :: "(string \<Rightarrow> string) \<Rightarrow> header \<Rightarrow> bytes \<Rightarrow> string \<Rightarrow> bool" where
  "easypost_Verify nfkd headers body secret =
     (let sig = header_get headers ''X-Hmac-Signature''
      in if sig = [] \<or> secret = [] then False
         else to_lower sig = to_lower (easypostLegacyDigest nfkd secret body))"

subsection \<open>Internal\<close>

definition internal_Verify :: "header \<Rightarrow> bytes \<Rightarrow> string \<Rightarrow> bool" where
  "internal_Verify headers body secret = True"

definition internal_ExtractEventID :: "header \<Rightarrow> bytes \<Rightarrow> string" where
  "internal_ExtractEventID headers body =
     (let i = header_get headers ''X-Tuma-Event-Id'' in if i \<noteq> [] then i else hashBody body)"

subsection \<open>The interface\<close>

text \<open>Calling a method of a \<^verbatim>\<open>SourceAdapter\<close> value: dispatch on the adapter.\<close>

fun Verify :: "time \<Rightarrow> (string \<Rightarrow> string) \<Rightarrow> SourceAdapter \<Rightarrow> header \<Rightarrow> bytes \<Rightarrow> string \<Rightarrow> bool" where
  "Verify now nfkd StripeAdapter h b s = stripe_Verify now h b s"
| "Verify now nfkd GitHubAdapter h b s = github_Verify h b s"
| "Verify now nfkd EasyPostAdapter h b s = easypost_Verify nfkd h b s"
| "Verify now nfkd (GenericHMACAdapter hdr alg) h b s = generic_Verify hdr h b s"
| "Verify now nfkd InternalAdapter h b s = internal_Verify h b s"

fun ExtractEventID :: "SourceAdapter \<Rightarrow> header \<Rightarrow> bytes \<Rightarrow> string" where
  "ExtractEventID StripeAdapter h b = json_ExtractEventID b"
| "ExtractEventID GitHubAdapter h b = github_ExtractEventID h b"
| "ExtractEventID EasyPostAdapter h b = json_ExtractEventID b"
| "ExtractEventID (GenericHMACAdapter hdr alg) h b = generic_ExtractEventID h b"
| "ExtractEventID InternalAdapter h b = internal_ExtractEventID h b"

section \<open>The contract of an adapter\<close>

text \<open>
  What \<^verbatim>\<open>ingest\<close> relies on: an event always gets a non-empty identity, which is a function of the
  request alone.  An adapter of a signed source moreover accepts nothing when the connection
  has no secret, and accepts only when the header that carries the signature is there.
\<close>

locale source_adapter =
  fixes verify :: "header \<Rightarrow> bytes \<Rightarrow> string \<Rightarrow> bool"
    and event_id :: "header \<Rightarrow> bytes \<Rightarrow> string"
  assumes event_id_nonempty: "event_id h b \<noteq> []"

locale signed_adapter = source_adapter +
  fixes sig_header :: string
  assumes no_secret: "\<not> verify h b []"
    and sig_present: "verify h b s \<Longrightarrow> header_get h sig_header \<noteq> []"
begin

lemma unsigned_rejected: "header_get h sig_header = [] \<Longrightarrow> \<not> verify h b s"
  using sig_present by blast

end

lemma hashBody_nonempty [simp]: "hashBody b \<noteq> []"
proof -
  have "length (hashBody b) = 32" by (simp add: hashBody_def)
  then show ?thesis by auto
qed

interpretation stripe: signed_adapter "stripe_Verify now" "\<lambda>h. json_ExtractEventID" "''Stripe-Signature''"
  for now
  by unfold_locales (auto simp: stripe_Verify_def json_ExtractEventID_def Let_def split: option.splits if_splits)

interpretation github: signed_adapter github_Verify github_ExtractEventID "''X-Hub-Signature-256''"
  by unfold_locales (auto simp: github_Verify_def github_ExtractEventID_def Let_def split: if_splits)

interpretation easypost: signed_adapter "easypost_Verify nfkd" "\<lambda>h. json_ExtractEventID" "''X-Hmac-Signature''"
  for nfkd
  by unfold_locales (auto simp: easypost_Verify_def json_ExtractEventID_def Let_def split: option.splits if_splits)

interpretation generic: signed_adapter "generic_Verify hdr" generic_ExtractEventID hdr
  for hdr
  by unfold_locales (auto simp: generic_Verify_def generic_ExtractEventID_def Let_def split: if_splits)

interpretation internal: source_adapter internal_Verify internal_ExtractEventID
  by unfold_locales (auto simp: internal_ExtractEventID_def Let_def)

lemma ExtractEventID_nonempty: "ExtractEventID a h b \<noteq> []"
  by (cases a)
     (simp_all add: stripe.event_id_nonempty github.event_id_nonempty generic.event_id_nonempty
        internal.event_id_nonempty)

section \<open>Parsing the Stripe signature header\<close>

text \<open>
  The last well-formed \<open>t=\<close> part gives the timestamp, and the \<open>v1=\<close> parts with valid
  hexadecimal give the candidate signatures, in order.
\<close>

definition v1_of :: "string \<Rightarrow> bytes list" where
  "v1_of part =
     (case split2_char (CHR ''='') (trim_space part) of
        [k, v] \<Rightarrow> if k = ''v1'' then (case hex_decode v of None \<Rightarrow> [] | Some d \<Rightarrow> [d]) else []
      | _ \<Rightarrow> [])"

definition t_of :: "string \<Rightarrow> int option" where
  "t_of part =
     (case split2_char (CHR ''='') (trim_space part) of
        [k, v] \<Rightarrow> if k = ''t'' then Some (fst (parse_int64 v)) else None
      | _ \<Rightarrow> None)"

lemma stripe_part_eq:
  "stripe_part p (ts, vs) = ((case t_of p of None \<Rightarrow> ts | Some t \<Rightarrow> t), vs @ v1_of p)"
  by (auto simp: stripe_part_def t_of_def v1_of_def split: list.splits option.splits)

lemma fold_stripe_part:
  "fold stripe_part ps (ts, vs) =
     (fold (\<lambda>p t. case t_of p of None \<Rightarrow> t | Some t' \<Rightarrow> t') ps ts, vs @ concat (map v1_of ps))"
  by (induction ps arbitrary: ts vs) (auto simp: stripe_part_eq)

lemma fold_t_of_cases:
  "fold (\<lambda>p t. case t_of p of None \<Rightarrow> t | Some t' \<Rightarrow> t') ps ts = ts \<or>
   (\<exists>p \<in> set ps. t_of p = Some (fold (\<lambda>p t. case t_of p of None \<Rightarrow> t | Some t' \<Rightarrow> t') ps ts))"
proof (induction ps rule: rev_induct)
  case (snoc p ps)
  then show ?case by (cases "t_of p") auto
qed simp

lemma stripe_parts_ts: "fst (stripe_parts sig) \<noteq> 0 \<Longrightarrow>
   \<exists>p \<in> set (split_char (CHR '','') sig). t_of p = Some (fst (stripe_parts sig))"
  using fold_t_of_cases [of "split_char (CHR '','') sig" 0]
  by (auto simp: stripe_parts_def fold_stripe_part)

lemma stripe_parts_v1: "v \<in> set (snd (stripe_parts sig)) \<longleftrightarrow>
   (\<exists>p \<in> set (split_char (CHR '','') sig). v \<in> set (v1_of p))"
  by (simp add: stripe_parts_def fold_stripe_part)

lemma since_unix_eq:
  "\<bar>ts\<bar> < 2 ^ 62 \<Longrightarrow> since_unix now ts = sat64 (now - ts * Second)"
  by (simp add: since_unix_def in_int64_def abs_if split: if_splits)

end
