(* ===== verification/SecurityClaims.thy ===== *)
theory SecurityClaims
  imports Adapters Store
begin

text \<open>
  The properties of \<^verbatim>\<open>internal/crypto\<close>, \<^verbatim>\<open>internal/adapters\<close> and \<^verbatim>\<open>storage/event_crypto.go\<close>: what
  was sealed opens to itself and nothing else opens, a signed source is only believed on a
  matching code over the body, and encrypting the stored events in place changes no event.
\<close>

section \<open>The encryptor\<close>

text \<open>Every string of 12 bytes is a nonce that the random source can return.\<close>

definition byte_val :: "bytes \<Rightarrow> nat" where
  "byte_val bs = fold (\<lambda>b n. 256 * n + of_char b) bs 0"

lemma byte_val_snoc: "byte_val (bs @ [b]) = 256 * byte_val bs + of_char b"
  by (simp add: byte_val_def)

lemma byte_val_less: "byte_val bs < 256 ^ length bs"
proof (induction bs rule: rev_induct)
  case (snoc b bs)
  then have "256 * byte_val bs + 256 \<le> 256 * 256 ^ length bs" by (simp add: Suc_leI)
  then have "256 * byte_val bs + of_char b < 256 * 256 ^ length bs"
    using of_char_less_256 [of b] by linarith
  then show ?case by (simp add: byte_val_snoc)
qed (simp add: byte_val_def)

lemma char_of_byte: "char_of (256 * n + of_char b) = b"
  by (metis char_of_char char_of_mod_256 mod_mult_self4)

lemma byte_val_digits:
  "map (\<lambda>i. char_of (byte_val bs div 256 ^ (length bs - 1 - i))) [0..<length bs] = bs"
proof (induction bs rule: rev_induct)
  case (snoc b bs)
  have "byte_val (bs @ [b]) div 256 ^ (length bs - i) = byte_val bs div 256 ^ (length bs - 1 - i)"
    if "i < length bs" for i
  proof -
    have e: "length bs - i = Suc (length bs - 1 - i)" using that by simp
    have d: "byte_val (bs @ [b]) div 256 = byte_val bs"
      using of_char_less_256 [of b] by (simp add: byte_val_snoc)
    show ?thesis unfolding e power_Suc by (simp add: div_mult2_eq d)
  qed
  then have "map (\<lambda>i. char_of (byte_val (bs @ [b]) div 256 ^ (length bs - i))) [0..<length bs] = bs"
    using snoc by (metis (no_types, lifting) atLeastLessThan_iff atLeast_upt lessThan_iff map_cong set_upt)
  then show ?case by (simp add: byte_val_snoc char_of_byte)
qed simp

lemma word_bytes_onto:
  assumes "length bs = nonce_size"
  shows "\<exists>r :: 96 word. word_bytes nonce_size r = bs"
proof
  let ?r = "of_nat (byte_val bs) :: 96 word"
  have "byte_val bs < 2 ^ 96" using byte_val_less [of bs] assms by simp
  then have u: "unat ?r = byte_val bs" by (simp add: unat_of_nat take_bit_nat_eq_self)
  have d: "char_of (unat (take_bit 8 (drop_bit (8 * k) ?r))) = char_of (byte_val bs div 256 ^ k)" for k
  proof -
    have "(2::nat) ^ (8 * k) = 256 ^ k" by (simp add: power_mult)
    then have "unat (take_bit 8 (drop_bit (8 * k) ?r)) = byte_val bs div 256 ^ k mod 256"
      unfolding unsigned_take_bit_eq unat_drop_bit_eq u by (simp add: take_bit_eq_mod drop_bit_eq_div)
    then show ?thesis by simp
  qed
  show "word_bytes nonce_size ?r = bs"
    unfolding word_bytes_def d using byte_val_digits [of bs] unfolding assms .
qed

text \<open>
  C14. A ciphertext decrypts exactly when it is an encryption of the plaintext under the same key:
  \<^verbatim>\<open>DecryptBytes\<close> undoes \<^verbatim>\<open>EncryptBytes\<close> for every key, nonce and plaintext, and rejects every
  byte string that \<^verbatim>\<open>EncryptBytes\<close> cannot have produced.
\<close>

theorem decrypt_iff_encrypted:
  "DecryptBytes e c = Inr p \<longleftrightarrow> (\<exists>r. EncryptBytes e (Inr r) p = Inr c)"
proof
  assume d: "DecryptBytes e c = Inr p"
  then have len: "nonce_size \<le> length c" and
    o: "gcm_open (gcm_key e) (take nonce_size c) (drop nonce_size c) = Inr p"
    by (auto simp: DecryptBytes_def Let_def split: if_splits)
  obtain r :: "96 word" where r: "word_bytes nonce_size r = take nonce_size c"
    using word_bytes_onto [of "take nonce_size c"] len by auto
  have "EncryptBytes e (Inr r) p = Inr (take nonce_size c @ drop nonce_size c)"
    by (simp add: EncryptBytes_def Let_def r gcm_open_InrD [OF o, symmetric] del: append_take_drop_id)
  then show "\<exists>r. EncryptBytes e (Inr r) p = Inr c" by auto
next
  assume "\<exists>r. EncryptBytes e (Inr r) p = Inr c"
  then show "DecryptBytes e c = Inr p" using box.dec_enc by blast
qed

text \<open>
  The text form used for stored credentials round-trips: what \<^verbatim>\<open>EncryptString\<close> returns is
  base64 that \<^verbatim>\<open>DecryptString\<close> turns back into the plaintext.
\<close>

lemma string_round_trip:
  assumes "EncryptString e rand p = Inr s"
  shows "DecryptString e s = Inr p"
  using assms
  by (auto simp: EncryptString_def DecryptString_def Encrypt_def Decrypt_def split: sum.splits
      dest: box.dec_enc)

section \<open>Signatures\<close>

text \<open>
  Where a source puts its code, the key it uses and the bytes it signs.  A Stripe code is over
  a timestamp and the body.
\<close>

fun sig_header_of :: "SourceAdapter \<Rightarrow> string" where
  "sig_header_of StripeAdapter = ''Stripe-Signature''"
| "sig_header_of GitHubAdapter = ''X-Hub-Signature-256''"
| "sig_header_of EasyPostAdapter = ''X-Hmac-Signature''"
| "sig_header_of (GenericHMACAdapter hdr alg) = hdr"
| "sig_header_of InternalAdapter = []"

fun carries_code :: "(string \<Rightarrow> string) \<Rightarrow> SourceAdapter \<Rightarrow> string \<Rightarrow> bytes \<Rightarrow> string \<Rightarrow> bool" where
  "carries_code nfkd StripeAdapter sig body secret \<longleftrightarrow>
     (\<exists>pt \<in> set (split_char (CHR '','') sig). \<exists>pv \<in> set (split_char (CHR '','') sig). \<exists>ts.
        t_of pt = Some ts \<and> ts \<noteq> 0 \<and> v1_of pv = [hmac_sha256 (trim_space secret) (itoa ts @ ''.'' @ body)])"
| "carries_code nfkd GitHubAdapter sig body secret \<longleftrightarrow>
     sig = ''sha256='' @ hex_encode (hmac_sha256 secret body)"
| "carries_code nfkd EasyPostAdapter sig body secret \<longleftrightarrow>
     to_lower sig = ''hmac-sha256-hex='' @ hex_encode (hmac_sha256 (nfkd secret) body)"
| "carries_code nfkd (GenericHMACAdapter hdr alg) sig body secret \<longleftrightarrow>
     (sig = hex_encode (hmac_sha256 secret body) \<or> sig = ''sha256='' @ hex_encode (hmac_sha256 secret body))"
| "carries_code nfkd InternalAdapter sig body secret \<longleftrightarrow> True"

lemma v1_of_single:
  assumes "v \<in> set (v1_of p)"
  shows "v1_of p = [v]"
proof -
  have "length (v1_of p) \<le> 1" by (simp add: v1_of_def split: list.splits option.splits)
  with assms show ?thesis by (cases "v1_of p") auto
qed

lemma stripe_carries:
  assumes "stripe_Verify now h b s"
  shows "carries_code nfkd StripeAdapter (header_get h ''Stripe-Signature'') b s"
proof -
  let ?sig = "header_get h ''Stripe-Signature''" and ?ts = "fst (stripe_parts (header_get h ''Stripe-Signature''))"
  have ts: "?ts \<noteq> 0" and v: "stripe_expected (trim_space s) ?ts b \<in> set (snd (stripe_parts ?sig))"
    using assms by (auto simp: stripe_Verify_def Let_def split_beta list_ex_iff split: if_splits)
  show ?thesis
    using stripe_parts_ts [OF ts] v [unfolded stripe_parts_v1] ts v1_of_single
    by (fastforce simp: stripe_expected_def)
qed

lemma prefix_trim: "has_prefix s p \<Longrightarrow> s = p @ trim_prefix s p"
  by (auto simp: has_prefix_iff)

lemma generic_carries:
  "trim_prefix sig ''sha256='' = hex_encode m \<Longrightarrow> sig = hex_encode m \<or> sig = ''sha256='' @ hex_encode m"
  by (auto simp: trim_prefix_def has_prefix_iff split: if_splits)

lemma to_lower_digest:
  "to_lower (easypostLegacyDigest nfkd s b) = ''hmac-sha256-hex='' @ hex_encode (hmac_sha256 (nfkd s) b)"
proof -
  have "to_lower (x @ y) = to_lower x @ to_lower y" for x y by (simp add: to_lower_def)
  moreover have "to_lower ''hmac-sha256-hex='' = ''hmac-sha256-hex=''" by code_simp
  ultimately show ?thesis unfolding easypostLegacyDigest_def by (simp only: to_lower_hex)
qed

text \<open>
  C4. A request of a signed source is accepted only when the connection has a secret and the
  signature header carries the code that this secret gives for exactly this body (for Stripe,
  of a timestamp in the header and the body).
\<close>

theorem verify_authentic:
  assumes "Verify now nfkd a h b s" and "a \<noteq> InternalAdapter"
  shows "s \<noteq> [] \<and> header_get h (sig_header_of a) \<noteq> []
     \<and> carries_code nfkd a (header_get h (sig_header_of a)) b s"
proof (cases a)
  case StripeAdapter
  with assms stripe_carries [of now h b s nfkd] stripe.sig_present [of now h b s] stripe.no_secret [of now h b]
  show ?thesis by auto
next
  case GitHubAdapter
  then have ok: "github_Verify h b s" using assms by simp
  let ?sig = "header_get h ''X-Hub-Signature-256''"
  have "?sig = ''sha256='' @ trim_prefix ?sig ''sha256=''"
    using ok by (intro prefix_trim) (simp add: github_Verify_def Let_def split: if_splits)
  also have "trim_prefix ?sig ''sha256='' = hex_encode (hmac_sha256 s b)"
    using ok by (simp add: github_Verify_def Let_def split: if_splits)
  finally show ?thesis
    using GitHubAdapter github.sig_present [OF ok] github.no_secret [of h b] ok by auto
next
  case EasyPostAdapter
  have ok: "easypost_Verify nfkd h b s" using assms EasyPostAdapter by simp
  then have "to_lower (header_get h ''X-Hmac-Signature'') = to_lower (easypostLegacyDigest nfkd s b)"
    by (simp add: easypost_Verify_def Let_def split: if_splits)
  also have "\<dots> = ''hmac-sha256-hex='' @ hex_encode (hmac_sha256 (nfkd s) b)"
    by (rule to_lower_digest)
  finally show ?thesis
    using EasyPostAdapter easypost.sig_present [OF ok] easypost.no_secret [of nfkd h b] ok by auto
next
  case (GenericHMACAdapter hdr alg)
  then have ok: "generic_Verify hdr h b s" using assms by simp
  then have "trim_prefix (header_get h hdr) ''sha256='' = hex_encode (hmac_sha256 s b)"
    by (simp add: generic_Verify_def Let_def split: if_splits)
  from generic_carries [OF this] show ?thesis
    using GenericHMACAdapter generic.sig_present [OF ok] generic.no_secret [of hdr h b] ok by auto
qed (use assms in simp)

lemma demo_signed:
  "Verify now nfkd GitHubAdapter [(''X-Hub-Signature-256'', [''sha256='' @ hex_encode (hmac_sha256 ''k'' ''{}'')])] ''{}'' ''k''"
proof -
  have "canonical_from True ''X-Hub-Signature-256'' = ''X-Hub-Signature-256''" by code_simp
  then show ?thesis
    unfolding Verify.simps github_Verify_def header_get_def Let_def
    by (simp only: map_of.simps fst_conv snd_conv fun_upd_same option.case list.case has_prefix_append
        trim_prefix_append append_is_Nil_conv list.distinct simp_thms if_False if_True)
qed

theorem verify_authentic_witness:
  "(let h = [(''X-Hub-Signature-256'', [''sha256='' @ hex_encode (hmac_sha256 ''k'' ''{}'')])]
    in ''k'' \<noteq> [] \<and> header_get h (sig_header_of GitHubAdapter) \<noteq> []
       \<and> carries_code id GitHubAdapter (header_get h (sig_header_of GitHubAdapter)) ''{}'' ''k'')"
  unfolding Let_def by (rule verify_authentic [OF demo_signed]) simp

text \<open>A header in the form that Stripe sends, read back.\<close>

definition stripe_header :: "string \<Rightarrow> int \<Rightarrow> bytes \<Rightarrow> string" where
  "stripe_header secret ts body = ''t='' @ itoa ts @ '',v1='' @ hex_encode (hmac_sha256 secret (itoa ts @ ''.'' @ body))"

lemma itoa_graphic:
  assumes "0 \<le> ts"
  shows "list_all graphic (itoa ts)" and "CHR '','' \<notin> set (itoa ts)" and "CHR ''='' \<notin> set (itoa ts)"
  using assms nat_digits_chars [of _ "nat ts"] nat_digits_no_char [of "CHR '',''" "nat ts"]
    nat_digits_no_char [of "CHR ''=''" "nat ts"]
  by (fastforce simp: itoa_def list_all_iff graphic_def)+

lemma hex_graphic: "list_all graphic (hex_encode bs)"
  using hex_encode_chars [of bs] by (fastforce simp: list_all_iff graphic_def)

lemma stripe_parts_header:
  assumes "0 \<le> ts" and "ts < 2 ^ 63"
  shows "stripe_parts (stripe_header secret ts body)
     = (ts, [hmac_sha256 secret (itoa ts @ ''.'' @ body)])"
proof -
  let ?mac = "hmac_sha256 secret (itoa ts @ ''.'' @ body)"
  let ?pt = "''t='' @ itoa ts" and ?pv = "''v1='' @ hex_encode ?mac"
  have split: "split_char (CHR '','') (stripe_header secret ts body) = [?pt, ?pv]"
    using split_char_app [of "CHR '',''" ?pt ?pv] itoa_graphic(2) [OF assms(1)] hex_no_char [of "CHR '',''" ?mac]
    by (simp add: stripe_header_def split_char_none)
  have trim: "trim_space ?pt = ?pt" "trim_space ?pv = ?pv"
    using itoa_graphic(1) [OF assms(1)] hex_graphic [of ?mac]
    by (intro trim_space_graphic; simp add: graphic_def)+
  have kv: "split2_char (CHR ''='') ?pt = [''t'', itoa ts]" "split2_char (CHR ''='') ?pv = [''v1'', hex_encode ?mac]"
    using split2_char_app [of "CHR ''=''" "''t''" "itoa ts"] split2_char_app [of "CHR ''=''" "''v1''" "hex_encode ?mac"]
    by simp_all
  have "t_of ?pt = Some ts" "v1_of ?pt = []" "t_of ?pv = None" "v1_of ?pv = [?mac]"
    unfolding t_of_def v1_of_def trim kv using assms by (simp_all add: parse_int64_itoa)
  then show ?thesis unfolding stripe_parts_def split fold_stripe_part by simp
qed

lemma canonical_stripe: "canonical_from True ''Stripe-Signature'' = ''Stripe-Signature''"
  by code_simp

lemma stripe_header_verifies:
  assumes "header_get h ''Stripe-Signature'' = stripe_header (trim_space secret) ts body"
    and "trim_space secret \<noteq> []" and "0 < ts" and "ts < 2 ^ 62" and "now - ts * Second \<le> 5 * Minute"
  shows "stripe_Verify now h body secret"
proof -
  have "since_unix now ts = sat64 (now - ts * Second)" using assms(3,4) by (intro since_unix_eq) simp
  then have "\<not> stripeTolerance < since_unix now ts"
    using assms(5) less_sat64_iff [of "5 * Minute" "now - ts * Second"] by (simp add: stripeTolerance_def)
  moreover have "stripe_header (trim_space secret) ts body \<noteq> []" by (simp add: stripe_header_def)
  ultimately show ?thesis
    unfolding stripe_Verify_def Let_def assms(1) using assms(2,3,4)
    by (simp add: stripe_parts_header stripe_expected_def)
qed

text \<open>
  C28. An accepted Stripe signature is not older than five minutes: the timestamp that is signed
  with the body is at most that far in the past.
\<close>

theorem stripe_fresh:
  assumes "stripe_Verify now h b s"
  shows "\<exists>ts. fst (stripe_parts (header_get h ''Stripe-Signature'')) = ts
     \<and> hmac_sha256 (trim_space s) (itoa ts @ ''.'' @ b) \<in> set (snd (stripe_parts (header_get h ''Stripe-Signature'')))
     \<and> (- (2 ^ 62) < ts \<and> ts < 2 ^ 62 \<longrightarrow> now - ts * Second \<le> 5 * Minute)"
proof -
  let ?p = "stripe_parts (header_get h ''Stripe-Signature'')"
  have v: "hmac_sha256 (trim_space s) (itoa (fst ?p) @ ''.'' @ b) \<in> set (snd ?p)"
    and t: "\<not> stripeTolerance < since_unix now (fst ?p)"
    using assms(1) by (auto simp: stripe_Verify_def stripe_expected_def Let_def split_beta list_ex_iff split: if_splits)
  have "now - fst ?p * Second \<le> 5 * Minute" if "- (2 ^ 62) < fst ?p" "fst ?p < 2 ^ 62"
  proof -
    have "since_unix now (fst ?p) = sat64 (now - fst ?p * Second)" using that by (intro since_unix_eq) auto
    then show ?thesis using t less_sat64_iff [of "5 * Minute"] by (simp add: stripeTolerance_def)
  qed
  with v show ?thesis by auto
qed

theorem stripe_fresh_witness:
  "\<exists>ts. fst (stripe_parts (header_get [(''Stripe-Signature'', [stripe_header ''whsec'' 1000 ''{}''])] ''Stripe-Signature'')) = ts
     \<and> hmac_sha256 (trim_space ''whsec'') (itoa ts @ ''.'' @ ''{}'')
         \<in> set (snd (stripe_parts (header_get [(''Stripe-Signature'', [stripe_header ''whsec'' 1000 ''{}''])] ''Stripe-Signature'')))
     \<and> (- (2 ^ 62) < ts \<and> ts < 2 ^ 62 \<longrightarrow> 1200 * Second - ts * Second \<le> 5 * Minute)"
proof (rule stripe_fresh, rule stripe_header_verifies)
  have t: "trim_space ''whsec'' = ''whsec''" by (rule trim_space_graphic) code_simp
  show "header_get [(''Stripe-Signature'', [stripe_header ''whsec'' 1000 ''{}''])] ''Stripe-Signature''
      = stripe_header (trim_space ''whsec'') 1000 ''{}''"
    unfolding header_get_def canonical_stripe t by simp
  show "trim_space ''whsec'' \<noteq> []" unfolding t by simp
qed simp_all

section \<open>Sealed events\<close>

lemma open_seal:
  "sealEventFields enc rs h p = Inr (h', p') \<Longrightarrow> openEventFields enc h' p' True = Inr (h, p)"
  by (auto simp: sealEventFields_def openEventFields_def split: option.splits sum.splits dest!: box.dec_enc)

text \<open>
  Encrypting in place: each statement rewrites one row so that it still opens to the same event,
  so the events that the store returns are the same before, during and after.
\<close>

definition opened :: "encryptor \<Rightarrow> event_row \<Rightarrow> Event option result" where
  "opened e r = scanEvent (Some e) (Some r)"

definition plain_row :: "tables \<Rightarrow> uuid \<times> bytes \<times> bytes \<Rightarrow> bool" where
  "plain_row t row = (case row of (i, h, p) \<Rightarrow>
     (\<forall>r \<in> set (events t). erow_id r = i \<longrightarrow>
        erow_raw_headers r = h \<and> erow_raw_payload r = p \<and> \<not> erow_encrypted r))"

lemma opened_sealed:
  assumes "sealEventFields (Some e) rs (erow_raw_headers r) (erow_raw_payload r) = Inr (h, p)"
    and "\<not> erow_encrypted r"
  shows "opened e (r\<lparr>erow_raw_headers := h, erow_raw_payload := p, erow_encrypted := True\<rparr>) = opened e r"
  using open_seal [OF assms(1)] assms(2) by (simp add: opened_def scanEvent_def openEventFields_def)

lemma encrypt_row_stmt_opened:
  assumes "plain_row (tbl d) (i, h, p)" and "sealEventFields (Some e) rs h p = Inr (h', p')"
    and "encrypt_row_stmt i h' p' d = (r, d')"
  shows "map (opened e) (events (tbl d')) = map (opened e) (events (tbl d))"
    and "keys erow_id (events (tbl d')) = keys erow_id (events (tbl d))"
    and "j \<noteq> i \<Longrightarrow> plain_row (tbl d) (j, x) \<Longrightarrow> plain_row (tbl d') (j, x)"
proof -
  let ?f = "\<lambda>r. r\<lparr>erow_raw_headers := h', erow_raw_payload := p', erow_encrypted := True\<rparr>"
  have d': "events (tbl d') = events (tbl d) \<or> events (tbl d') = update_by erow_id i ?f (events (tbl d))"
    using assms(3) by (auto simp: encrypt_row_stmt_def pool_def Let_def split: list.splits fault.splits)
  have "opened e (?f r) = opened e r" if "r \<in> set (events (tbl d))" "erow_id r = i" for r
    using that assms(1,2) by (intro opened_sealed) (auto simp: plain_row_def)
  then show "map (opened e) (events (tbl d')) = map (opened e) (events (tbl d))"
    using d' by (auto simp: update_by_def)
  show "keys erow_id (events (tbl d')) = keys erow_id (events (tbl d))"
    using d' by (auto simp: keys_update_by)
  show "j \<noteq> i \<Longrightarrow> plain_row (tbl d) (j, x) \<Longrightarrow> plain_row (tbl d') (j, x)"
    using d' by (auto simp: plain_row_def update_by_def split: prod.splits)
qed


lemma encrypt_row_stmt_done:
  "encrypt_row_stmt i h p d = (Inr n, d') \<Longrightarrow>
   events (tbl d') = update_by erow_id i
     (\<lambda>r. r\<lparr>erow_raw_headers := h, erow_raw_payload := p, erow_encrypted := True\<rparr>) (events (tbl d))"
  unfolding encrypt_row_stmt_def by (drule pool_InrD) auto

definition covers :: "(uuid \<times> bytes \<times> bytes) list \<Rightarrow> tables \<Rightarrow> bool" where
  "covers rows t \<longleftrightarrow> (\<forall>r \<in> set (events t). erow_encrypted r \<or> erow_id r \<in> fst ` set rows)"

lemma backfill_rows_opened:
  assumes "distinct (map fst rows)" and "\<forall>row \<in> set rows. plain_row (tbl d) row"
  shows "map (opened e) (events (tbl (snd (backfill_rows e rs k rows n d)))) = map (opened e) (events (tbl d))"
    and "covers rows (tbl d) \<Longrightarrow> snd (fst (backfill_rows e rs k rows n d)) = None \<Longrightarrow>
         list_all erow_encrypted (events (tbl (snd (backfill_rows e rs k rows n d))))"
  using assms
proof (induction rows arbitrary: k n d)
  case Nil
  case 1 show ?case by simp
  case 2 then show ?case by (simp add: covers_def list_all_iff)
next
  case (Cons row rows)
  obtain i h p where row: "row = (i, h, p)" by (cases row)
  have later: "\<forall>row \<in> set rows. plain_row (tbl d') row"
    if "sealEventFields (Some e) (rs k) h p = Inr (h', p')" "encrypt_row_stmt i h' p' d = (r, d')"
      "distinct (map fst (row # rows))" "\<forall>row \<in> set (row # rows). plain_row (tbl d) row" for h' p' r d' d k
    using encrypt_row_stmt_opened(3) [OF _ that(1,2)] that(3,4) unfolding row by fastforce
  {
    case 1
    show ?case
    proof (cases "sealEventFields (Some e) (rs k) h p")
      case (Inl err)
      then show ?thesis by (simp add: row)
    next
      case (Inr hp)
      obtain h' p' where hp: "hp = (h', p')" by (cases hp)
      obtain r d' where x: "encrypt_row_stmt i h' p' d = (r, d')" by fastforce
      have "map (opened e) (events (tbl d')) = map (opened e) (events (tbl d))"
        using encrypt_row_stmt_opened(1) [OF _ Inr [unfolded hp] x] 1 row by simp
      then show ?thesis
        using Cons.IH(1) [of d'] later [OF Inr [unfolded hp] x 1] 1 by (simp add: row Inr hp x split: sum.splits)
    qed
  next
    case 2
    show ?case
    proof (cases "sealEventFields (Some e) (rs k) h p")
      case (Inl err)
      then show ?thesis using 2 by (simp add: row)
    next
      case (Inr hp)
      obtain h' p' where hp: "hp = (h', p')" by (cases hp)
      obtain r d' where x: "encrypt_row_stmt i h' p' d = (r, d')" by fastforce
      have "r = Inr m \<Longrightarrow> covers rows (tbl d')" for m
        using 2(1) encrypt_row_stmt_done [of i h' p' d m d'] x by (auto simp: covers_def row update_by_def)
      then show ?thesis
        using Cons.IH(2) [of d'] later [OF Inr [unfolded hp] x 2(3,4)] 2 by (simp add: row Inr hp x split: sum.splits)
    qed
  }
qed

lemma backfill_opened:
  assumes "wf_tables (tbl d)"
  shows "(let res = BackfillPayloadEncryption (Some e) rs d
     in map (opened e) (events (tbl (snd res))) = map (opened e) (events (tbl d))
        \<and> (snd (fst res) = None \<longrightarrow> list_all erow_encrypted (events (tbl (snd res)))))"
proof -
  have dist: "distinct (keys erow_id (events (tbl d)))" using assms by (simp add: wf_defs)
  define rows where "rows = map (\<lambda>r. (erow_id r, erow_raw_headers r, erow_raw_payload r))
    (filter (\<lambda>r. \<not> erow_encrypted r) (events (tbl d)))"
  have "map fst rows = keys erow_id (filter (\<lambda>r. \<not> erow_encrypted r) (events (tbl d)))"
    by (simp add: rows_def keys_def)
  then have 1: "distinct (map fst rows)" using distinct_keys_filter [OF dist] by simp
  have "r = r'" if "r \<in> set (events (tbl d))" "r' \<in> set (events (tbl d))" "erow_id r = erow_id r'" for r r'
    using dist that by (auto simp: keys_def distinct_map inj_on_def)
  then have 2: "\<forall>row \<in> set rows. plain_row (tbl d) row"
    by (fastforce simp: rows_def plain_row_def)
  have 3: "covers rows (tbl d)" by (auto simp: covers_def rows_def image_image)
  have "(\<exists>err d'. BackfillPayloadEncryption (Some e) rs d = ((0, Some err), d') \<and> tbl d' = tbl d)
     \<or> (\<exists>d'. tbl d' = tbl d \<and> BackfillPayloadEncryption (Some e) rs d = backfill_rows e rs 0 rows 0 d')"
    (is "?failed \<or> ?ran")
  proof -
    let ?q = "\<lambda>d. map (\<lambda>r. (erow_id r, erow_raw_headers r, erow_raw_payload r))
      (filter (\<lambda>r. \<not> erow_encrypted r) (events (tbl d)))"
    obtain r d' where q: "select ?q d = (r, d')" by fastforce
    then have "tbl d' = tbl d" using select_tbl [of ?q d] by simp
    moreover have "r = Inr x \<Longrightarrow> x = rows" for x using select_InrD [of ?q d x d'] q by (simp add: rows_def)
    ultimately show ?thesis using q by (cases r) (auto simp: BackfillPayloadEncryption_def)
  qed
  then show ?thesis
    using backfill_rows_opened [OF 1, of _ e rs 0 0] 2 3 by (auto simp: Let_def)
qed

text \<open>
  C15. Encrypting the legacy rows in place never changes an event as the store returns it, not
  even when a statement fails half-way; and when it reports success every row is sealed.
\<close>

theorem backfill_transparent:
  assumes "wf_tables (tbl d)"
  shows "(let res = BackfillPayloadEncryption (Some e) rs d
     in map (opened e) (events (tbl (snd res))) = map (opened e) (events (tbl d))
        \<and> (snd (fst res) = None \<longrightarrow> list_all erow_encrypted (events (tbl (snd res)))))"
  by (rule backfill_opened [OF assms])

definition demo_plain_db :: db where
  "demo_plain_db =
     \<lparr>tbl = empty_tables\<lparr>connections := [\<lparr>conn_id = 1, conn_name = ''shop'', conn_source_type = ''stripe'',
         conn_inbound_path = ''ab12cd34'', conn_destination_url = ''http://d'', conn_signing_secret_enc = [],
         conn_retry_attempts = 3, conn_retry_first_delay_s = 60, conn_retry_backoff_factor = 2,
         conn_retention_days = 30, conn_is_playground = False, conn_created_at = 0\<rparr>],
       events := [\<lparr>erow_id = 7, erow_connection_id = 1, erow_provider_event_id = ''evt_1'',
         erow_raw_headers = ''{}'', erow_raw_payload = ''hello'', erow_encrypted = False,
         erow_received_at = 0, erow_workflow_id = None\<rparr>]\<rparr>,
      db_now = 5, uuid_src = (\<lambda>n. n), uuid_pos = 100, numeric = (\<lambda>_ _ x. Some x), faults = []\<rparr>"

lemma demo_plain_wf: "wf_tables (tbl demo_plain_db)"
proof -
  have "list_all connection_check (connections (tbl demo_plain_db))" by code_simp
  then show ?thesis by (simp add: wf_defs keys_def demo_plain_db_def empty_tables_def)
qed

theorem backfill_transparent_witness:
  "(let e = \<lparr>gcm_key = replicate 32 (CHR ''k'')\<rparr>;
        res = BackfillPayloadEncryption (Some e) (\<lambda>_. (Inr 1, Inr 2)) demo_plain_db
    in map (opened e) (events (tbl (snd res))) = map (opened e) (events (tbl demo_plain_db))
       \<and> list_all erow_encrypted (events (tbl (snd res))))"
proof -
  let ?e = "\<lparr>gcm_key = replicate 32 (CHR ''k'')\<rparr>"
  have "snd (fst (BackfillPayloadEncryption (Some ?e) (\<lambda>_. (Inr 1, Inr 2)) demo_plain_db)) = None"
    by (simp add: BackfillPayloadEncryption_def demo_plain_db_def empty_tables_def select_def sealEventFields_def
        EncryptBytes_def encrypt_row_stmt_def Let_def)
  then show ?thesis
    using backfill_transparent [OF demo_plain_wf, of ?e "\<lambda>_. (Inr 1, Inr 2)"] by (simp add: Let_def)
qed

end
