(* ===== verification/StoreAlerts.thy ===== *)
theory StoreAlerts
  imports StoreInv
begin

text \<open>
  The rest of \<^verbatim>\<open>internal/storage\<close>: alert rules and notifications (\<^verbatim>\<open>store.go\<close> from line 496),
  playground sessions (\<^verbatim>\<open>playground.go\<close>) and the notification settings
  (\<^verbatim>\<open>notification_settings.go\<close>), with the proofs that every method keeps \<open>app_inv\<close>.
\<close>

section \<open>Transactions\<close>

text \<open>
  \<^verbatim>\<open>Begin\<close>, a body, \<^verbatim>\<open>Commit\<close>, with a deferred \<^verbatim>\<open>Rollback\<close>: an error of the body discards its
  changes; a commit whose reply is lost has taken effect.
\<close>

definition transaction :: "'a query \<Rightarrow> 'a query" where
  "transaction body d0 =
     (case pool (\<lambda>d. (Inr (), d)) d0 of
        (Inl e, d1) \<Rightarrow> (Inl e, d1)
      | (Inr _, d1) \<Rightarrow>
          (case body d1 of
             (Inl e, d2) \<Rightarrow> (Inl e, d2\<lparr>tbl := tbl d1\<rparr>)
           | (Inr x, d2) \<Rightarrow>
               (case pool (\<lambda>d. (Inr (), d\<lparr>tbl := tbl d2\<rparr>)) (d2\<lparr>tbl := tbl d1\<rparr>) of
                  (Inl e, d3) \<Rightarrow> (Inl e, d3)
                | (Inr _, d3) \<Rightarrow> (Inr x, d3))))"

lemma pool_tbl:
  assumes "pool q d = (r, d')"
  shows "tbl d' = tbl d \<or> tbl d' = tbl (snd (q (d\<lparr>faults := tl (faults d)\<rparr>)))"
proof (rule pool_cases [of q d])
  assume "pool q d = q (d\<lparr>faults := tl (faults d)\<rparr>)"
  with assms show ?thesis by (metis snd_conv)
qed (use assms in auto)

lemma preserves_transaction:
  assumes "preserves P body"
  shows "preserves P (transaction body)"
proof (rule preservesI)
  fix d0 :: db assume P: "P (tbl d0)"
  obtain r1 d1 where b: "pool (\<lambda>d. (Inr (), d)) d0 = (r1, d1)" by fastforce
  have d1: "tbl d1 = tbl d0" using pool_tbl [OF b] by auto
  obtain r2 d2 where q: "body d1 = (r2, d2)" by fastforce
  have d2: "P (tbl d2)" using preserves_step [OF assms _ q] P d1 by simp
  obtain r3 d3 where c: "pool (\<lambda>d. (Inr (), d\<lparr>tbl := tbl d2\<rparr>)) (d2\<lparr>tbl := tbl d1\<rparr>) = (r3, d3)" by fastforce
  have "P (tbl d3)" using pool_tbl [OF c] d2 d1 P by auto
  then show "P (tbl (snd (transaction body d0)))"
    using b q c d1 P by (auto simp: transaction_def split: sum.splits)
qed

lemma transaction_InrD:
  assumes "transaction body d = (Inr x, d')"
  shows "\<exists>d1 d2. tbl d1 = tbl d \<and> body d1 = (Inr x, d2) \<and> tbl d' = tbl d2"
proof -
  obtain d1 d2 where "pool (\<lambda>d. (Inr (), d)) d = (Inr (), d1)" "body d1 = (Inr x, d2)"
    "pool (\<lambda>d. (Inr (), d\<lparr>tbl := tbl d2\<rparr>)) (d2\<lparr>tbl := tbl d1\<rparr>) = (Inr (), d')"
    using assms by (auto simp: transaction_def split: prod.splits sum.splits)
  from this(2) pool_InrD [OF this(1)] pool_InrD [OF this(3)] show ?thesis
    by (intro exI [of _ d1] exI [of _ d2]) auto
qed

section \<open>Alert rules\<close>

definition maxAlertRules :: nat where
  "maxAlertRules = 10"

definition ListAlertRules :: "AlertRule list query" where
  "ListAlertRules = select (\<lambda>d. sort_key rule_created_at (alert_rules (tbl d)))"

definition CountAlertRules :: "nat query" where
  "CountAlertRules = select (\<lambda>d. length (alert_rules (tbl d)))"

definition insert_rule_stmt :: "AlertRule \<Rightarrow> AlertRule query" where
  "insert_rule_stmt r = pool (\<lambda>d0.
     (let (i, d) = gen_random_uuid d0
      in case numeric d 10 2 (rule_threshold r) of
           None \<Rightarrow> (Inl violation, d)
         | Some th \<Rightarrow>
             (let row = r\<lparr>rule_id := i, rule_threshold := th, rule_firing_threshold := None,
                         rule_delivery_error := None, rule_created_at := db_now d, rule_updated_at := db_now d\<rparr>
              in if alert_rule_check row \<and> i \<notin> set (keys rule_id (alert_rules (tbl d)))
                 then (Inr (r\<lparr>rule_id := i, rule_created_at := db_now d, rule_updated_at := db_now d\<rparr>),
                       set_tbl (\<lambda>t. t\<lparr>alert_rules := alert_rules t @ [row]\<rparr>) d)
                 else (Inl violation, d))))"

text \<open>The count and the insert run under an exclusive lock of the table, so nothing comes between.\<close>

definition create_rule_body :: "AlertRule \<Rightarrow> AlertRule query" where
  "create_rule_body r d0 =
     (case pool (\<lambda>d. (Inr (), d)) d0 of
        (Inl e, d1) \<Rightarrow> (Inl e, d1)
      | (Inr _, d1) \<Rightarrow>
          (case CountAlertRules d1 of
             (Inl e, d2) \<Rightarrow> (Inl e, d2)
           | (Inr n, d2) \<Rightarrow>
               if maxAlertRules \<le> n then (Inl ErrTooManyAlertRules, d2)
               else insert_rule_stmt r d2))"

definition CreateAlertRule :: "AlertRule \<Rightarrow> AlertRule query" where
  "CreateAlertRule r = transaction (create_rule_body r)"

definition GetAlertRule :: "uuid \<Rightarrow> AlertRule option query" where
  "GetAlertRule i = select (\<lambda>d. find_by rule_id i (alert_rules (tbl d)))"

definition update_rule_stmt :: "uuid \<Rightarrow> AlertRule \<Rightarrow> time query" where
  "update_rule_stmt i r = pool (\<lambda>d.
     (case numeric d 10 2 (rule_threshold r) of
        None \<Rightarrow> (Inl violation, d)
      | Some th \<Rightarrow>
          (let rows = update_by rule_id i (\<lambda>x. x\<lparr>rule_active := rule_active r, rule_threshold := th,
                 rule_subject_template := rule_subject_template r, rule_body_template := rule_body_template r,
                 rule_updated_at := db_now d\<rparr>) (alert_rules (tbl d))
           in if i \<notin> set (keys rule_id (alert_rules (tbl d))) then (Inl ErrNoRows, d)
              else if list_all alert_rule_check rows
              then (Inr (db_now d), set_tbl (\<lambda>t. t\<lparr>alert_rules := rows\<rparr>) d)
              else (Inl violation, d))))"

definition UpdateAlertRule ::
  "uuid \<Rightarrow> bool option \<Rightarrow> float64 option \<Rightarrow> string option \<Rightarrow> string option \<Rightarrow> AlertRule query" where
  "UpdateAlertRule i active threshold subjectTemplate bodyTemplate d0 =
     (case GetAlertRule i d0 of
        (Inl e, d) \<Rightarrow> (Inl e, d)
      | (Inr None, d) \<Rightarrow> (Inl ErrAlertRuleNotFound, d)
      | (Inr (Some r0), d) \<Rightarrow>
          (let r = r0\<lparr>rule_active := override active (rule_active r0),
                     rule_threshold := override threshold (rule_threshold r0),
                     rule_subject_template :=
                       (if subjectTemplate \<noteq> None then subjectTemplate else rule_subject_template r0),
                     rule_body_template :=
                       (if bodyTemplate \<noteq> None then bodyTemplate else rule_body_template r0)\<rparr>
           in case update_rule_stmt i r d of
                (Inl e, d') \<Rightarrow> (Inl e, d')
              | (Inr u, d') \<Rightarrow> (Inr (r\<lparr>rule_updated_at := u\<rparr>), d')))"

text \<open>Deleting a rule deletes its notifications (\<^verbatim>\<open>ON DELETE CASCADE\<close>).\<close>

definition DeleteAlertRule :: "uuid \<Rightarrow> unit query" where
  "DeleteAlertRule i = pool (\<lambda>d.
     (if i \<in> set (keys rule_id (alert_rules (tbl d)))
      then (Inr (), set_tbl (\<lambda>t. t\<lparr>alert_rules := filter (\<lambda>r. rule_id r \<noteq> i) (alert_rules t),
              alert_notifications := filter (\<lambda>n. an_alert_rule_id n \<noteq> i) (alert_notifications t)\<rparr>) d)
      else (Inl ErrAlertRuleNotFound, d)))"

definition set_rule_stmt :: "uuid \<Rightarrow> (AlertRule \<Rightarrow> AlertRule) \<Rightarrow> db \<Rightarrow> unit result \<times> db" where
  "set_rule_stmt i f d =
     (if i \<notin> set (keys rule_id (alert_rules (tbl d))) then (Inl ErrAlertRuleNotFound, d)
      else let rows = update_by rule_id i f (alert_rules (tbl d))
           in if list_all alert_rule_check rows then (Inr (), set_tbl (\<lambda>t. t\<lparr>alert_rules := rows\<rparr>) d)
              else (Inl violation, d))"

definition numeric_opt :: "db \<Rightarrow> float64 option \<Rightarrow> float64 option option" where
  "numeric_opt d x = (case x of None \<Rightarrow> Some None | Some v \<Rightarrow> map_option Some (numeric d 10 2 v))"

definition SetAlertRuleFiring :: "uuid \<Rightarrow> float64 option \<Rightarrow> unit query" where
  "SetAlertRuleFiring i threshold = pool (\<lambda>d.
     (case numeric_opt d threshold of
        None \<Rightarrow> (Inl violation, d)
      | Some th \<Rightarrow> set_rule_stmt i (\<lambda>r. r\<lparr>rule_firing_threshold := th\<rparr>) d))"

definition SetAlertRuleDeliveryError :: "uuid \<Rightarrow> string option \<Rightarrow> unit query" where
  "SetAlertRuleDeliveryError i message = pool (set_rule_stmt i (\<lambda>r. r\<lparr>rule_delivery_error := message\<rparr>))"

definition RecordAlertNotification :: "AlertNotification \<Rightarrow> AlertNotification query" where
  "RecordAlertNotification n = pool (\<lambda>d0.
     (let (i, d) = gen_random_uuid d0; t = tbl d
      in case (numeric d 10 2 (an_threshold n), numeric d 10 2 (an_current_value n)) of
           (Some th, Some v) \<Rightarrow>
             (let row = n\<lparr>an_id := i, an_threshold := th, an_current_value := v, an_fired_at := db_now d\<rparr>
              in if text_ok (an_rule_name n) \<and> text_ok (an_rule_type n)
                    \<and> i \<notin> set (keys an_id (alert_notifications t))
                    \<and> an_alert_rule_id n \<in> set (keys rule_id (alert_rules t))
                 then (Inr (n\<lparr>an_id := i, an_fired_at := db_now d\<rparr>),
                       set_tbl (\<lambda>t. t\<lparr>alert_notifications := alert_notifications t @ [row]\<rparr>) d)
                 else (Inl violation, d))
         | _ \<Rightarrow> (Inl violation, d)))"

definition ListAlertNotifications :: "nat \<Rightarrow> AlertNotification list query" where
  "ListAlertNotifications limit = select (\<lambda>d.
     take limit (sort_key (\<lambda>n. - an_fired_at n) (alert_notifications (tbl d))))"

section \<open>Playground sessions\<close>

definition GetPlaygroundSession :: "uuid \<Rightarrow> PlaygroundSession option query" where
  "GetPlaygroundSession i = select (\<lambda>d. find_by ps_id i (playground_sessions (tbl d)))"

definition TouchPlaygroundSession :: "uuid \<Rightarrow> unit query" where
  "TouchPlaygroundSession i = pool (\<lambda>d.
     (Inr (), set_tbl (\<lambda>t. t\<lparr>playground_sessions :=
        update_by ps_id i (\<lambda>p. p\<lparr>ps_last_seen_at := db_now d\<rparr>) (playground_sessions t)\<rparr>) d))"

definition SetPlaygroundFailDestination :: "uuid \<Rightarrow> bool \<Rightarrow> unit query" where
  "SetPlaygroundFailDestination i fail = pool (\<lambda>d.
     (Inr (), set_tbl (\<lambda>t. t\<lparr>playground_sessions :=
        update_by ps_id i (\<lambda>p. p\<lparr>ps_fail_destination := fail, ps_last_seen_at := db_now d\<rparr>)
          (playground_sessions t)\<rparr>) d))"

definition playground_connection :: "string \<Rightarrow> bytes \<Rightarrow> string \<Rightarrow> Connection" where
  "playground_connection path secretEnc destURL =
     \<lparr>conn_id = 0, conn_name = ''Playground'', conn_source_type = ''stripe'', conn_inbound_path = path,
      conn_destination_url = destURL, conn_signing_secret_enc = secretEnc, conn_retry_attempts = 3,
      conn_retry_first_delay_s = 5, conn_retry_backoff_factor = 2, conn_retention_days = 1,
      conn_is_playground = True, conn_created_at = 0\<rparr>"

definition insert_session_stmt :: "uuid \<Rightarrow> uuid \<Rightarrow> PlaygroundSession query" where
  "insert_session_stmt sessionID connID = pool (\<lambda>d.
     (let row = \<lparr>ps_id = sessionID, ps_connection_id = connID, ps_fail_destination = False,
                 ps_created_at = db_now d, ps_last_seen_at = db_now d\<rparr>
      in if sessionID \<notin> set (keys ps_id (playground_sessions (tbl d)))
            \<and> connID \<notin> set (keys ps_connection_id (playground_sessions (tbl d)))
            \<and> connID \<in> set (keys conn_id (connections (tbl d)))
         then (Inr row, set_tbl (\<lambda>t. t\<lparr>playground_sessions := playground_sessions t @ [row]\<rparr>) d)
         else (Inl violation, d)))"

text \<open>The insert of the connection is the statement of \<^verbatim>\<open>CreateConnection\<close>, run in the transaction.\<close>

definition create_session_body :: "uuid \<Rightarrow> Connection \<Rightarrow> (PlaygroundSession \<times> Connection) query" where
  "create_session_body sessionID conn d0 =
     (case CreateConnection conn d0 of
        (Inl e, d1) \<Rightarrow> (Inl e, d1)
      | (Inr c, d1) \<Rightarrow>
          (case insert_session_stmt sessionID (conn_id c) d1 of
             (Inl e, d2) \<Rightarrow> (Inl e, d2)
           | (Inr ps, d2) \<Rightarrow> (Inr (ps, c), d2)))"

definition CreatePlaygroundSession ::
  "string \<Rightarrow> uuid \<Rightarrow> bytes \<Rightarrow> string \<Rightarrow> (PlaygroundSession \<times> Connection) query" where
  "CreatePlaygroundSession path sessionID secretEnc destURL =
     transaction (create_session_body sessionID (playground_connection path secretEnc destURL))"

definition CountPlaygroundSessions :: "nat query" where
  "CountPlaygroundSessions = select (\<lambda>d. length (playground_sessions (tbl d)))"

definition DeletePlaygroundSessionsOlderThan :: "time \<Rightarrow> nat query" where
  "DeletePlaygroundSessionsOlderThan cutoff = pool (\<lambda>d.
     (Inr (length (filter (\<lambda>p. ps_last_seen_at p < cutoff) (playground_sessions (tbl d)))),
      set_tbl (\<lambda>t. t\<lparr>playground_sessions :=
        filter (\<lambda>p. \<not> ps_last_seen_at p < cutoff) (playground_sessions t)\<rparr>) d))"

definition oldest_sessions :: "nat \<Rightarrow> tables \<Rightarrow> uuid list" where
  "oldest_sessions n t = map ps_id (take n (sort_key ps_last_seen_at (playground_sessions t)))"

definition EvictOldestPlaygroundSessions :: "nat \<Rightarrow> nat query" where
  "EvictOldestPlaygroundSessions n = pool (\<lambda>d.
     (let gone = oldest_sessions n (tbl d)
      in (Inr (length (filter (\<lambda>p. ps_id p \<in> set gone) (playground_sessions (tbl d)))),
          set_tbl (\<lambda>t. t\<lparr>playground_sessions :=
            filter (\<lambda>p. ps_id p \<notin> set gone) (playground_sessions t)\<rparr>) d)))"

definition UpdateConnectionSourceType :: "uuid \<Rightarrow> string \<Rightarrow> unit query" where
  "UpdateConnectionSourceType i sourceType = pool (\<lambda>d.
     (let rows = update_by conn_id i (\<lambda>c. c\<lparr>conn_source_type := sourceType\<rparr>) (connections (tbl d))
      in if list_all connection_check rows then (Inr (), set_tbl (\<lambda>t. t\<lparr>connections := rows\<rparr>) d)
         else (Inl violation, d)))"

definition GetLatestOpenIssueForConnection :: "uuid \<Rightarrow> Issue option query" where
  "GetLatestOpenIssueForConnection connID = select (\<lambda>d.
     (case sort_key (\<lambda>i. - iss_first_failed_at i)
             (List.map_filter (join_issue (tbl d))
               (filter (\<lambda>i. iss_connection_id i = connID) (open_issues (tbl d)))) of
        [] \<Rightarrow> None | i # _ \<Rightarrow> Some i))"

definition OpenIssuesCountForConnection :: "uuid \<Rightarrow> nat query" where
  "OpenIssuesCountForConnection connID = select (\<lambda>d.
     length (filter (\<lambda>i. iss_connection_id i = connID) (open_issues (tbl d))))"

definition recent :: "time \<Rightarrow> Delivery \<Rightarrow> bool" where
  "recent now r \<longleftrightarrow> now - 24 * Hour < del_attempted_at r"

definition DeliveredCount24hForConnection :: "uuid \<Rightarrow> nat query" where
  "DeliveredCount24hForConnection connID = select (\<lambda>d.
     length (filter (\<lambda>r. event_connection (tbl d) (del_event_id r) = Some connID
       \<and> del_status r = ''delivered'' \<and> recent (db_now d) r) (deliveries (tbl d))))"

section \<open>Notification settings\<close>

definition no_settings :: NotificationSettings where
  "no_settings = \<lparr>ns_smtp_host = [], ns_smtp_port = 0, ns_smtp_username = [], ns_smtp_password_enc = None,
     ns_smtp_from = [], ns_slack_bot_token_enc = None\<rparr>"

definition GetNotificationSettings :: "NotificationSettings query" where
  "GetNotificationSettings = select (\<lambda>d.
     (case notification_settings (tbl d) of None \<Rightarrow> no_settings | Some r \<Rightarrow> r))"

definition SaveNotificationSettings :: "NotificationSettings \<Rightarrow> unit query" where
  "SaveNotificationSettings row = pool (\<lambda>d.
     (if text_ok (ns_smtp_host row) \<and> int4 (ns_smtp_port row) \<and> text_ok (ns_smtp_username row)
         \<and> text_ok (ns_smtp_from row)
      then (Inr (), set_tbl (\<lambda>t. t\<lparr>notification_settings := Some row\<rparr>) d)
      else (Inl violation, d)))"


section \<open>Every method keeps the invariant\<close>

lemma alert_reads_keep [keeps]:
  "preserves P ListAlertRules" "preserves P CountAlertRules" "preserves P (GetAlertRule i)"
  "preserves P (ListAlertNotifications n)" "preserves P (GetPlaygroundSession i)"
  "preserves P CountPlaygroundSessions" "preserves P (GetLatestOpenIssueForConnection i)"
  "preserves P (OpenIssuesCountForConnection i)" "preserves P (DeliveredCount24hForConnection i)"
  "preserves P GetNotificationSettings"
  by (simp_all add: ListAlertRules_def CountAlertRules_def GetAlertRule_def ListAlertNotifications_def
      GetPlaygroundSession_def CountPlaygroundSessions_def GetLatestOpenIssueForConnection_def
      OpenIssuesCountForConnection_def DeliveredCount24hForConnection_def GetNotificationSettings_def
      preserves_select)

lemma app_inv_insert_rule:
  assumes "app_inv t" and "alert_rule_check r" and "rule_id r \<notin> set (keys rule_id (alert_rules t))"
    and "length (alert_rules t) < maxAlertRules"
  shows "app_inv (t\<lparr>alert_rules := alert_rules t @ [r]\<rparr>)"
  using assms
  by (simp add: app_inv_def wf_defs issue_matches_event_def issue_status_ok_def row_simps maxAlertRules_def)

lemma app_inv_update_rule:
  assumes "app_inv t" and "\<And>r. rule_id (f r) = rule_id r"
    and "list_all alert_rule_check (update_by rule_id i f (alert_rules t))"
  shows "app_inv (t\<lparr>alert_rules := update_by rule_id i f (alert_rules t)\<rparr>)"
  using assms
  by (simp add: app_inv_def wf_defs issue_matches_event_def issue_status_ok_def list_all_iff row_simps
      keys_update_by [of rule_id f])

lemma app_inv_delete_rule:
  assumes "app_inv t"
  shows "app_inv (t\<lparr>alert_rules := filter (\<lambda>r. rule_id r \<noteq> i) (alert_rules t),
    alert_notifications := filter (\<lambda>n. an_alert_rule_id n \<noteq> i) (alert_notifications t)\<rparr>)"
proof -
  have "length (filter (\<lambda>r. rule_id r \<noteq> i) (alert_rules t)) \<le> 10"
    using assms by (intro le_trans [OF length_filter_le]) (simp add: app_inv_def)
  moreover have "set (keys rule_id (filter (\<lambda>r. rule_id r \<noteq> i) xs)) = set (keys rule_id xs) - {i}"
    for xs :: "AlertRule list"
    by (auto simp: keys_def)
  ultimately show ?thesis
    using assms
    by (simp add: app_inv_def wf_defs issue_matches_event_def issue_status_ok_def distinct_keys_filter)
qed

lemma app_inv_insert_notification:
  assumes "app_inv t" and "an_id n \<notin> set (keys an_id (alert_notifications t))"
    and "an_alert_rule_id n \<in> set (keys rule_id (alert_rules t))"
  shows "app_inv (t\<lparr>alert_notifications := alert_notifications t @ [n]\<rparr>)"
  using assms
  by (simp add: app_inv_def wf_defs issue_matches_event_def issue_status_ok_def row_simps)

lemma insert_rule_stmt_keeps:
  "app_inv (tbl d) \<Longrightarrow> length (alert_rules (tbl d)) < maxAlertRules \<Longrightarrow> app_inv (tbl (snd (insert_rule_stmt r d)))"
proof -
  let ?P = "\<lambda>t. app_inv t \<and> alert_rules t = alert_rules (tbl d)"
  assume a: "app_inv (tbl d)" "length (alert_rules (tbl d)) < maxAlertRules"
  obtain x d' where p: "insert_rule_stmt r d = (x, d')" by fastforce
  show "app_inv (tbl (snd (insert_rule_stmt r d)))"
    using pool_tbl [OF p [unfolded insert_rule_stmt_def]] a p
    by (auto simp: Let_def split_beta split: option.splits if_splits intro!: app_inv_insert_rule)
qed

lemma create_rule_body_keeps: "preserves app_inv (create_rule_body r)"
proof (rule preservesI)
  fix d0 :: db assume inv: "app_inv (tbl d0)"
  have t1: "tbl d1 = tbl d0" if "pool (\<lambda>d. (Inr (), d)) d0 = (x, d1)" for x d1
    using pool_tbl [OF that] by auto
  have c: "tbl d2 = tbl d1 \<and> (x = Inr n \<longrightarrow> n = length (alert_rules (tbl d1)))" if "CountAlertRules d1 = (x, d2)" for x n d1 d2
    using that preserves_step [OF alert_reads_keep(2) [of "\<lambda>t. t = tbl d1"] refl]
    by (auto simp: CountAlertRules_def dest: select_InrD)
  show "app_inv (tbl (snd (create_rule_body r d0)))"
    using inv by (auto simp: create_rule_body_def split: prod.splits sum.splits dest!: t1 c
        intro!: insert_rule_stmt_keeps)
qed

lemma CreateAlertRule_keeps [keeps]: "preserves app_inv (CreateAlertRule r)"
  unfolding CreateAlertRule_def by (rule preserves_transaction [OF create_rule_body_keeps])

lemma update_rule_stmt_keeps [keeps]: "preserves app_inv (update_rule_stmt i r)"
  unfolding update_rule_stmt_def
  by (rule preserves_pool) (auto simp: Let_def intro!: app_inv_update_rule split: option.splits)

lemma UpdateAlertRule_keeps [keeps]: "preserves app_inv (UpdateAlertRule i a t s b)"
  by (rule preservesI)
     (auto simp: UpdateAlertRule_def Let_def split: prod.splits sum.splits option.splits
       dest: preserves_step [OF alert_reads_keep(3)] preserves_step [OF update_rule_stmt_keeps])

lemma DeleteAlertRule_keeps [keeps]: "preserves app_inv (DeleteAlertRule i)"
  unfolding DeleteAlertRule_def by (rule preserves_pool) (auto intro!: app_inv_delete_rule)

lemma set_rule_stmt_keeps:
  "app_inv (tbl d) \<Longrightarrow> (\<And>r. rule_id (f r) = rule_id r) \<Longrightarrow> app_inv (tbl (snd (set_rule_stmt i f d)))"
  by (auto simp: set_rule_stmt_def Let_def intro!: app_inv_update_rule)

lemma SetAlertRuleFiring_keeps [keeps]: "preserves app_inv (SetAlertRuleFiring i th)"
  unfolding SetAlertRuleFiring_def
  by (rule preserves_pool) (auto split: option.splits intro!: set_rule_stmt_keeps)

lemma SetAlertRuleDeliveryError_keeps [keeps]: "preserves app_inv (SetAlertRuleDeliveryError i m)"
  unfolding SetAlertRuleDeliveryError_def
  by (rule preserves_pool) (auto intro!: set_rule_stmt_keeps)

lemma RecordAlertNotification_keeps [keeps]: "preserves app_inv (RecordAlertNotification n)"
  unfolding RecordAlertNotification_def
  by (rule preserves_pool)
     (auto simp: Let_def split_beta split: option.splits intro!: app_inv_insert_notification)

lemma app_inv_update_sessions:
  assumes "app_inv t" and "\<And>p. ps_id (f p) = ps_id p" and "\<And>p. ps_connection_id (f p) = ps_connection_id p"
  shows "app_inv (t\<lparr>playground_sessions := update_by ps_id i f (playground_sessions t)\<rparr>)"
  using assms
  by (auto simp: app_inv_def wf_defs issue_matches_event_def issue_status_ok_def set_update_by
      keys_update_by [of ps_id f] keys_update_by [of ps_connection_id f])

lemma app_inv_filter_sessions:
  "app_inv t \<Longrightarrow> app_inv (t\<lparr>playground_sessions := filter P (playground_sessions t)\<rparr>)"
  by (simp add: app_inv_def wf_defs issue_matches_event_def issue_status_ok_def distinct_keys_filter)

lemma TouchPlaygroundSession_keeps [keeps]: "preserves app_inv (TouchPlaygroundSession i)"
  and SetPlaygroundFailDestination_keeps [keeps]: "preserves app_inv (SetPlaygroundFailDestination i b)"
  and DeletePlaygroundSessionsOlderThan_keeps [keeps]: "preserves app_inv (DeletePlaygroundSessionsOlderThan c)"
  and EvictOldestPlaygroundSessions_keeps [keeps]: "preserves app_inv (EvictOldestPlaygroundSessions n)"
  unfolding TouchPlaygroundSession_def SetPlaygroundFailDestination_def DeletePlaygroundSessionsOlderThan_def
    EvictOldestPlaygroundSessions_def
  by (rule preserves_pool; auto simp: Let_def intro!: app_inv_update_sessions app_inv_filter_sessions)+

lemma insert_session_stmt_keeps [keeps]: "preserves app_inv (insert_session_stmt s c)"
  unfolding insert_session_stmt_def
  by (rule preserves_pool)
     (auto simp: Let_def app_inv_def wf_defs issue_matches_event_def issue_status_ok_def row_simps)

lemma create_session_body_keeps: "preserves app_inv (create_session_body s c)"
  by (rule preservesI)
     (auto simp: create_session_body_def split: prod.splits sum.splits
       dest: preserves_step [OF CreateConnection_keeps] preserves_step [OF insert_session_stmt_keeps])

lemma CreatePlaygroundSession_keeps [keeps]: "preserves app_inv (CreatePlaygroundSession p s e u)"
  unfolding CreatePlaygroundSession_def by (rule preserves_transaction [OF create_session_body_keeps])

lemma UpdateConnectionSourceType_keeps [keeps]: "preserves app_inv (UpdateConnectionSourceType i s)"
  unfolding UpdateConnectionSourceType_def
  by (rule preserves_pool) (auto simp: Let_def intro!: app_inv_update_connection)

lemma SaveNotificationSettings_keeps [keeps]: "preserves app_inv (SaveNotificationSettings r)"
  unfolding SaveNotificationSettings_def
  by (rule preserves_pool)
     (auto simp: app_inv_def wf_defs issue_matches_event_def issue_status_ok_def)

end
