(* ===== verification/Ingest.thy ===== *)
theory Ingest
  imports Delivery Adapters Json Config StoreAlerts
begin

text \<open>
  \<^verbatim>\<open>internal/api/server.go\<close>: the state of the API server, the connection cache, the ingestion
  handler and the start of workflows.  The handlers of the console are in the theory
  \<open>Handlers\<close>.  Parameters: what Temporal answers to a start, the text form of UUIDs, and the
  parameters of the adapters.
\<close>

section \<open>The server\<close>

record cachedConnection =
  cc_conn :: Connection
  cc_secret :: string
  cc_expires_at :: time

record server_env =
  cfg :: config
  encryptor_of :: encryptor
  store_enc :: "encryptor option"
  ustr :: "uuid \<Rightarrow> string"
  parse_uuid :: "string \<Rightarrow> uuid option"
  nfkd_of :: "string \<Rightarrow> string"
  start_err :: "nat \<Rightarrow> string \<Rightarrow> string option"

text \<open>
  The state: the database, the cache, the collectors, the workflows that Temporal accepted
  (identifier and event) and how many starts were tried.
\<close>

record server =
  srv_db :: db
  srv_cache :: "string \<Rightarrow> cachedConnection option"
  srv_metrics :: metrics
  srv_started :: "(string \<times> uuid) list"
  srv_starts :: nat

text \<open>
  A handler's answer: \<^verbatim>\<open>http.Error\<close> with a status and a text, or a status with the value it
  writes.
\<close>

datatype 'b reply = Error int string | Reply int 'b

abbreviation not_found :: "'b reply" where
  "not_found \<equiv> Error 404 ''404 page not found''"

abbreviation internal_error :: "'b reply" where
  "internal_error \<equiv> Error 500 ''internal error''"

fun status_of :: "'b reply \<Rightarrow> int" where
  "status_of (Error c _) = c"
| "status_of (Reply c _) = c"

section \<open>Health\<close>

definition healthz :: "server \<Rightarrow> string reply \<times> server" where
  "healthz s = (Reply 200 ''ok'', s)"

definition readyz :: "server \<Rightarrow> string reply \<times> server" where
  "readyz s =
     (case Ping (srv_db s) of
        (Inl e, d) \<Rightarrow> (Reply 503 (error_string e), s\<lparr>srv_db := d\<rparr>)
      | (Inr _, d) \<Rightarrow> (Reply 200 ''ready'', s\<lparr>srv_db := d\<rparr>))"

section \<open>Ingestion\<close>

text \<open>A request body as it arrives: its bytes, and whether reading fails after them.\<close>

record body_stream =
  bs_bytes :: bytes
  bs_fails :: bool

definition readBodyLimit :: "int \<Rightarrow> body_stream \<Rightarrow> bytes result" where
  "readBodyLimit maxBytes b =
     (if max 0 maxBytes < int (length (bs_bytes b)) then Inl (ErrText ''http: request body too large'')
      else if bs_fails b then Inl (ErrText ''unexpected EOF'')
      else Inr (bs_bytes b))"

text \<open>\<open>clk n\<close> is the wall clock at the \<open>n\<close>-th time the handler reads it.\<close>

definition getCachedConnection ::
  "server_env \<Rightarrow> (nat \<Rightarrow> time) \<Rightarrow> string \<Rightarrow> server \<Rightarrow> (Connection option \<times> string) result \<times> server" where
  "getCachedConnection E clk path s =
     (let miss =
        (case GetConnectionByInboundPath path (srv_db s) of
           (Inl e, d) \<Rightarrow> (Inl e, s\<lparr>srv_db := d\<rparr>)
         | (Inr None, d) \<Rightarrow> (Inr (None, []), s\<lparr>srv_db := d\<rparr>)
         | (Inr (Some conn), d) \<Rightarrow>
             (case Decrypt (encryptor_of E) (conn_signing_secret_enc conn) of
                Inl e \<Rightarrow> (Inl e, s\<lparr>srv_db := d\<rparr>)
              | Inr secret \<Rightarrow>
                  (Inr (Some conn, secret),
                   s\<lparr>srv_db := d,
                     srv_cache := (srv_cache s)(path \<mapsto>
                       \<lparr>cc_conn = conn, cc_secret = secret, cc_expires_at = clk 1 + 30 * Second\<rparr>)\<rparr>)))
      in case srv_cache s path of
           Some c \<Rightarrow> if clk 0 < cc_expires_at c then (Inr (Some (cc_conn c), cc_secret c), s) else miss
         | None \<Rightarrow> miss)"

definition header_json :: "header \<Rightarrow> bytes" where
  "header_json h = marshal (JObj (map (\<lambda>(k, vs). (k, JArr (map JStr vs))) h))"

text \<open>\<^verbatim>\<open>ExecuteWorkflow\<close>: Temporal records the start, or refuses it.\<close>

definition ExecuteWorkflow :: "server_env \<Rightarrow> string \<Rightarrow> uuid \<Rightarrow> server \<Rightarrow> unit result \<times> server" where
  "ExecuteWorkflow E wfID eventID s0 =
     (let s = s0\<lparr>srv_starts := Suc (srv_starts s0)\<rparr>
      in case start_err E (srv_starts s0) wfID of
           Some m \<Rightarrow> (Inl (ErrText m), s)
         | None \<Rightarrow> (Inr (), s\<lparr>srv_started := srv_started s @ [(wfID, eventID)]\<rparr>))"

definition count_ingest :: "Connection \<Rightarrow> string \<Rightarrow> server \<Rightarrow> server" where
  "count_ingest conn outcome s = s\<lparr>srv_metrics := IngestionTotal_Inc (conn_id conn) outcome (srv_metrics s)\<rparr>"

definition new_event :: "Connection \<Rightarrow> string \<Rightarrow> bytes \<Rightarrow> bytes \<Rightarrow> Event" where
  "new_event conn providerID headersJSON body =
     \<lparr>ev_id = 0, ev_connection_id = conn_id conn, ev_provider_event_id = providerID,
      ev_raw_headers = headersJSON, ev_raw_payload = body, ev_received_at = 0, ev_workflow_id = None\<rparr>"

text \<open>What follows the acknowledgement of a newly stored event.\<close>

definition start_delivery :: "server_env \<Rightarrow> uuid \<Rightarrow> server \<Rightarrow> server" where
  "start_delivery E eventID s =
     (let wfID = WorkflowID (ustr E) eventID
      in case ExecuteWorkflow E wfID eventID s of
           (Inl _, s1) \<Rightarrow> s1
         | (Inr _, s1) \<Rightarrow> s1\<lparr>srv_db := snd (SetEventWorkflowID eventID wfID (srv_db s1))\<rparr>)"

text \<open>
  The handler from the extraction of the event id on.  \<open>rs\<close> are the random bytes drawn for
  sealing.  A nil event beside \<open>Inserted\<close> cannot occur: the store returns the event it inserted.
\<close>

definition ingest_accept ::
  "server_env \<Rightarrow> 96 word result \<times> 96 word result \<Rightarrow> Connection \<Rightarrow> SourceAdapter \<Rightarrow> header \<Rightarrow> bytes
   \<Rightarrow> server \<Rightarrow> string reply \<times> server" where
  "ingest_accept E rs conn adapter headers body s =
     (let providerID = ExtractEventID adapter headers body;
          event = new_event conn providerID (header_json headers) body
      in case InsertEvent (store_enc E) rs event (srv_db s) of
           (Inl _, d) \<Rightarrow> (internal_error, s\<lparr>srv_db := d\<rparr>)
         | (Inr result, d) \<Rightarrow>
             (Reply 200 (marshal (JObj [(''received'', JBool True)])),
              let s2 = s\<lparr>srv_db := d\<rparr>
              in if \<not> ier_inserted result then count_ingest conn ''duplicate'' s2
                 else (case ier_event result of
                         None \<Rightarrow> count_ingest conn ''accepted'' s2
                       | Some ev \<Rightarrow> start_delivery E (ev_id ev) (count_ingest conn ''accepted'' s2))))"

text \<open>The whole handler; \<open>clk 2\<close> is the clock the adapter reads.\<close>

definition ingest ::
  "server_env \<Rightarrow> (nat \<Rightarrow> time) \<Rightarrow> 96 word result \<times> 96 word result \<Rightarrow> string \<Rightarrow> body_stream \<Rightarrow> header
   \<Rightarrow> server \<Rightarrow> string reply \<times> server" where
  "ingest E clk rs path stream headers s0 =
     (case readBodyLimit (MaxBodyBytes (cfg E)) stream of
        Inl _ \<Rightarrow> (Error 413 ''payload too large'', s0)
      | Inr body \<Rightarrow>
          (case getCachedConnection E clk path s0 of
             (Inr (Some conn, secret), s1) \<Rightarrow>
               (case Get (conn_source_type conn) of
                  Inl _ \<Rightarrow> (Error 500 ''misconfigured connection'', s1)
                | Inr adapter \<Rightarrow>
                    if \<not> Verify (clk 2) (nfkd_of E) adapter headers body secret
                    then (Error 401 ''invalid signature'', count_ingest conn ''invalid_signature'' s1)
                    else ingest_accept E rs conn adapter headers body s1)
           | (_, s1) \<Rightarrow> (not_found, s1)))"

text \<open>\<^verbatim>\<open>startReplay\<close>; \<open>now\<close> is the clock in nanoseconds.\<close>

definition startReplay :: "server_env \<Rightarrow> time \<Rightarrow> uuid \<Rightarrow> server \<Rightarrow> unit result \<times> server" where
  "startReplay E now eventID s = ExecuteWorkflow E (ReplayWorkflowID (ustr E) eventID now) eventID s"

text \<open>\<^verbatim>\<open>randomSecret\<close> from the 24 bytes drawn.\<close>

definition randomSecret :: "bytes \<Rightarrow> string" where
  "randomSecret b = ''whsec_'' @ hex_encode b"

section \<open>What the store does for ingestion\<close>

lemma insert_event_stmt_InrD:
  assumes "insert_event_stmt c p h b d = (Inr (i, t), d')"
  shows "i \<notin> set (keys erow_id (events (tbl d))) \<and> (c, p) \<notin> set (keys event_key (events (tbl d)))
     \<and> tbl d' = (tbl d)\<lparr>events := events (tbl d) @
          [\<lparr>erow_id = i, erow_connection_id = c, erow_provider_event_id = p, erow_raw_headers = h,
            erow_raw_payload = b, erow_encrypted = True, erow_received_at = t, erow_workflow_id = None\<rparr>]\<rparr>"
  using pool_InrD [OF assms [unfolded insert_event_stmt_def]]
  by (auto simp: Let_def split_beta split: if_splits)

lemma insert_event_stmt_conflict:
  assumes "insert_event_stmt c p h b d = (Inl ErrNoRows, d')"
  shows "(c, p) \<in> set (keys event_key (events (tbl d))) \<and> tbl d' = tbl d"
  using assms unfolding insert_event_stmt_def
  by (auto simp: pool_def Let_def split_beta split: list.splits fault.splits if_splits)

lemma InsertEvent_inserted:
  assumes "InsertEvent enc rs e d = (Inr r, d')" and "ier_inserted r"
  obtains i t h b where "ier_event r = Some (e\<lparr>ev_id := i, ev_received_at := t\<rparr>)"
    "sealEventFields enc rs (ev_raw_headers e) (ev_raw_payload e) = Inr (h, b)"
    "i \<notin> set (keys erow_id (events (tbl d)))"
    "(ev_connection_id e, ev_provider_event_id e) \<notin> set (keys event_key (events (tbl d)))"
    "tbl d' = (tbl d)\<lparr>events := events (tbl d) @
          [\<lparr>erow_id = i, erow_connection_id = ev_connection_id e, erow_provider_event_id = ev_provider_event_id e,
            erow_raw_headers = h, erow_raw_payload = b, erow_encrypted = True, erow_received_at = t,
            erow_workflow_id = None\<rparr>]\<rparr>"
  using assms
  by (auto simp: InsertEvent_def split: sum.splits prod.splits if_splits dest!: insert_event_stmt_InrD)

lemma InsertEvent_duplicate:
  assumes "InsertEvent enc rs e d = (Inr r, d')" and "\<not> ier_inserted r"
  shows "tbl d' = tbl d \<and> (ev_connection_id e, ev_provider_event_id e) \<in> set (keys event_key (events (tbl d)))"
proof -
  have g: "tbl d2 = tbl d1" if "GetEventByProviderID enc c p d1 = (x, d2)" for c p d1 d2 x
    using preserves_step [OF GetEventByProviderID_keeps [where P = "\<lambda>t. t = tbl d1"] refl that] .
  show ?thesis
    using assms
    by (auto simp: InsertEvent_def split: sum.splits prod.splits if_splits
        dest!: insert_event_stmt_conflict dest: g)
qed

lemma SetEventWorkflowID_rows:
  assumes "SetEventWorkflowID i wid d = (r, d')"
  shows "map (\<lambda>e. e\<lparr>erow_workflow_id := None\<rparr>) (events (tbl d')) = map (\<lambda>e. e\<lparr>erow_workflow_id := None\<rparr>) (events (tbl d))"
    and "connections (tbl d') = connections (tbl d)"
  using pool_tbl [OF assms [unfolded SetEventWorkflowID_def]]
  by (auto simp: update_by_def split: if_splits)

end
