(* ===== verification/IngestClaims.thy ===== *)
theory IngestClaims
  imports Ingest SecurityClaims
begin

text \<open>
  The properties of ingestion: what an acknowledged request has left in the database, that a
  rejected one leaves nothing, and how many workflows a sequence of requests starts.
\<close>

section \<open>One request\<close>

lemma getCachedConnection_frame:
  assumes "getCachedConnection E clk path s = (r, s')"
  shows "tbl (srv_db s') = tbl (srv_db s)" and "srv_started s' = srv_started s" and "srv_starts s' = srv_starts s"
  using assms preserves_step [OF GetConnectionByInboundPath_keeps [where P = "\<lambda>t. t = tbl (srv_db s)"] refl]
  by (auto simp: getCachedConnection_def Let_def split: option.splits if_splits prod.splits sum.splits)

lemma count_ingest_simps [simp]:
  "srv_db (count_ingest c out s) = srv_db s" "srv_started (count_ingest c out s) = srv_started s"
  "srv_starts (count_ingest c out s) = srv_starts s"
  by (simp_all add: count_ingest_def)

text \<open>The three ways a request can end once its connection and adapter are known.\<close>

definition stored_row ::
  "server_env \<Rightarrow> Connection \<Rightarrow> SourceAdapter \<Rightarrow> header \<Rightarrow> bytes \<Rightarrow> uuid \<Rightarrow> time \<Rightarrow> bytes \<Rightarrow> bytes \<Rightarrow> event_row" where
  "stored_row E conn a headers body i t h b =
     \<lparr>erow_id = i, erow_connection_id = conn_id conn,
      erow_provider_event_id = ExtractEventID a headers body,
      erow_raw_headers = h, erow_raw_payload = b, erow_encrypted = True, erow_received_at = t,
      erow_workflow_id = None\<rparr>"

lemma accept_cases:
  assumes "ingest_accept E rs conn a headers body s = (r, s')"
  obtains (failed) "status_of r = 500" "srv_started s' = srv_started s"
  | (duplicate) "status_of r = 200"
      "(conn_id conn, ExtractEventID a headers body) \<in> set (keys event_key (events (tbl (srv_db s))))"
      "tbl (srv_db s') = tbl (srv_db s)" "srv_started s' = srv_started s"
  | (inserted) i t h b s2 where "status_of r = 200"
      "sealEventFields (store_enc E) rs (header_json headers) body = Inr (h, b)"
      "i \<notin> set (keys erow_id (events (tbl (srv_db s))))"
      "(conn_id conn, ExtractEventID a headers body) \<notin> set (keys event_key (events (tbl (srv_db s))))"
      "tbl (srv_db s2) = (tbl (srv_db s))\<lparr>events := events (tbl (srv_db s)) @ [stored_row E conn a headers body i t h b]\<rparr>"
      "srv_started s2 = srv_started s" "srv_starts s2 = srv_starts s" "s' = start_delivery E i s2"
proof -
  let ?ev = "new_event conn (ExtractEventID a headers body) (header_json headers) body"
  obtain res d where ins: "InsertEvent (store_enc E) rs ?ev (srv_db s) = (res, d)" by fastforce
  show thesis
  proof (cases res)
    case (Inl e)
    with assms ins failed show ?thesis by (auto simp: ingest_accept_def Let_def)
  next
    case (Inr result)
    show ?thesis
    proof (cases "ier_inserted result")
      case False
      from InsertEvent_duplicate [OF ins [unfolded Inr] False] False assms ins Inr duplicate show ?thesis
        by (auto simp: ingest_accept_def Let_def new_event_def)
    next
      case True
      obtain i t h b where
        e: "ier_event result = Some (?ev\<lparr>ev_id := i, ev_received_at := t\<rparr>)"
          "sealEventFields (store_enc E) rs (ev_raw_headers ?ev) (ev_raw_payload ?ev) = Inr (h, b)"
          "i \<notin> set (keys erow_id (events (tbl (srv_db s))))"
          "(ev_connection_id ?ev, ev_provider_event_id ?ev) \<notin> set (keys event_key (events (tbl (srv_db s))))"
        and rows: "tbl d = (tbl (srv_db s))\<lparr>events := events (tbl (srv_db s)) @
          [\<lparr>erow_id = i, erow_connection_id = ev_connection_id ?ev, erow_provider_event_id = ev_provider_event_id ?ev,
            erow_raw_headers = h, erow_raw_payload = b, erow_encrypted = True, erow_received_at = t,
            erow_workflow_id = None\<rparr>]\<rparr>"
        by (rule InsertEvent_inserted [OF ins [unfolded Inr] True])
      have "tbl d = (tbl (srv_db s))\<lparr>events := events (tbl (srv_db s)) @ [stored_row E conn a headers body i t h b]\<rparr>"
        using rows by (simp add: stored_row_def new_event_def)
      note e = e this
      show ?thesis
        using e assms ins Inr True
        by (intro inserted [where i = i and t = t and h = h and b = b
              and ?s2.0 = "count_ingest conn ''accepted'' (s\<lparr>srv_db := d\<rparr>)"])
           (auto simp: ingest_accept_def Let_def new_event_def)
    qed
  qed
qed

text \<open>A request either is rejected and leaves the tables alone, or reaches the store.\<close>

lemma ingest_cases:
  assumes "ingest E clk rs path stream headers s = (r, s')"
  obtains (rejected) "status_of r \<in> {401, 404, 413, 500}" "tbl (srv_db s') = tbl (srv_db s)"
      "srv_started s' = srv_started s"
  | (accepted) conn secret a s1 where
      "getCachedConnection E clk path s = (Inr (Some conn, secret), s1)" "Get (conn_source_type conn) = Inr a"
      "Verify (clk 2) (nfkd_of E) a headers (bs_bytes stream) secret"
      "int (length (bs_bytes stream)) \<le> max 0 (MaxBodyBytes (cfg E))"
      "ingest_accept E rs conn a headers (bs_bytes stream) s1 = (r, s')"
proof (cases "readBodyLimit (MaxBodyBytes (cfg E)) stream")
  case (Inl e)
  with assms rejected show ?thesis by (auto simp: ingest_def)
next
  case (Inr body)
  then have body: "body = bs_bytes stream" "int (length (bs_bytes stream)) \<le> max 0 (MaxBodyBytes (cfg E))"
    by (auto simp: readBodyLimit_def split: if_splits)
  obtain x s1 where g: "getCachedConnection E clk path s = (x, s1)" by fastforce
  note fr = getCachedConnection_frame [OF g]
  note run = assms [unfolded ingest_def Inr g, simplified]
  show ?thesis
  proof (cases "\<exists>conn secret. x = Inr (Some conn, secret)")
    case False
    with run fr rejected show ?thesis by (auto split: sum.splits prod.splits option.splits)
  next
    case True
    then obtain conn secret where x: "x = Inr (Some conn, secret)" by blast
    show ?thesis
    proof (cases "\<exists>a. Get (conn_source_type conn) = Inr a \<and> Verify (clk 2) (nfkd_of E) a headers body secret")
      case False
      with run fr rejected show ?thesis by (auto simp: x split: sum.splits if_splits)
    next
      case True
      then obtain a where a: "Get (conn_source_type conn) = Inr a" "Verify (clk 2) (nfkd_of E) a headers body secret"
        by blast
      with run have "ingest_accept E rs conn a headers (bs_bytes stream) s1 = (r, s')" by (simp add: x body)
      with g x a body show ?thesis by (intro accepted) auto
    qed
  qed
qed


section \<open>What is stored\<close>

lemma start_delivery_rows:
  "map (\<lambda>e. e\<lparr>erow_workflow_id := None\<rparr>) (events (tbl (srv_db (start_delivery E i s))))
     = map (\<lambda>e. e\<lparr>erow_workflow_id := None\<rparr>) (events (tbl (srv_db s)))"
  "connections (tbl (srv_db (start_delivery E i s))) = connections (tbl (srv_db s))"
  using SetEventWorkflowID_rows [of i "WorkflowID (ustr E) i" "srv_db s"]
  by (auto simp: start_delivery_def ExecuteWorkflow_def Let_def split: option.splits) (metis prod.collapse)+

lemma start_delivery_started:
  "srv_started (start_delivery E i s) = srv_started s
     @ (case start_err E (srv_starts s) (WorkflowID (ustr E) i) of None \<Rightarrow> [(WorkflowID (ustr E) i, i)] | Some m \<Rightarrow> [])"
  by (auto simp: start_delivery_def ExecuteWorkflow_def Let_def split: option.splits)

text \<open>The store's view of a row does not depend on its workflow id, but for that field.\<close>

lemma scan_without_workflow:
  "map_sum id (map_option (\<lambda>ev. ev\<lparr>ev_workflow_id := None\<rparr>)) (scanEvent enc (Some r))
     = scanEvent enc (Some (r\<lparr>erow_workflow_id := None\<rparr>))"
  by (auto simp: scanEvent_def split: sum.splits)

lemma event_key_without_workflow [simp]: "event_key (e\<lparr>erow_workflow_id := x\<rparr>) = event_key e"
  by (simp add: event_key_def)

lemma keys_without_workflow:
  assumes "map (\<lambda>e. e\<lparr>erow_workflow_id := None\<rparr>) xs = map (\<lambda>e. e\<lparr>erow_workflow_id := None\<rparr>) ys"
  shows "keys event_key xs = keys event_key ys" and "keys erow_id xs = keys erow_id ys"
proof -
  let ?f = "map (\<lambda>e::event_row. e\<lparr>erow_workflow_id := None\<rparr>)"
  have "keys event_key (?f zs) = keys event_key zs" "keys erow_id (?f zs) = keys erow_id zs" for zs
    by (simp_all add: keys_def)
  then show "keys event_key xs = keys event_key ys" "keys erow_id xs = keys erow_id ys"
    using assms by metis+
qed

lemma stored_row_opens:
  assumes "sealEventFields (store_enc E) rs (header_json headers) body = Inr (h, b)"
  shows "\<exists>ev. scanEvent (store_enc E) (Some (stored_row E conn a headers body i t h b)) = Inr (Some ev)
     \<and> ev_raw_payload ev = body \<and> ev_raw_headers ev = header_json headers \<and> ev_id ev = i
     \<and> ev_connection_id ev = conn_id conn"
  using open_seal [OF assms] by (simp add: scanEvent_def stored_row_def)

lemma start_delivery_row:
  assumes "r \<in> set (events (tbl (srv_db s)))"
  obtains r' where "r' \<in> set (events (tbl (srv_db (start_delivery E i s))))"
    "r'\<lparr>erow_workflow_id := None\<rparr> = r\<lparr>erow_workflow_id := None\<rparr>"
proof -
  have "r\<lparr>erow_workflow_id := None\<rparr> \<in> set (map (\<lambda>e. e\<lparr>erow_workflow_id := None\<rparr>) (events (tbl (srv_db s))))"
    using assms by simp
  then show thesis using that unfolding start_delivery_rows(1) [of E i s, symmetric] by auto
qed

lemma scan_same_but_workflow:
  assumes "r'\<lparr>erow_workflow_id := None\<rparr> = r\<lparr>erow_workflow_id := None\<rparr>" and "scanEvent enc (Some r) = Inr (Some ev)"
  obtains ev' where "scanEvent enc (Some r') = Inr (Some ev')"
    "ev'\<lparr>ev_workflow_id := None\<rparr> = ev\<lparr>ev_workflow_id := None\<rparr>"
proof -
  have "map_sum id (map_option (\<lambda>ev. ev\<lparr>ev_workflow_id := None\<rparr>)) (scanEvent enc (Some r'))
      = map_sum id (map_option (\<lambda>ev. ev\<lparr>ev_workflow_id := None\<rparr>)) (scanEvent enc (Some r))"
    unfolding scan_without_workflow assms(1) ..
  then show thesis
    unfolding assms(2) using that by (cases "scanEvent enc (Some r')") (auto simp: map_option_case split: option.splits)
qed

text \<open>
  C5. An acknowledged request is durable and authentic: the connection exists, its adapter
  accepted the signature over the body as received, and the event is in the database; if it was
  not there before, the stored row opens to exactly the received body and headers.
\<close>

theorem ingest_acknowledged:
  assumes "ingest E clk rs path stream headers s = (r, s')" and "status_of r = 200"
  shows "\<exists>conn secret a s1. getCachedConnection E clk path s = (Inr (Some conn, secret), s1)
     \<and> Get (conn_source_type conn) = Inr a \<and> Verify (clk 2) (nfkd_of E) a headers (bs_bytes stream) secret
     \<and> (let key = (conn_id conn, ExtractEventID a headers (bs_bytes stream))
        in key \<in> set (keys event_key (events (tbl (srv_db s))))
           \<or> (\<exists>row \<in> set (events (tbl (srv_db s'))). \<exists>ev. event_key row = key
                \<and> scanEvent (store_enc E) (Some row) = Inr (Some ev)
                \<and> ev_raw_payload ev = bs_bytes stream \<and> ev_raw_headers ev = header_json headers))"
proof (rule ingest_cases [OF assms(1)])
  fix conn secret a s1
  assume g: "getCachedConnection E clk path s = (Inr (Some conn, secret), s1)" "Get (conn_source_type conn) = Inr a"
    "Verify (clk 2) (nfkd_of E) a headers (bs_bytes stream) secret"
    and acc: "ingest_accept E rs conn a headers (bs_bytes stream) s1 = (r, s')"
  let ?key = "(conn_id conn, ExtractEventID a headers (bs_bytes stream))"
  have t: "tbl (srv_db s1) = tbl (srv_db s)" by (rule getCachedConnection_frame [OF g(1)])
  have "?key \<in> set (keys event_key (events (tbl (srv_db s)))) \<or> (\<exists>row \<in> set (events (tbl (srv_db s'))). \<exists>ev.
      event_key row = ?key \<and> scanEvent (store_enc E) (Some row) = Inr (Some ev)
      \<and> ev_raw_payload ev = bs_bytes stream \<and> ev_raw_headers ev = header_json headers)"
  proof (rule accept_cases [OF acc])
    fix i tm h b s2
    let ?r = "stored_row E conn a headers (bs_bytes stream) i tm h b"
    assume seal: "sealEventFields (store_enc E) rs (header_json headers) (bs_bytes stream) = Inr (h, b)"
      and s2: "tbl (srv_db s2) = (tbl (srv_db s1))\<lparr>events := events (tbl (srv_db s1)) @ [?r]\<rparr>"
      and s': "s' = start_delivery E i s2"
    have "?r \<in> set (events (tbl (srv_db s2)))" by (simp add: s2)
    then obtain r' where r': "r' \<in> set (events (tbl (srv_db s')))" "r'\<lparr>erow_workflow_id := None\<rparr> = ?r\<lparr>erow_workflow_id := None\<rparr>"
      unfolding s' by (rule start_delivery_row)
    obtain ev where ev: "scanEvent (store_enc E) (Some ?r) = Inr (Some ev)" "ev_raw_payload ev = bs_bytes stream"
      "ev_raw_headers ev = header_json headers" using stored_row_opens [OF seal] by blast
    obtain ev' where ev': "scanEvent (store_enc E) (Some r') = Inr (Some ev')"
      "ev'\<lparr>ev_workflow_id := None\<rparr> = ev\<lparr>ev_workflow_id := None\<rparr>"
      by (rule scan_same_but_workflow [OF r'(2) ev(1)])
    have "event_key r' = ?key"
      using arg_cong [OF r'(2), of event_key] by (simp add: stored_row_def event_key_def)
    moreover have "ev_raw_payload ev' = bs_bytes stream" "ev_raw_headers ev' = header_json headers"
      using ev(2,3) arg_cong [OF ev'(2), of ev_raw_payload] arg_cong [OF ev'(2), of ev_raw_headers] by simp_all
    ultimately show ?thesis using r'(1) ev'(1) by blast
  qed (use assms(2) t in auto)
  with g show ?thesis by (auto simp: Let_def)
qed (use assms(2) in auto)

text \<open>
  A request that is not acknowledged starts no workflow, and one that is refused because
  its body is too large, its path unknown or its signature wrong changes no table.
\<close>

lemma ingest_refused:
  assumes "ingest E clk rs path stream headers s = (r, s')" and "status_of r \<noteq> 200"
  shows "srv_started s' = srv_started s \<and> (status_of r \<noteq> 500 \<longrightarrow> tbl (srv_db s') = tbl (srv_db s))"
proof (rule ingest_cases [OF assms(1)])
  fix conn secret a s1
  assume g: "getCachedConnection E clk path s = (Inr (Some conn, secret), s1)"
    and acc: "ingest_accept E rs conn a headers (bs_bytes stream) s1 = (r, s')"
  show ?thesis
    by (rule accept_cases [OF acc]) (use assms(2) getCachedConnection_frame [OF g] in auto)
qed (use assms(2) in auto)

lemma InsertEvent_conflict:
  assumes "faults d = []" "text_ok p" "(c, p) \<in> set (keys event_key (events (tbl d)))"
    and "sealEventFields enc rs h b = Inr hb"
    and "\<forall>r \<in> set (events (tbl d)). event_key r = (c, p) \<longrightarrow> (\<exists>ev. scanEvent enc (Some r) = Inr (Some ev))"
    and "e = \<lparr>ev_id = i, ev_connection_id = c, ev_provider_event_id = p, ev_raw_headers = h, ev_raw_payload = b, ev_received_at = t, ev_workflow_id = w\<rparr>"
  shows "\<exists>r d'. InsertEvent enc rs e d = (Inr r, d') \<and> \<not> ier_inserted r \<and> tbl d' = tbl d"
proof -
  obtain row where row: "find_by event_key (c, p) (events (tbl d)) = Some row"
    using assms(3) by (cases "find_by event_key (c, p) (events (tbl d))") (auto simp: find_by_None_iff keys_def)
  then have "row \<in> set (events (tbl d))" "event_key row = (c, p)" by (auto dest: find_by_SomeD)
  then obtain ev where ev: "scanEvent enc (Some row) = Inr (Some ev)" using assms(5) by blast
  obtain h' b' where seal: "sealEventFields enc rs h b = Inr (h', b')" using assms(4) by (cases hb) auto
  obtain d1 where "insert_event_stmt c p h' b' d = (Inl ErrNoRows, d1)" "tbl d1 = tbl d" "faults d1 = []"
    using assms(1-3) by (auto simp: insert_event_stmt_def Let_def split_beta gen_random_uuid_def)
  moreover from this row ev have "GetEventByProviderID enc c p d1 = (Inr (Some ev), d1)"
    by (simp add: GetEventByProviderID_def scan_query_def select_def)
  ultimately show ?thesis using seal by (simp add: InsertEvent_def assms(6))
qed

text \<open>
  C30. A retry of an event that is already stored starts no workflow, whatever it is answered; and
  when the request is verified, the database works and the stored event can be read, it is
  acknowledged and leaves the tables as they were.  So an event whose workflow could not be
  started when it was stored is never started by the retries of the provider, who has no reason to retry again.
\<close>

theorem ingest_retry_starts_nothing:
  assumes "getCachedConnection E clk path s = (Inr (Some conn, secret), s1)"
    and "Get (conn_source_type conn) = Inr a"
    and "(conn_id conn, ExtractEventID a headers (bs_bytes stream))
           \<in> set (keys event_key (events (tbl (srv_db s))))"
  shows "srv_started (snd (ingest E clk rs path stream headers s)) = srv_started s
    \<and> (readBodyLimit (MaxBodyBytes (cfg E)) stream = Inr (bs_bytes stream)
       \<and> Verify (clk 2) (nfkd_of E) a headers (bs_bytes stream) secret
       \<and> faults (srv_db s1) = [] \<and> text_ok (ExtractEventID a headers (bs_bytes stream))
       \<and> (\<exists>hb. sealEventFields (store_enc E) rs (header_json headers) (bs_bytes stream) = Inr hb)
       \<and> (\<forall>r \<in> set (events (tbl (srv_db s))). event_key r = (conn_id conn, ExtractEventID a headers (bs_bytes stream)) \<longrightarrow>
            (\<exists>ev. scanEvent (store_enc E) (Some r) = Inr (Some ev)))
       \<longrightarrow> fst (ingest E clk rs path stream headers s) = Reply 200 (marshal (JObj [(''received'', JBool True)]))
           \<and> tbl (srv_db (snd (ingest E clk rs path stream headers s))) = tbl (srv_db s))"
proof (intro conjI impI)
  obtain r s' where i: "ingest E clk rs path stream headers s = (r, s')" by fastforce
  have "srv_started s' = srv_started s"
  proof (rule ingest_cases [OF i])
    fix conn' secret' a' s1'
    assume g: "getCachedConnection E clk path s = (Inr (Some conn', secret'), s1')"
      "Get (conn_source_type conn') = Inr a'"
      and acc: "ingest_accept E rs conn' a' headers (bs_bytes stream) s1' = (r, s')"
    then have eq: "conn' = conn" "a' = a" "s1' = s1" using assms(1,2) by auto
    show ?thesis
      by (rule accept_cases [OF acc]) (use assms(3) eq getCachedConnection_frame [OF g(1)] in auto)
  qed
  with i show "srv_started (snd (ingest E clk rs path stream headers s)) = srv_started s" by simp
next
  let ?p = "ExtractEventID a headers (bs_bytes stream)" and ?i = "ingest E clk rs path stream headers s"
  assume c: "readBodyLimit (MaxBodyBytes (cfg E)) stream = Inr (bs_bytes stream)
       \<and> Verify (clk 2) (nfkd_of E) a headers (bs_bytes stream) secret
       \<and> faults (srv_db s1) = [] \<and> text_ok ?p
       \<and> (\<exists>hb. sealEventFields (store_enc E) rs (header_json headers) (bs_bytes stream) = Inr hb)
       \<and> (\<forall>r \<in> set (events (tbl (srv_db s))). event_key r = (conn_id conn, ?p) \<longrightarrow>
            (\<exists>ev. scanEvent (store_enc E) (Some r) = Inr (Some ev)))"
  have t: "tbl (srv_db s1) = tbl (srv_db s)" using getCachedConnection_frame [OF assms(1)] by simp
  obtain hb where seal: "sealEventFields (store_enc E) rs (header_json headers) (bs_bytes stream) = Inr hb" using c by blast
  obtain res d' where ins: "InsertEvent (store_enc E) rs (new_event conn ?p (header_json headers) (bs_bytes stream)) (srv_db s1) = (Inr res, d')"
    "\<not> ier_inserted res" "tbl d' = tbl (srv_db s1)"
    using InsertEvent_conflict [OF _ _ _ seal _ new_event_def, of "srv_db s1" ?p conn] c assms(3) t by auto
  have "?i = ingest_accept E rs conn a headers (bs_bytes stream) s1" using c assms(1,2) by (simp add: ingest_def)
  also have "\<dots> = (Reply 200 (marshal (JObj [(''received'', JBool True)])), count_ingest conn ''duplicate'' (s1\<lparr>srv_db := d'\<rparr>))"
    using ins by (simp add: ingest_accept_def Let_def)
  finally show "fst ?i = Reply 200 (marshal (JObj [(''received'', JBool True)]))" "tbl (srv_db (snd ?i)) = tbl (srv_db s)"
    using ins(3) t by simp_all
qed

section \<open>Sequences of requests\<close>

record ingest_request =
  rq_clk :: "nat \<Rightarrow> time"
  rq_rand :: "96 word result \<times> 96 word result"
  rq_path :: string
  rq_stream :: body_stream
  rq_headers :: header

definition serve_ingest :: "server_env \<Rightarrow> ingest_request \<Rightarrow> server \<Rightarrow> server" where
  "serve_ingest E q s =
     snd (ingest E (rq_clk q) (rq_rand q) (rq_path q) (rq_stream q) (rq_headers q) s)"

definition starts_ok :: "server \<Rightarrow> bool" where
  "starts_ok s \<longleftrightarrow> distinct (map snd (srv_started s))
     \<and> set (map snd (srv_started s)) \<subseteq> set (keys erow_id (events (tbl (srv_db s))))"

lemma start_delivery_ids: "keys erow_id (events (tbl (srv_db (start_delivery E i s)))) = keys erow_id (events (tbl (srv_db s)))"
  by (rule keys_without_workflow(2) [OF start_delivery_rows(1)])


text \<open>Rows are only added, even by a request whose insert is reported as failed.\<close>

lemma insert_event_stmt_grows:
  "preserves (\<lambda>t. X \<subseteq> set (keys erow_id (events t))) (insert_event_stmt c p h b)"
  unfolding insert_event_stmt_def
  by (rule preserves_pool) (auto simp: Let_def split_beta row_simps)

lemma InsertEvent_preserves:
  assumes "\<And>c p h b. preserves P (insert_event_stmt c p h b)"
  shows "preserves P (InsertEvent enc rs e)"
  by (rule preservesI)
     (auto simp: InsertEvent_def split: prod.splits sum.splits
       dest: preserves_step [OF assms] preserves_step [OF GetEventByProviderID_keeps])

lemmas InsertEvent_grows = InsertEvent_preserves [OF insert_event_stmt_grows]

lemma ingest_rows_grow:
  assumes "ingest E clk rs path stream headers s = (r, s')"
  shows "set (keys erow_id (events (tbl (srv_db s)))) \<subseteq> set (keys erow_id (events (tbl (srv_db s'))))"
proof (rule ingest_cases [OF assms])
  fix conn secret a s1
  assume g: "getCachedConnection E clk path s = (Inr (Some conn, secret), s1)"
    and acc: "ingest_accept E rs conn a headers (bs_bytes stream) s1 = (r, s')"
  let ?X = "set (keys erow_id (events (tbl (srv_db s))))"
  have X: "?X \<subseteq> set (keys erow_id (events (tbl (srv_db s1))))" using getCachedConnection_frame [OF g] by simp
  have "?X \<subseteq> set (keys erow_id (events (tbl d)))"
    if "InsertEvent (store_enc E) rs e (srv_db s1) = (x, d)" for e x d
    by (rule preserves_step [OF InsertEvent_grows X that])
  with acc show ?thesis
    by (auto simp: ingest_accept_def Let_def start_delivery_ids split: prod.splits sum.splits if_splits option.splits)
       (meson subsetD)+
qed auto

lemma serve_ingest_starts_ok:
  assumes "starts_ok s"
  shows "starts_ok (serve_ingest E q s)"
proof -
  obtain r s' where i: "ingest E (rq_clk q) (rq_rand q) (rq_path q) (rq_stream q) (rq_headers q) s = (r, s')"
    by fastforce
  have "starts_ok s'"
  proof (rule ingest_cases [OF i])
    fix conn secret a s1
    assume g: "getCachedConnection E (rq_clk q) (rq_path q) s = (Inr (Some conn, secret), s1)"
      and acc: "ingest_accept E (rq_rand q) conn a (rq_headers q) (bs_bytes (rq_stream q)) s1 = (r, s')"
    note fr = getCachedConnection_frame [OF g]
    show ?thesis
    proof (rule accept_cases [OF acc])
      assume "status_of r = 500" and st: "srv_started s' = srv_started s1"
      have "set (keys erow_id (events (tbl (srv_db s)))) \<subseteq> set (keys erow_id (events (tbl (srv_db s'))))"
        using ingest_rows_grow [OF i] .
      with st fr assms show ?thesis by (auto simp: starts_ok_def)
    next
      assume "tbl (srv_db s') = tbl (srv_db s1)" "srv_started s' = srv_started s1"
      with fr assms show ?thesis by (simp add: starts_ok_def)
    next
      fix i t h b s2
      assume "i \<notin> set (keys erow_id (events (tbl (srv_db s1))))"
        "tbl (srv_db s2) = (tbl (srv_db s1))\<lparr>events := events (tbl (srv_db s1)) @
           [stored_row E conn a (rq_headers q) (bs_bytes (rq_stream q)) i t h b]\<rparr>"
        "srv_started s2 = srv_started s1" "s' = start_delivery E i s2"
      with fr assms show ?thesis
        by (auto simp: starts_ok_def start_delivery_started start_delivery_ids row_simps stored_row_def
            split: option.splits)
    qed
  qed (use assms in \<open>auto simp: starts_ok_def\<close>)
  with i show ?thesis by (simp add: serve_ingest_def)
qed

interpretation ingestion: inv_machine "serve_ingest E" starts_ok for E
  by unfold_locales (rule serve_ingest_starts_ok)

text \<open>
  However many requests arrive, with whatever retries and failures, ingestion starts at most
  one delivery workflow per event, and only for events that are in the database.
\<close>

lemma ingest_starts_once:
  assumes "srv_started s = []"
  shows "let s' = fold (serve_ingest E) qs s
     in distinct (map snd (srv_started s')) \<and> set (map snd (srv_started s')) \<subseteq> set (keys erow_id (events (tbl (srv_db s'))))"
  using ingestion.run_inv [of s E qs] assms by (simp add: starts_ok_def Let_def)


section \<open>A concrete server\<close>

text \<open>One internal connection in the cache, an empty store, and a request that names its event.\<close>

definition demo_conn :: Connection where
  "demo_conn = \<lparr>conn_id = 1, conn_name = ''jobs'', conn_source_type = ''internal'', conn_inbound_path = ''ab12cd34'',
      conn_destination_url = ''http://d'', conn_signing_secret_enc = [], conn_retry_attempts = 3,
      conn_retry_first_delay_s = 60, conn_retry_backoff_factor = 2, conn_retention_days = 30,
      conn_is_playground = False, conn_created_at = 0\<rparr>"

definition demo_server :: server where
  "demo_server =
     \<lparr>srv_db = \<lparr>tbl = empty_tables\<lparr>connections := [demo_conn]\<rparr>, db_now = 5, uuid_src = (\<lambda>n. n), uuid_pos = 100,
                numeric = (\<lambda>_ _ x. Some x), faults = []\<rparr>,
      srv_cache = (\<lambda>_. None)(''ab12cd34'' \<mapsto> \<lparr>cc_conn = demo_conn, cc_secret = [], cc_expires_at = 100\<rparr>),
      srv_metrics = new_metrics, srv_started = [], srv_starts = 0\<rparr>"

definition demo_config :: config where
  "demo_config = \<lparr>DatabaseURL = [], TemporalHost = [], TemporalNamespace = [], EncryptionKey = replicate 32 (CHR ''k''),
     PayloadKey = replicate 32 (CHR ''k''), ListenAddr = [], PublicBaseURL = ''http://x'', SessionCookieName = ''sid'',
     SessionTTL = Hour, MaxBodyBytes = 1024, PerConnConcurrency = 10, LogLevel = [], DemoMode = False,
     PlaygroundInternalBase = ''http://x'', PlaygroundSessionTTL = Hour, PlaygroundMaxSessions = 2,
     AlertEvalInterval = Minute,
     SMTP = \<lparr>smtp_host = [], smtp_port = 587, smtp_username = [], smtp_password = [], smtp_from = []\<rparr>,
     SlackBotToken = []\<rparr>"

definition demo_senv :: server_env where
  "demo_senv = \<lparr>cfg = demo_config, encryptor_of = \<lparr>gcm_key = replicate 32 (CHR ''k'')\<rparr>, store_enc = None,
     ustr = (\<lambda>_. ''u''), parse_uuid = (\<lambda>_. None), nfkd_of = id,
     start_err = (\<lambda>_ _. None)\<rparr>"

definition demo_request :: ingest_request where
  "demo_request = \<lparr>rq_clk = (\<lambda>_. 5), rq_rand = (Inr 1, Inr 2), rq_path = ''ab12cd34'',
     rq_stream = \<lparr>bs_bytes = ''hello'', bs_fails = False\<rparr>, rq_headers = [(''X-Tuma-Event-Id'', [''evt_2''])]\<rparr>"

abbreviation demo_ingest :: "server \<Rightarrow> string reply \<times> server" where
  "demo_ingest s \<equiv> ingest demo_senv (\<lambda>_. 5) (Inr 1, Inr 2) ''ab12cd34''
     \<lparr>bs_bytes = ''hello'', bs_fails = False\<rparr> [(''X-Tuma-Event-Id'', [''evt_2''])] s"

lemma demo_cached:
  "getCachedConnection demo_senv (\<lambda>_. 5) ''ab12cd34'' demo_server = (Inr (Some demo_conn, []), demo_server)"
  by (simp add: getCachedConnection_def demo_server_def Let_def)

lemma demo_adapter: "Get (conn_source_type demo_conn) = Inr InternalAdapter"
  by code_simp

theorem ingest_acknowledged_witness:
  "\<exists>row \<in> set (events (tbl (srv_db (snd (demo_ingest demo_server))))). \<exists>ev.
     scanEvent None (Some row) = Inr (Some ev) \<and> ev_raw_payload ev = ''hello''"
proof -
  have ok: "status_of (fst (demo_ingest demo_server)) = 200" by code_simp
  have none: "events (tbl (srv_db demo_server)) = []" by code_simp
  have enc: "store_enc demo_senv = None" by (simp add: demo_senv_def)
  obtain r s' where i: "demo_ingest demo_server = (r, s')" by fastforce
  with ok have "status_of r = 200" by simp
  from ingest_acknowledged [OF i this] show ?thesis
    by (auto simp: i none enc Let_def)
qed

text \<open>The start of the first request is refused; its retry is acknowledged and starts nothing.\<close>

definition demo_down :: server_env where
  "demo_down = demo_senv\<lparr>start_err := (\<lambda>n _. if n = 0 then Some ''unavailable'' else None)\<rparr>"

definition demo_unstarted :: server where
  "demo_unstarted = serve_ingest demo_down demo_request demo_server"

theorem ingest_retry_starts_nothing_witness:
  "let retry = ingest demo_down (\<lambda>_. 5) (Inr 1, Inr 2) ''ab12cd34'' \<lparr>bs_bytes = ''hello'', bs_fails = False\<rparr>
       [(''X-Tuma-Event-Id'', [''evt_2''])] demo_unstarted
   in length (events (tbl (srv_db demo_unstarted))) = 1 \<and> srv_started demo_unstarted = []
      \<and> status_of (fst retry) = 200 \<and> srv_started (snd retry) = [] \<and> tbl (srv_db (snd retry)) = tbl (srv_db demo_unstarted)"
proof -
  let ?b = "\<lparr>bs_bytes = ''hello'', bs_fails = False\<rparr>" and ?h = "[(''X-Tuma-Event-Id'', [''evt_2''])]"
  have 0: "length (events (tbl (srv_db demo_unstarted))) = 1" "srv_started demo_unstarted = []" "faults (srv_db demo_unstarted) = []"
    by code_simp+
  have 1: "getCachedConnection demo_down (\<lambda>_. 5) ''ab12cd34'' demo_unstarted
      = (Inr (Some demo_conn, []), demo_unstarted)"
  proof -
    have "map_option cc_conn (srv_cache demo_unstarted ''ab12cd34'') = Some demo_conn"
      "map_option cc_secret (srv_cache demo_unstarted ''ab12cd34'') = Some []"
      "map_option cc_expires_at (srv_cache demo_unstarted ''ab12cd34'') = Some 100" by code_simp+
    then show ?thesis by (auto simp: getCachedConnection_def Let_def)
  qed
  have 2: "(conn_id demo_conn, ExtractEventID InternalAdapter ?h (bs_bytes ?b)) \<in> set (keys event_key (events (tbl (srv_db demo_unstarted))))"
    by code_simp
  have env: "store_enc demo_down = None" "nfkd_of demo_down = id" "MaxBodyBytes (cfg demo_down) = 1024"
    by (simp_all add: demo_down_def demo_senv_def demo_config_def)
  have 3: "text_ok (ExtractEventID InternalAdapter ?h (bs_bytes ?b))"
    "list_all (\<lambda>r. case scanEvent None (Some r) of Inr (Some _) \<Rightarrow> True | _ \<Rightarrow> False) (events (tbl (srv_db demo_unstarted)))"
    by code_simp+
  have v: "Verify t nf InternalAdapter ?h (bs_bytes ?b) []" for t nf by (simp add: internal_Verify_def)
  have r: "\<forall>r \<in> set (events (tbl (srv_db demo_unstarted))). \<exists>ev. scanEvent None (Some r) = Inr (Some ev)"
  proof
    fix r assume "r \<in> set (events (tbl (srv_db demo_unstarted)))"
    with 3(2) have "case scanEvent None (Some r) of Inr (Some _) \<Rightarrow> True | _ \<Rightarrow> False" by (simp add: list_all_iff)
    then show "\<exists>ev. scanEvent None (Some r) = Inr (Some ev)" by (auto split: sum.splits option.splits)
  qed
  have "readBodyLimit 1024 ?b = Inr (bs_bytes ?b)" "\<exists>hb. sealEventFields None (Inr 1, Inr 2) (header_json ?h) (bs_bytes ?b) = Inr hb"
    by (simp_all add: readBodyLimit_def sealEventFields_def)
  with ingest_retry_starts_nothing [OF 1 demo_adapter 2, of "(Inr 1, Inr 2)"] 0 3(1) v r env show ?thesis by (simp add: Let_def)
qed

end
