(* ===== verification/Stats.thy ===== *)
theory Stats
  imports StoreAlerts
begin

text \<open>
  \<^verbatim>\<open>internal/storage/stats.go\<close>: the figures of the last 24 hours, per connection and for the
  platform.  \<open>p95\<close> stands for Postgres' \<^verbatim>\<open>percentile_cont(0.95)\<close> over a non-empty list of
  latencies and \<open>trunc_hour\<close> for \<^verbatim>\<open>date_trunc('hour', ...)\<close>.
\<close>

record ConnectionStats =
  cs_connection_id :: uuid
  cs_delivered_24h :: nat
  cs_failed_24h :: nat
  cs_open_issues :: nat
  cs_p95_latency_ms :: int
  cs_status :: string

record ConnectionMetricsRow =
  cmr_connection_id :: uuid
  cmr_name :: string
  cmr_delivered_24h :: nat
  cmr_failed_24h :: nat
  cmr_open_issues :: nat
  cmr_p95_latency_ms :: int
  cmr_status :: string

record PlatformMetrics =
  pm_events_received_24h :: nat
  pm_delivered_24h :: nat
  pm_failed_24h :: nat
  pm_p95_latency_ms :: int
  pm_open_issues :: nat
  pm_ingestion_hourly :: "(time \<times> nat) list"
  pm_delivery_hourly :: "(time \<times> nat) list"
  pm_connections :: "ConnectionMetricsRow list"

definition DeriveConnectionStatus :: "nat \<Rightarrow> nat \<Rightarrow> nat \<Rightarrow> string" where
  "DeriveConnectionStatus openIssues failed24h delivered24h =
     (if 0 < openIssues then ''failing''
      else if 0 < failed24h then ''degraded''
      else if 0 < delivered24h then ''healthy''
      else ''healthy'')"

definition recent_deliveries :: "db \<Rightarrow> Delivery list" where
  "recent_deliveries d = filter (recent (db_now d)) (deliveries (tbl d))"

definition with_status :: "string \<Rightarrow> Delivery list \<Rightarrow> Delivery list" where
  "with_status s rows = filter (\<lambda>r. del_status r = s) rows"

text \<open>\<^verbatim>\<open>COALESCE(percentile_cont(0.95) ... FILTER (...), 0)\<close>, rounded by \<^verbatim>\<open>math.Round\<close>.\<close>

definition p95_of :: "(int list \<Rightarrow> float64) \<Rightarrow> Delivery list \<Rightarrow> int" where
  "p95_of p95 rows =
     (let ls = List.map_filter del_latency_ms (with_status ''delivered'' rows)
      in math_round (if ls = [] then 0 else p95 ls))"

definition connection_stats :: "(int list \<Rightarrow> float64) \<Rightarrow> db \<Rightarrow> Connection \<Rightarrow> ConnectionStats" where
  "connection_stats p95 d c =
     (let rows = filter (\<lambda>r. event_connection (tbl d) (del_event_id r) = Some (conn_id c)) (recent_deliveries d);
          delivered = length (with_status ''delivered'' rows);
          failed = length (with_status ''failed'' rows);
          opened = length (filter (\<lambda>i. iss_connection_id i = conn_id c) (open_issues (tbl d)))
      in \<lparr>cs_connection_id = conn_id c, cs_delivered_24h = delivered, cs_failed_24h = failed,
          cs_open_issues = opened, cs_p95_latency_ms = p95_of p95 rows,
          cs_status = DeriveConnectionStatus opened failed delivered\<rparr>)"

definition ListAllConnectionStats :: "(int list \<Rightarrow> float64) \<Rightarrow> ConnectionStats list query" where
  "ListAllConnectionStats p95 = select (\<lambda>d.
     map (connection_stats p95 d) (sort_key (\<lambda>c. - conn_created_at c) (connections (tbl d))))"

definition no_stats :: "uuid \<Rightarrow> ConnectionStats" where
  "no_stats connID = \<lparr>cs_connection_id = connID, cs_delivered_24h = 0, cs_failed_24h = 0, cs_open_issues = 0,
     cs_p95_latency_ms = 0, cs_status = ''healthy''\<rparr>"

definition GetConnectionStats :: "(int list \<Rightarrow> float64) \<Rightarrow> uuid \<Rightarrow> ConnectionStats query" where
  "GetConnectionStats p95 connID d =
     (case ListAllConnectionStats p95 d of
        (Inl e, d') \<Rightarrow> (Inl e, d')
      | (Inr all, d') \<Rightarrow>
          (Inr (case find (\<lambda>st. cs_connection_id st = connID) all of
                  Some st \<Rightarrow> st | None \<Rightarrow> no_stats connID), d'))"

text \<open>\<^verbatim>\<open>GROUP BY 1 ORDER BY 1\<close> with a count.\<close>

definition hourly :: "(time \<Rightarrow> time) \<Rightarrow> time list \<Rightarrow> (time \<times> nat) list" where
  "hourly trunc_hour ts =
     map (\<lambda>h. (h, length (filter (\<lambda>t. trunc_hour t = h) ts))) (sort (remdups (map trunc_hour ts)))"

definition recent_events :: "db \<Rightarrow> event_row list" where
  "recent_events d = filter (\<lambda>e. db_now d - 24 * Hour < erow_received_at e) (events (tbl d))"

definition hourlyEventCounts :: "(time \<Rightarrow> time) \<Rightarrow> (time \<times> nat) list query" where
  "hourlyEventCounts trunc_hour = select (\<lambda>d. hourly trunc_hour (map erow_received_at (recent_events d)))"

definition hourlyDeliveryCounts :: "(time \<Rightarrow> time) \<Rightarrow> (time \<times> nat) list query" where
  "hourlyDeliveryCounts trunc_hour = select (\<lambda>d.
     hourly trunc_hour (map del_attempted_at (with_status ''delivered'' (recent_deliveries d))))"

text \<open>A connection without an entry in the map has the zero statistics.\<close>

definition metrics_row :: "ConnectionStats list \<Rightarrow> Connection \<Rightarrow> ConnectionMetricsRow" where
  "metrics_row stats c =
     (let st = (case find (\<lambda>st. cs_connection_id st = conn_id c) (rev stats) of
                  Some st \<Rightarrow> st | None \<Rightarrow> (no_stats 0)\<lparr>cs_status := []\<rparr>)
      in \<lparr>cmr_connection_id = conn_id c, cmr_name = conn_name c, cmr_delivered_24h = cs_delivered_24h st,
          cmr_failed_24h = cs_failed_24h st, cmr_open_issues = cs_open_issues st,
          cmr_p95_latency_ms = cs_p95_latency_ms st,
          cmr_status = DeriveConnectionStatus (cs_open_issues st) (cs_failed_24h st) (cs_delivered_24h st)\<rparr>)"

definition bind :: "'a query \<Rightarrow> ('a \<Rightarrow> 'b query) \<Rightarrow> 'b query" where
  "bind q k d = (case q d of (Inl e, d') \<Rightarrow> (Inl e, d') | (Inr x, d') \<Rightarrow> k x d')"

definition GetPlatformMetrics ::
  "(int list \<Rightarrow> float64) \<Rightarrow> (time \<Rightarrow> time) \<Rightarrow> PlatformMetrics query" where
  "GetPlatformMetrics p95 trunc_hour =
     bind (select (\<lambda>d. length (recent_events d))) (\<lambda>received.
     bind (select (\<lambda>d. (length (with_status ''delivered'' (recent_deliveries d)),
                        length (with_status ''failed'' (recent_deliveries d)),
                        p95_of p95 (recent_deliveries d)))) (\<lambda>(delivered, failed, p).
     bind OpenIssuesCount (\<lambda>opened.
     bind (hourlyEventCounts trunc_hour) (\<lambda>ih.
     bind (hourlyDeliveryCounts trunc_hour) (\<lambda>dh.
     bind ListConnections (\<lambda>conns.
     bind (ListAllConnectionStats p95) (\<lambda>stats.
     (\<lambda>d. (Inr \<lparr>pm_events_received_24h = received, pm_delivered_24h = delivered, pm_failed_24h = failed,
               pm_p95_latency_ms = p, pm_open_issues = opened, pm_ingestion_hourly = ih,
               pm_delivery_hourly = dh, pm_connections = map (metrics_row stats) conns\<rparr>, d)))))))))"

section \<open>The figures add up\<close>

lemma bind_keeps: "preserves P q \<Longrightarrow> (\<And>x. preserves P (k x)) \<Longrightarrow> preserves P (bind q k)"
  by (rule preservesI)
     (auto simp: bind_def split: prod.splits sum.splits dest: preserves_step intro: preservesD)

lemma stats_keep [keeps]:
  "preserves P (ListAllConnectionStats p95)" "preserves P (hourlyEventCounts h)"
  "preserves P (hourlyDeliveryCounts h)"
  by (simp_all add: ListAllConnectionStats_def hourlyEventCounts_def hourlyDeliveryCounts_def preserves_select)

lemma GetPlatformMetrics_keeps [keeps]: "preserves P (GetPlatformMetrics p95 h)"
  unfolding GetPlatformMetrics_def split_beta
  by (intro bind_keeps preserves_select stats_keep OpenIssuesCount_keeps ListConnections_keeps)
     (simp add: preserves_def)

lemma GetConnectionStats_keeps [keeps]: "preserves P (GetConnectionStats p95 c)"
  by (rule preservesI)
     (auto simp: GetConnectionStats_def split: prod.splits sum.splits dest: preserves_step [OF stats_keep(1)])

lemma hourly_sum: "sum_list (map snd (hourly h ts)) = length ts"
proof -
  let ?hs = "sort (remdups (map h ts))"
  have "sum_list (map snd (hourly h ts)) = (\<Sum>x \<leftarrow> ?hs. length (filter (\<lambda>t. h t = x) ts))"
    by (simp add: hourly_def comp_def)
  also have "\<dots> = (\<Sum>x \<in> set ?hs. length (filter (\<lambda>t. h t = x) ts))"
    by (rule sum_list_distinct_conv_sum_set) simp
  also have "set ?hs = h ` set ts" by simp
  also have "(\<Sum>x \<in> h ` set ts. length (filter (\<lambda>t. h t = x) ts)) = length ts"
  proof (induction ts)
    case (Cons a ts)
    have f: "finite (h ` set (a # ts))" by simp
    have "(\<Sum>x \<in> h ` set (a # ts). length (filter (\<lambda>t. h t = x) (a # ts)))
        = (\<Sum>x \<in> h ` set (a # ts). (if h a = x then 1 else 0) + length (filter (\<lambda>t. h t = x) ts))"
      by (rule sum.cong) auto
    also have "\<dots> = 1 + (\<Sum>x \<in> h ` set (a # ts). length (filter (\<lambda>t. h t = x) ts))"
      by (simp add: sum.distrib sum.delta')
    also have "(\<Sum>x \<in> h ` set (a # ts). length (filter (\<lambda>t. h t = x) ts))
        = (\<Sum>x \<in> h ` set ts. length (filter (\<lambda>t. h t = x) ts))"
    proof (rule sum.mono_neutral_right)
      show "\<forall>x \<in> h ` set (a # ts) - h ` set ts. length (filter (\<lambda>t. h t = x) ts) = 0"
        by (auto simp: filter_empty_conv)
    qed auto
    finally show ?case using Cons.IH by simp
  qed simp
  finally show ?thesis .
qed

text \<open>Rows that each belong to exactly one of the listed keys are counted once.\<close>

lemma partition_count:
  assumes "distinct ks" and "\<And>r. r \<in> set rows \<Longrightarrow> \<exists>k \<in> set ks. f r = Some k"
  shows "(\<Sum>k \<leftarrow> ks. length (filter (\<lambda>r. f r = Some k) rows)) = length rows"
  using assms(2)
proof (induction rows)
  case (Cons r rows)
  obtain k where k: "k \<in> set ks" "f r = Some k" using Cons.prems by auto
  have "(\<Sum>j \<leftarrow> ks. length (filter (\<lambda>r. f r = Some j) (r # rows)))
      = (\<Sum>j \<leftarrow> ks. (if k = j then 1 else 0) + length (filter (\<lambda>r. f r = Some j) rows))"
    using k(2) by (intro arg_cong [of _ _ sum_list] map_cong) auto
  also have "\<dots> = (\<Sum>j \<leftarrow> ks. if k = j then 1 else 0) + length rows"
    using Cons by (simp add: sum_list_addf)
  also have "(\<Sum>j \<leftarrow> ks. if k = j then 1 else (0::nat)) = (\<Sum>j \<in> set ks. if k = j then 1 else 0)"
    by (rule sum_list_distinct_conv_sum_set [OF assms(1)])
  also have "\<dots> = 1" using k(1) by (simp add: sum.delta')
  finally show ?case by simp
qed (simp add: sum_list_0)


definition all_stats :: "(int list \<Rightarrow> float64) \<Rightarrow> db \<Rightarrow> ConnectionStats list" where
  "all_stats p95 d = map (connection_stats p95 d) (sort_key (\<lambda>c. - conn_created_at c) (connections (tbl d)))"

lemma conn_of_delivery:
  assumes "wf_tables (tbl d)" and "r \<in> set (deliveries (tbl d))"
  shows "\<exists>k \<in> set (map conn_id (sort_key (\<lambda>c. - conn_created_at c) (connections (tbl d)))).
    event_connection (tbl d) (del_event_id r) = Some k"
proof -
  obtain e where e: "e \<in> set (events (tbl d))" "erow_id e = del_event_id r"
    using assms by (auto simp: wf_defs keys_def)
  then have "find_by erow_id (del_event_id r) (events (tbl d)) = Some e"
    using assms(1) by (simp add: wf_defs find_by_Some_iff_distinct)
  moreover have "erow_connection_id e \<in> conn_id ` set (connections (tbl d))"
    using assms(1) e by (auto simp: wf_defs keys_def)
  ultimately show ?thesis by (simp add: event_connection_def)
qed

lemma distinct_sorted_ids:
  assumes "wf_tables t"
  shows "distinct (map conn_id (sort_key f (connections t)))"
  using assms by (simp add: wf_defs keys_def distinct_map)

lemma filter_swap: "filter P (filter Q xs) = filter Q (filter P xs)"
  by (simp add: filter_filter conj_commute)

lemma all_stats_status:
  assumes "wf_tables (tbl d)"
  shows "(\<Sum>c \<leftarrow> sort_key (\<lambda>c. - conn_created_at c) (connections (tbl d)).
     length (with_status s (filter (\<lambda>r. event_connection (tbl d) (del_event_id r) = Some (conn_id c)) (recent_deliveries d))))
   = length (with_status s (recent_deliveries d))"
proof -
  let ?ks = "map conn_id (sort_key (\<lambda>c. - conn_created_at c) (connections (tbl d)))"
  have "(\<Sum>k \<leftarrow> ?ks. length (filter (\<lambda>r. event_connection (tbl d) (del_event_id r) = Some k)
      (with_status s (recent_deliveries d)))) = length (with_status s (recent_deliveries d))"
    using conn_of_delivery [OF assms]
    by (intro partition_count distinct_sorted_ids [OF assms]) (auto simp: with_status_def recent_deliveries_def)
  then show ?thesis unfolding with_status_def by (subst filter_swap) (simp add: comp_def)
qed

lemma all_stats_open:
  assumes "wf_tables (tbl d)"
  shows "(\<Sum>c \<leftarrow> sort_key (\<lambda>c. - conn_created_at c) (connections (tbl d)).
     length (filter (\<lambda>i. iss_connection_id i = conn_id c) (open_issues (tbl d)))) = length (open_issues (tbl d))"
proof -
  let ?ks = "map conn_id (sort_key (\<lambda>c. - conn_created_at c) (connections (tbl d)))"
  have "(\<Sum>k \<leftarrow> ?ks. length (filter (\<lambda>i. Some (iss_connection_id i) = Some k) (open_issues (tbl d))))
     = length (open_issues (tbl d))"
    using assms by (intro partition_count distinct_sorted_ids [OF assms]) (auto simp: open_issues_def wf_defs keys_def)
  then show ?thesis by (simp add: comp_def)
qed

text \<open>
  The statistics per connection lose and double nothing: over all connections the delivered
  and failed attempts of the last 24 hours and the open issues sum to the totals of the tables.
\<close>

lemma connection_stats_add_up:
  assumes "wf_tables (tbl d)" and "ListAllConnectionStats p95 d = (Inr stats, d')"
  shows "sum_list (map cs_delivered_24h stats) = length (with_status ''delivered'' (recent_deliveries d))
     \<and> sum_list (map cs_failed_24h stats) = length (with_status ''failed'' (recent_deliveries d))
     \<and> sum_list (map cs_open_issues stats) = length (open_issues (tbl d))"
proof -
  have "stats = all_stats p95 (d\<lparr>faults := tl (faults d)\<rparr>)"
    using assms(2) by (auto simp: ListAllConnectionStats_def all_stats_def dest!: select_InrD)
  moreover have "all_stats p95 (d\<lparr>faults := tl (faults d)\<rparr>) = all_stats p95 d"
    by (simp add: all_stats_def connection_stats_def recent_deliveries_def Let_def)
  ultimately have "stats = all_stats p95 d" by simp
  then show ?thesis
    using all_stats_status [OF assms(1)] all_stats_open [OF assms(1)]
    by (simp add: all_stats_def connection_stats_def Let_def comp_def)
qed

lemma bind_InrD: "bind q k d = (Inr y, d') \<Longrightarrow> \<exists>x d1. q d = (Inr x, d1) \<and> k x d1 = (Inr y, d')"
  by (auto simp: bind_def split: prod.splits sum.splits)

text \<open>
  The platform figures are consistent: the hourly series of the last 24 hours sum to the
  totals reported beside them.
\<close>

lemma platform_hourly_sums:
  assumes "GetPlatformMetrics p95 h d = (Inr m, d')"
  shows "sum_list (map snd (pm_ingestion_hourly m)) = pm_events_received_24h m
     \<and> sum_list (map snd (pm_delivery_hourly m)) = pm_delivered_24h m"
proof -
  have ev: "recent_events (d\<lparr>faults := f\<rparr>) = recent_events d"
    and de: "recent_deliveries (d\<lparr>faults := f\<rparr>) = recent_deliveries d" for f
    by (simp_all add: recent_events_def recent_deliveries_def)
  show ?thesis
    using assms unfolding GetPlatformMetrics_def split_beta OpenIssuesCount_def hourlyEventCounts_def
      hourlyDeliveryCounts_def ListConnections_def ListAllConnectionStats_def
    by (auto dest!: bind_InrD select_InrD simp: hourly_sum ev de)
qed

end
