(* ===== verification/NotifySettings.thy ===== *)
theory NotifySettings
  imports Config StoreAlerts
begin

text \<open>
  \<^verbatim>\<open>internal/notifysettings/settings.go\<close>: the settings saved in the console over those of the
  environment.  The record \<open>SMTPConfig\<close> of the theory \<open>Config\<close> serves for both Go structs of
  that shape.
\<close>

record Console =
  con_smtp_host :: string
  con_smtp_port :: int
  con_smtp_username :: string
  con_smtp_password :: string
  con_smtp_from :: string
  con_slack_token :: string

record View =
  vw_smtp_host :: string
  vw_smtp_port :: int
  vw_smtp_username :: string
  vw_smtp_from :: string
  vw_smtp_password_saved :: bool
  vw_smtp_password_in_env :: bool
  vw_env_smtp_host :: string
  vw_env_smtp_port :: int
  vw_env_smtp_from :: string
  vw_slack_token_saved :: bool
  vw_slack_token_in_env :: bool
  vw_email_enabled :: bool
  vw_slack_enabled :: bool

record Effective =
  eff_view :: View
  eff_smtp :: SMTPConfig
  eff_slack_token :: string

definition first :: "string \<Rightarrow> string \<Rightarrow> string" where
  "first console envv = (if console \<noteq> [] then console else envv)"

text \<open>\<^verbatim>\<open>secret\<close>: nothing saved, or no encryptor, is the empty secret.\<close>

definition secret_of :: "encryptor option \<Rightarrow> bytes option \<Rightarrow> string result" where
  "secret_of enc b =
     (case enc of
        None \<Rightarrow> Inr []
      | Some e \<Rightarrow>
          (case b of None \<Rightarrow> Inr [] | Some c \<Rightarrow> if c = [] then Inr [] else Decrypt e c))"

definition decrypt_row :: "encryptor option \<Rightarrow> NotificationSettings \<Rightarrow> Console result" where
  "decrypt_row enc row =
     (case secret_of enc (ns_smtp_password_enc row) of
        Inl e \<Rightarrow> Inl e
      | Inr pw \<Rightarrow>
          (case secret_of enc (ns_slack_bot_token_enc row) of
             Inl e \<Rightarrow> Inl e
           | Inr tok \<Rightarrow>
               Inr \<lparr>con_smtp_host = ns_smtp_host row, con_smtp_port = ns_smtp_port row,
                    con_smtp_username = ns_smtp_username row, con_smtp_password = pw,
                    con_smtp_from = ns_smtp_from row, con_slack_token = tok\<rparr>))"

definition Merge :: "Console \<Rightarrow> config \<Rightarrow> Effective" where
  "Merge console cfg =
     (let env = SMTP cfg;
          port1 = (if 0 < con_smtp_port console then con_smtp_port console else smtp_port env);
          smtp = \<lparr>smtp_host = first (con_smtp_host console) (smtp_host env),
                  smtp_port = (if port1 = 0 then 587 else port1),
                  smtp_username = first (con_smtp_username console) (smtp_username env),
                  smtp_password = first (con_smtp_password console) (smtp_password env),
                  smtp_from = first (con_smtp_from console) (smtp_from env)\<rparr>;
          token = first (con_slack_token console) (SlackBotToken cfg);
          envConfigured = (smtp_host env \<noteq> [])
      in \<lparr>eff_view =
            \<lparr>vw_smtp_host = con_smtp_host console, vw_smtp_port = con_smtp_port console,
             vw_smtp_username = con_smtp_username console, vw_smtp_from = con_smtp_from console,
             vw_smtp_password_saved = (con_smtp_password console \<noteq> []),
             vw_smtp_password_in_env = (smtp_password env \<noteq> []),
             vw_env_smtp_host = (if envConfigured then smtp_host env else []),
             vw_env_smtp_port = (if envConfigured then smtp_port env else 0),
             vw_env_smtp_from = (if envConfigured then smtp_from env else []),
             vw_slack_token_saved = (con_slack_token console \<noteq> []),
             vw_slack_token_in_env = (SlackBotToken cfg \<noteq> []),
             vw_email_enabled = (smtp_host smtp \<noteq> []),
             vw_slack_enabled = (token \<noteq> [])\<rparr>,
          eff_smtp = smtp, eff_slack_token = token\<rparr>)"

definition Load_settings :: "encryptor option \<Rightarrow> config \<Rightarrow> Effective query" where
  "Load_settings enc cfg d =
     (case GetNotificationSettings d of
        (Inl e, d') \<Rightarrow> (Inl e, d')
      | (Inr row, d') \<Rightarrow>
          (case decrypt_row enc row of
             Inl e \<Rightarrow> (Inl e, d')
           | Inr console \<Rightarrow> (Inr (Merge console cfg), d')))"

lemma Load_settings_keeps [keeps]: "preserves P (Load_settings enc cfg)"
  by (rule preservesI)
     (auto simp: Load_settings_def split: prod.splits sum.splits dest: preserves_step [OF alert_reads_keep(10)])

text \<open>
  The effective settings are usable whenever the view says so, and a value saved in the console
  wins over the environment field by field.
\<close>

lemma Merge_effective:
  "vw_email_enabled (eff_view (Merge con cfg)) \<longleftrightarrow> smtp_host (eff_smtp (Merge con cfg)) \<noteq> []"
  "vw_slack_enabled (eff_view (Merge con cfg)) \<longleftrightarrow> eff_slack_token (Merge con cfg) \<noteq> []"
  "smtp_port (eff_smtp (Merge con cfg)) \<noteq> 0"
  by (simp_all add: Merge_def Let_def)

text \<open>
  What is sent to the browser does not depend on the secrets beyond whether they are set:
  changing a saved or configured password or token to any other non-empty one leaves the view
  the same.
\<close>

lemma view_hides_secrets:
  assumes "(con_smtp_password con = []) = (pw = [])" and "(con_slack_token con = []) = (tok = [])"
    and "(smtp_password (SMTP cfg) = []) = (envpw = [])" and "(SlackBotToken cfg = []) = (envtok = [])"
  shows "eff_view (Merge (con\<lparr>con_smtp_password := pw, con_slack_token := tok\<rparr>)
                     (cfg\<lparr>SMTP := (SMTP cfg)\<lparr>smtp_password := envpw\<rparr>, SlackBotToken := envtok\<rparr>))
       = eff_view (Merge con cfg)"
  using assms by (auto simp: Merge_def Let_def first_def)

definition demo_smtp_cfg :: config where
  "demo_smtp_cfg = \<lparr>DatabaseURL = [], TemporalHost = [], TemporalNamespace = [], EncryptionKey = [], PayloadKey = [],
     ListenAddr = [], PublicBaseURL = [], SessionCookieName = [], SessionTTL = 0, MaxBodyBytes = 0,
     PerConnConcurrency = 0, LogLevel = [], DemoMode = False, PlaygroundInternalBase = [], PlaygroundSessionTTL = 0,
     PlaygroundMaxSessions = 0, AlertEvalInterval = 0,
     SMTP = \<lparr>smtp_host = [], smtp_port = 587, smtp_username = [], smtp_password = ''p'', smtp_from = []\<rparr>,
     SlackBotToken = []\<rparr>"

end
