(* ===== verification/Handlers.thy ===== *)
theory Handlers
  imports Ingest Stats NotifySettings
begin

text \<open>
  The console handlers of \<^verbatim>\<open>internal/api\<close>: \<^verbatim>\<open>handlers.go\<close> (login, connections, deliveries, issues,
  replays) and \<^verbatim>\<open>metrics.go\<close>.  A handler takes the request as \<open>Requests\<close> decodes it
  (\<open>None\<close> when the body is not the expected JSON) and returns the reply and the server after it.  Parameters beyond those of ingestion: the bcrypt comparison, the formatting of
  times in the server's zone, \<^verbatim>\<open>mail.ParseAddress\<close>, and the Postgres functions of the statistics.
\<close>

section \<open>Sessions\<close>

record handler_env = server_env +
  bcrypt_ok :: "string \<Rightarrow> string \<Rightarrow> bool"
  rfc3339 :: "time \<Rightarrow> string"
  mail_address :: "string \<Rightarrow> string option"
  pg_p95 :: "int list \<Rightarrow> float64"
  pg_trunc_hour :: "time \<Rightarrow> time"

record cookie =
  ck_name :: string
  ck_value :: string
  ck_expires :: time
  ck_max_age :: int
  ck_secure :: bool

record loginRequest =
  lr_email :: string
  lr_password :: string

definition sessionCookie :: "handler_env \<Rightarrow> string \<Rightarrow> time \<Rightarrow> cookie" where
  "sessionCookie E value expires =
     \<lparr>ck_name = SessionCookieName (cfg E), ck_value = value, ck_expires = expires, ck_max_age = 0,
      ck_secure = has_prefix (PublicBaseURL (cfg E)) ''https://''\<rparr>"

definition upd_db :: "server \<Rightarrow> db \<Rightarrow> server" where
  "upd_db s d = s\<lparr>srv_db := d\<rparr>"

definition login :: "handler_env \<Rightarrow> time \<Rightarrow> loginRequest option \<Rightarrow> server \<Rightarrow> (cookie \<times> string) reply \<times> server" where
  "login E now req s =
     (case req of
        None \<Rightarrow> (Error 400 ''invalid json'', s)
      | Some q \<Rightarrow>
          (case GetUserByEmail (lr_email q) (srv_db s) of
             (Inr (Some user), d) \<Rightarrow>
               if \<not> bcrypt_ok E (user_password_hash user) (lr_password q)
               then (Error 401 ''invalid credentials'', upd_db s d)
               else
                 (case CreateSession \<lparr>sess_id = 0, sess_user_id = user_id user, sess_created_at = 0,
                                      sess_expires_at = now + SessionTTL (cfg E)\<rparr> d of
                    (Inl _, d') \<Rightarrow> (internal_error, upd_db s d')
                  | (Inr sess, d') \<Rightarrow>
                      (Reply 200 (sessionCookie E (ustr E (sess_id sess)) (sess_expires_at sess), user_email user),
                       upd_db s d'))
           | (_, d) \<Rightarrow> (Error 401 ''invalid credentials'', upd_db s d)))"

text \<open>\<^verbatim>\<open>r.Cookie(name)\<close>: the first cookie of that name.\<close>

definition request_cookie :: "(string \<times> string) list \<Rightarrow> string \<Rightarrow> string option" where
  "request_cookie cookies name = (if name = [] then None else map_of cookies name)"

definition logout :: "handler_env \<Rightarrow> (string \<times> string) list \<Rightarrow> server \<Rightarrow> cookie reply \<times> server" where
  "logout E cookies s =
     (Reply 204 ((sessionCookie E [] 0)\<lparr>ck_max_age := - 1\<rparr>),
      case request_cookie cookies (SessionCookieName (cfg E)) of
        None \<Rightarrow> s
      | Some v \<Rightarrow>
          (case parse_uuid E v of
             None \<Rightarrow> s
           | Some i \<Rightarrow> upd_db s (snd (DeleteSession i (srv_db s)))))"

definition auth ::
  "handler_env \<Rightarrow> (string \<times> string) list \<Rightarrow> (server \<Rightarrow> 'b reply \<times> server) \<Rightarrow> server \<Rightarrow> 'b reply \<times> server" where
  "auth E cookies next_handler s =
     (case request_cookie cookies (SessionCookieName (cfg E)) of
        None \<Rightarrow> (Error 401 ''unauthorized'', s)
      | Some v \<Rightarrow>
          (case parse_uuid E v of
             None \<Rightarrow> (Error 401 ''unauthorized'', s)
           | Some i \<Rightarrow>
               (case GetSession i (srv_db s) of
                  (Inr (Some _), d) \<Rightarrow> next_handler (upd_db s d)
                | (_, d) \<Rightarrow> (Error 401 ''unauthorized'', upd_db s d))))"

section \<open>Connections\<close>

record connectionStatsJSON =
  csj_delivered_24h :: nat
  csj_p95_latency_ms :: int
  csj_failed_count :: nat
  csj_status :: string

definition statsToJSON :: "ConnectionStats \<Rightarrow> connectionStatsJSON" where
  "statsToJSON st = \<lparr>csj_delivered_24h = cs_delivered_24h st, csj_p95_latency_ms = cs_p95_latency_ms st,
     csj_failed_count = cs_open_issues st, csj_status = cs_status st\<rparr>"

record connectionResponse =
  cr_id :: string
  cr_name :: string
  cr_source_type :: string
  cr_inbound_url :: string
  cr_inbound_path :: string
  cr_destination_url :: string
  cr_retry_attempts :: int
  cr_retry_first_delay_s :: int
  cr_retry_backoff_factor :: float64
  cr_retention_days :: int
  cr_created_at :: string
  cr_stats :: "connectionStatsJSON option"

definition toConnectionResponse :: "handler_env \<Rightarrow> Connection \<Rightarrow> connectionResponse" where
  "toConnectionResponse E c =
     \<lparr>cr_id = ustr E (conn_id c), cr_name = conn_name c, cr_source_type = conn_source_type c,
      cr_inbound_url = InboundURL (PublicBaseURL (cfg E)) (conn_inbound_path c),
      cr_inbound_path = conn_inbound_path c, cr_destination_url = conn_destination_url c,
      cr_retry_attempts = conn_retry_attempts c, cr_retry_first_delay_s = conn_retry_first_delay_s c,
      cr_retry_backoff_factor = conn_retry_backoff_factor c, cr_retention_days = conn_retention_days c,
      cr_created_at = rfc3339 E (conn_created_at c), cr_stats = None\<rparr>"

record createConnectionRequest =
  ccr_name :: string
  ccr_source_type :: string
  ccr_destination_url :: string
  ccr_signing_secret :: string

text \<open>\<open>secret_bytes\<close>, \<open>rand\<close> and \<open>path_uuid\<close> are what the random source gives for the secret, the nonce and the path.\<close>

definition createConnection ::
  "handler_env \<Rightarrow> bytes \<Rightarrow> 96 word result \<Rightarrow> uuid \<Rightarrow> createConnectionRequest option \<Rightarrow> server
   \<Rightarrow> (connectionResponse \<times> string) reply \<times> server" where
  "createConnection E secret_bytes rand path_uuid req s =
     (case req of
        None \<Rightarrow> (Error 400 ''invalid json'', s)
      | Some q \<Rightarrow>
          if ccr_name q = [] \<or> ccr_destination_url q = [] \<or> ccr_source_type q = []
          then (Error 400 ''missing required fields'', s)
          else
            let given = trim_space (ccr_signing_secret q);
                secret = (if given = [] \<and> ccr_source_type q \<noteq> ''internal'' then randomSecret secret_bytes else given)
            in case Encrypt (encryptor_of E) rand secret of
                 Inl _ \<Rightarrow> (internal_error, s)
               | Inr enc \<Rightarrow>
                   (case CreateConnection
                      \<lparr>conn_id = 0, conn_name = ccr_name q, conn_source_type = ccr_source_type q,
                       conn_inbound_path = GenerateInboundPath (ustr E) path_uuid,
                       conn_destination_url = ccr_destination_url q, conn_signing_secret_enc = enc,
                       conn_retry_attempts = 8, conn_retry_first_delay_s = 60, conn_retry_backoff_factor = 2,
                       conn_retention_days = 7, conn_is_playground = False, conn_created_at = 0\<rparr> (srv_db s) of
                      (Inl _, d) \<Rightarrow> (internal_error, upd_db s d)
                    | (Inr c, d) \<Rightarrow> (Reply 201 (toConnectionResponse E c, secret), upd_db s d)))"

definition connectionStatsMap :: "handler_env \<Rightarrow> (uuid \<Rightarrow> ConnectionStats option) query" where
  "connectionStatsMap E d =
     (case ListAllConnectionStats (pg_p95 E) d of
        (Inl e, d') \<Rightarrow> (Inl e, d')
      | (Inr xs, d') \<Rightarrow> (Inr (\<lambda>i. find (\<lambda>st. cs_connection_id st = i) (rev xs)), d'))"

definition listConnections :: "handler_env \<Rightarrow> server \<Rightarrow> connectionResponse list reply \<times> server" where
  "listConnections E s =
     (case ListConnections (srv_db s) of
        (Inl _, d) \<Rightarrow> (internal_error, upd_db s d)
      | (Inr conns, d) \<Rightarrow>
          (case connectionStatsMap E d of
             (Inl _, d') \<Rightarrow> (internal_error, upd_db s d')
           | (Inr statMap, d') \<Rightarrow>
               (Reply 200 (map (\<lambda>c. (toConnectionResponse E c)\<lparr>cr_stats := map_option statsToJSON (statMap (conn_id c))\<rparr>)
                             conns), upd_db s d')))"

definition getConnection :: "handler_env \<Rightarrow> string \<Rightarrow> server \<Rightarrow> connectionResponse reply \<times> server" where
  "getConnection E idText s =
     (case parse_uuid E idText of
        None \<Rightarrow> (Error 400 ''invalid id'', s)
      | Some i \<Rightarrow>
          (case GetConnection i (srv_db s) of
             (Inr (Some c), d) \<Rightarrow>
               (case GetConnectionStats (pg_p95 E) i d of
                  (Inr st, d') \<Rightarrow>
                    (Reply 200 ((toConnectionResponse E c)\<lparr>cr_stats := Some (statsToJSON st)\<rparr>), upd_db s d')
                | (Inl _, d') \<Rightarrow> (Reply 200 (toConnectionResponse E c), upd_db s d'))
           | (_, d) \<Rightarrow> (not_found, upd_db s d)))"

record patchConnectionRequest =
  pcr_name :: "string option"
  pcr_destination_url :: "string option"
  pcr_retry_attempts :: "int option"
  pcr_retry_first_delay_s :: "int option"
  pcr_retry_backoff_factor :: "float64 option"
  pcr_retention_days :: "int option"
  pcr_signing_secret :: "string option"

text \<open>The part of \<^verbatim>\<open>patchConnection\<close> that replaces the signing secret: an error reply, or the database.\<close>

definition patch_secret ::
  "handler_env \<Rightarrow> 96 word result \<Rightarrow> uuid \<Rightarrow> string option \<Rightarrow> db \<Rightarrow> 'b reply option \<times> db" where
  "patch_secret E rand i secretOpt d =
     (case secretOpt of
        None \<Rightarrow> (None, d)
      | Some raw \<Rightarrow>
          (let secret = trim_space raw
           in if secret = [] then (Some (Error 400 ''signing_secret cannot be empty''), d)
              else case Encrypt (encryptor_of E) rand secret of
                     Inl _ \<Rightarrow> (Some internal_error, d)
                   | Inr enc \<Rightarrow>
                       (case UpdateConnectionSecret i enc d of
                          (Inl _, d') \<Rightarrow> (Some internal_error, d')
                        | (Inr _, d') \<Rightarrow> (None, d'))))"

definition patchConnection ::
  "handler_env \<Rightarrow> 96 word result \<Rightarrow> string \<Rightarrow> patchConnectionRequest option \<Rightarrow> server
   \<Rightarrow> connectionResponse reply \<times> server" where
  "patchConnection E rand idText req s =
     (case parse_uuid E idText of
        None \<Rightarrow> (Error 400 ''invalid id'', s)
      | Some i \<Rightarrow>
          (case req of
             None \<Rightarrow> (Error 400 ''invalid json'', s)
           | Some q \<Rightarrow>
               (case UpdateConnection i (pcr_name q) (pcr_destination_url q) (pcr_retry_attempts q)
                       (pcr_retry_first_delay_s q) (pcr_retry_backoff_factor q) (pcr_retention_days q) (srv_db s) of
                  (Inr (Some c), d) \<Rightarrow>
                    (case patch_secret E rand i (pcr_signing_secret q) d of
                       (Some err, d') \<Rightarrow> (err, upd_db s d')
                     | (None, d') \<Rightarrow>
                         (Reply 200 (toConnectionResponse E c),
                          (upd_db s d')\<lparr>srv_cache := (srv_cache s)(conn_inbound_path c := None)\<rparr>))
                | (_, d) \<Rightarrow> (not_found, upd_db s d))))"

section \<open>Deliveries, issues and replays\<close>

definition listDeliveries :: "handler_env \<Rightarrow> string \<Rightarrow> server \<Rightarrow> Delivery list reply \<times> server" where
  "listDeliveries E idText s =
     (case parse_uuid E idText of
        None \<Rightarrow> (Error 400 ''invalid id'', s)
      | Some i \<Rightarrow>
          (case ListDeliveriesForConnection i 50 (srv_db s) of
             (Inl _, d) \<Rightarrow> (internal_error, upd_db s d)
           | (Inr xs, d) \<Rightarrow> (Reply 200 xs, upd_db s d)))"

definition listIssues :: "string \<Rightarrow> server \<Rightarrow> Issue list reply \<times> server" where
  "listIssues statusParam s =
     (case ListIssues (if statusParam = [] then ''open'' else statusParam) (srv_db s) of
        (Inl _, d) \<Rightarrow> (internal_error, upd_db s d)
      | (Inr xs, d) \<Rightarrow> (Reply 200 xs, upd_db s d))"

definition getIssue :: "handler_env \<Rightarrow> string \<Rightarrow> server \<Rightarrow> (Issue \<times> string) reply \<times> server" where
  "getIssue E idText s =
     (case parse_uuid E idText of
        None \<Rightarrow> (Error 400 ''invalid id'', s)
      | Some i \<Rightarrow>
          (case GetIssue i (srv_db s) of
             (Inr (Some issue), d) \<Rightarrow>
               (case GetEvent (store_enc E) (iss_event_id issue) d of
                  (Inr (Some ev), d') \<Rightarrow> (Reply 200 (issue, ev_raw_payload ev), upd_db s d')
                | (_, d') \<Rightarrow> (Reply 200 (issue, []), upd_db s d'))
           | (_, d) \<Rightarrow> (not_found, upd_db s d)))"

definition replayIssue :: "handler_env \<Rightarrow> time \<Rightarrow> string \<Rightarrow> server \<Rightarrow> string reply \<times> server" where
  "replayIssue E now idText s =
     (case parse_uuid E idText of
        None \<Rightarrow> (Error 400 ''invalid id'', s)
      | Some i \<Rightarrow>
          (case GetIssue i (srv_db s) of
             (Inr (Some issue), d) \<Rightarrow>
               (case startReplay (server_env.truncate E) now (iss_event_id issue) (upd_db s d) of
                  (Inl _, s') \<Rightarrow> (Error 500 ''failed to start replay'', s')
                | (Inr _, s') \<Rightarrow> (Reply 200 ''replay_started'', s'))
           | (_, d) \<Rightarrow> (not_found, upd_db s d)))"

text \<open>\<open>now n\<close> is the clock at the \<open>n\<close>-th replay.\<close>

fun replay_ids :: "handler_env \<Rightarrow> (nat \<Rightarrow> time) \<Rightarrow> string list \<Rightarrow> nat \<Rightarrow> server \<Rightarrow> nat \<times> server" where
  "replay_ids E now [] started s = (started, s)"
| "replay_ids E now (idStr # ids) started s =
     (case parse_uuid E idStr of
        None \<Rightarrow> replay_ids E now ids started s
      | Some i \<Rightarrow>
          (case GetIssue i (srv_db s) of
             (Inr (Some issue), d) \<Rightarrow>
               (case startReplay (server_env.truncate E) (now (length ids)) (iss_event_id issue) (upd_db s d) of
                  (Inl _, s') \<Rightarrow> replay_ids E now ids started s'
                | (Inr _, s') \<Rightarrow> replay_ids E now ids (Suc started) s')
           | (_, d) \<Rightarrow> replay_ids E now ids started (upd_db s d)))"

definition replayBulk :: "handler_env \<Rightarrow> (nat \<Rightarrow> time) \<Rightarrow> string list option \<Rightarrow> server \<Rightarrow> nat reply \<times> server" where
  "replayBulk E now req s =
     (case req of
        None \<Rightarrow> (Error 400 ''invalid json'', s)
      | Some ids \<Rightarrow> (let (n, s') = replay_ids E now ids 0 s in (Reply 200 n, s')))"

definition getMetrics :: "handler_env \<Rightarrow> server \<Rightarrow> PlatformMetrics reply \<times> server" where
  "getMetrics E s =
     (case GetPlatformMetrics (pg_p95 E) (pg_trunc_hour E) (srv_db s) of
        (Inl _, d) \<Rightarrow> (internal_error, upd_db s d)
      | (Inr m, d) \<Rightarrow> (Reply 200 m, upd_db s d))"

end
