(* ===== verification/Notification.thy ===== *)
theory Notification
  imports NotifySettings JsonRead
begin

text \<open>
  \<^verbatim>\<open>internal/notification\<close>: templates (\<^verbatim>\<open>template.go\<close>), the service (\<^verbatim>\<open>service.go\<close>), email
  (\<^verbatim>\<open>smtp.go\<close>), Slack messages (\<^verbatim>\<open>slack.go\<close>) and the senders that load their settings at send time
  (\<^verbatim>\<open>live.go\<close>).  Parameters: the SMTP server and the network, what Slack answers, the order in which
  Go iterates over a map, and the quoting of \<^verbatim>\<open>%q\<close>, which depends on Unicode's table of printable
  characters.
\<close>

section \<open>Templates\<close>

datatype Type = TypeOpenIssuesExceeded | TypeDeliverySuccessDropped | TypeIssueUnresolved | TypeTestNotification

record Template =
  tmpl_subject :: string
  tmpl_body :: string

text \<open>The long dash of the subjects is one rune of three bytes; a line ends with a line feed.\<close>

abbreviation emdash :: string where
  "emdash \<equiv> [CHR 0xE2, CHR 0x80, CHR 0x94]"

abbreviation nl :: string where
  "nl \<equiv> [CHR 0x0A]"

abbreviation crlf :: string where
  "crlf \<equiv> [CHR 0x0D, CHR 0x0A]"

fun template_registry :: "Type \<Rightarrow> Template" where
  "template_registry TypeOpenIssuesExceeded =
     \<lparr>tmpl_subject = ''Alert: Open Issues Exceeded '' @ emdash @ '' {{resource_name}}'',
      tmpl_body = ''Your open issues have exceeded the configured limit.'' @ nl @ nl
        @ ''Current open issues : {{current_value}}'' @ nl
        @ ''Threshold           : {{limit}}'' @ nl @ nl
        @ ''Please review your open issues in the Tuma console.''\<rparr>"
| "template_registry TypeDeliverySuccessDropped =
     \<lparr>tmpl_subject = ''Alert: Delivery Success Dropped Below Threshold '' @ emdash @ '' {{resource_name}}'',
      tmpl_body = ''Your delivery success rate has dropped below the configured threshold.'' @ nl @ nl
        @ ''Current success rate : {{current_value}}%'' @ nl
        @ ''Threshold            : {{limit}}%'' @ nl @ nl
        @ ''Please review recent delivery failures in the Tuma console.''\<rparr>"
| "template_registry TypeIssueUnresolved =
     \<lparr>tmpl_subject = ''Alert: Issue Unresolved Exceeded Threshold '' @ emdash @ '' {{resource_name}}'',
      tmpl_body = ''An open issue has remained unresolved longer than the configured threshold.'' @ nl @ nl
        @ ''Oldest issue age : {{current_value}}h'' @ nl
        @ ''Threshold        : {{limit}}h'' @ nl @ nl
        @ ''Please review and resolve open issues in the Tuma console.''\<rparr>"
| "template_registry TypeTestNotification =
     \<lparr>tmpl_subject = ''Tuma '' @ emdash @ '' Test Notification'',
      tmpl_body = ''This is a test notification from Tuma.'' @ nl @ nl
        @ ''If you received this email, your SMTP configuration is working correctly.''\<rparr>"

text \<open>
  \<^verbatim>\<open>substitute\<close>.  Go iterates over the map in an order it may change each time: \<open>map_order\<close> lists
  the entries in the order of the first and of the second iteration of a rendering.
\<close>

record render_env =
  go_quote :: "string \<Rightarrow> string"
  map_order :: "nat \<Rightarrow> (string \<times> string) list \<Rightarrow> (string \<times> string) list"

definition placeholder :: "string \<Rightarrow> string" where
  "placeholder key = ''{{'' @ key @ ''}}''"

definition substitute :: "render_env \<Rightarrow> nat \<Rightarrow> string \<Rightarrow> (string \<times> string) list \<Rightarrow> string result" where
  "substitute R k s vars =
     (let result = fold (\<lambda>(key, val) r. replace_all r (placeholder key) val) (map_order R k vars) s
      in case index result ''{{'' of
           None \<Rightarrow> Inr result
         | Some start \<Rightarrow>
             (case index (drop start result) ''}}'' of
                None \<Rightarrow> Inr result
              | Some e \<Rightarrow> Inl (ErrMissingVar (go_quote R (take (e - 2) (drop (start + 2) result))))))"

definition RenderCustom ::
  "render_env \<Rightarrow> string \<Rightarrow> string \<Rightarrow> (string \<times> string) list \<Rightarrow> (string \<times> string) result" where
  "RenderCustom R subjectTmpl bodyTmpl vars =
     (case substitute R 0 subjectTmpl vars of
        Inl e \<Rightarrow> Inl (Wrapped ''subject'' e)
      | Inr subject \<Rightarrow>
          (case substitute R 1 bodyTmpl vars of
             Inl e \<Rightarrow> Inl (Wrapped ''body'' e)
           | Inr body \<Rightarrow> Inr (subject, body)))"

text \<open>Every value of the type has a template, so \<^verbatim>\<open>Render\<close> is the default template rendered.\<close>

definition Render :: "render_env \<Rightarrow> Type \<Rightarrow> (string \<times> string) list \<Rightarrow> (string \<times> string) result" where
  "Render R typ vars =
     (let tmpl = template_registry typ in RenderCustom R (tmpl_subject tmpl) (tmpl_body tmpl) vars)"

definition TypeForRule :: "render_env \<Rightarrow> string \<Rightarrow> Type result" where
  "TypeForRule R ruleType =
     (if ruleType = ''OPEN_ISSUES'' then Inr TypeOpenIssuesExceeded
      else if ruleType = ''DELIVERY_SUCCESS'' then Inr TypeDeliverySuccessDropped
      else if ruleType = ''UNRESOLVED_TIME'' then Inr TypeIssueUnresolved
      else Inl (ErrUnknownType (''rule_type '' @ go_quote R ruleType)))"

record notif_request =
  nr_type :: Type
  nr_recipient :: string
  nr_vars :: "(string \<times> string) list"
  nr_custom_subject :: string
  nr_custom_body :: string

definition RenderRequest :: "render_env \<Rightarrow> notif_request \<Rightarrow> (string \<times> string) result" where
  "RenderRequest R req =
     (if nr_custom_subject req \<noteq> [] \<or> nr_custom_body req \<noteq> []
      then let def = template_registry (nr_type req);
               subj = (if nr_custom_subject req = [] then tmpl_subject def else nr_custom_subject req);
               bodyTmpl = (if nr_custom_body req = [] then tmpl_body def else nr_custom_body req)
           in RenderCustom R subj bodyTmpl (nr_vars req)
      else Render R (nr_type req) (nr_vars req))"

section \<open>Email\<close>

text \<open>\<^verbatim>\<open>strings.NewReplacer\<close> with two one-byte patterns and no replacement deletes those bytes.\<close>

definition sanitizeHeader :: "string \<Rightarrow> string" where
  "sanitizeHeader s = filter (\<lambda>c. c \<noteq> CHR 0x0D \<and> c \<noteq> CHR 0x0A) s"

definition buildMessage :: "string \<Rightarrow> string \<Rightarrow> string \<Rightarrow> string \<Rightarrow> string" where
  "buildMessage sender rcpt subject body =
     ''From: '' @ sanitizeHeader sender @ crlf
     @ ''To: '' @ sanitizeHeader rcpt @ crlf
     @ ''Subject: '' @ sanitizeHeader subject @ crlf
     @ ''MIME-Version: 1.0'' @ crlf
     @ ''Content-Type: text/plain; charset=UTF-8'' @ crlf
     @ crlf
     @ body"

text \<open>How the mail server and the network behave during one session: the error of each step, if any.\<close>

record smtp_net =
  net_dial :: "go_error option"
  net_client :: "go_error option"
  net_starttls_offered :: bool
  net_starttls :: "go_error option"
  net_auth :: "go_error option"
  net_mail :: "go_error option"
  net_rcpt :: "go_error option"
  net_data :: "go_error option"
  net_write :: "go_error option"
  net_close :: "go_error option"
  net_quit :: "go_error option"

text \<open>What the client undertakes on the wire, whether or not the step then fails.\<close>

datatype smtp_action =
    Dial string int
  | StartTLS
  | Auth string string
  | Mail string
  | Rcpt string
  | Data
  | Write string
  | EndData
  | Quit

text \<open>
  \<^verbatim>\<open>SMTPSender.Send\<close>: the steps in their order, each followed by the rest when it succeeds.
\<close>

definition smtp_try :: "string \<Rightarrow> go_error option \<Rightarrow> smtp_action \<Rightarrow> unit result \<times> smtp_action list \<Rightarrow> unit result \<times> smtp_action list" where
  "smtp_try what err act rest =
     (case err of
        Some e \<Rightarrow> (Inl (Wrapped what e), [act])
      | None \<Rightarrow> (fst rest, act # snd rest))"

definition smtp_deliver :: "smtp_net \<Rightarrow> SMTPConfig \<Rightarrow> string \<Rightarrow> string \<Rightarrow> string \<Rightarrow> unit result \<times> smtp_action list" where
  "smtp_deliver n c recipient subject body =
     (let sender = sanitizeHeader (smtp_from c); rcpt = sanitizeHeader recipient; subj = sanitizeHeader subject
      in smtp_try ''smtp mail'' (net_mail n) (Mail sender)
        (smtp_try ''smtp rcpt'' (net_rcpt n) (Rcpt rcpt)
          (smtp_try ''smtp data'' (net_data n) Data
            (smtp_try ''smtp write'' (net_write n) (Write (buildMessage sender rcpt subj body))
              (smtp_try ''smtp data close'' (net_close n) EndData
                (smtp_try ''smtp quit'' (net_quit n) Quit (Inr (), [])))))))"

definition smtp_login :: "smtp_net \<Rightarrow> SMTPConfig \<Rightarrow> unit result \<times> smtp_action list \<Rightarrow> unit result \<times> smtp_action list" where
  "smtp_login n c rest =
     (if smtp_username c \<noteq> []
      then smtp_try ''smtp auth'' (net_auth n) (Auth (smtp_username c) (smtp_password c)) rest
      else rest)"

definition smtp_Send :: "smtp_net \<Rightarrow> SMTPConfig \<Rightarrow> string \<Rightarrow> string \<Rightarrow> string \<Rightarrow> unit result \<times> smtp_action list" where
  "smtp_Send n c recipient subject body =
     (if smtp_host c = [] then (Inl (ErrText ''smtp host is not configured''), [])
      else smtp_try (''smtp dial '' @ smtp_host c) (net_dial n) (Dial (smtp_host c) (smtp_port c))
        (case net_client n of
           Some e \<Rightarrow> (Inl (Wrapped ''smtp client'' e), [])
         | None \<Rightarrow>
             let rest = smtp_login n c (smtp_deliver n c recipient subject body)
             in if net_starttls_offered n then smtp_try ''smtp starttls'' (net_starttls n) StartTLS rest
                else if smtp_username c \<noteq> [] \<and> smtp_host c \<noteq> ''localhost'' \<and> smtp_host c \<noteq> ''127.0.0.1''
                then (Inl (ErrText (''smtp server '' @ smtp_host c @ '' does not support STARTTLS'')), [])
                else rest))"

section \<open>Slack\<close>

definition slack_id_char :: "char \<Rightarrow> bool" where
  "slack_id_char c \<longleftrightarrow> (let n = (of_char c :: nat) in 65 \<le> n \<and> n \<le> 90 \<or> 48 \<le> n \<and> n \<le> 57)"

text \<open>The expression \<^verbatim>\<open>^[UW][A-Z0-9]{8,}$\<close>.\<close>

definition ValidSlackUserID :: "string \<Rightarrow> bool" where
  "ValidSlackUserID s =
     (case s of
        [] \<Rightarrow> False
      | c # rest \<Rightarrow> (c = CHR ''U'' \<or> c = CHR ''W'') \<and> 8 \<le> length rest \<and> list_all slack_id_char rest)"

text \<open>
  What an exchange gives: an error, or a reply with its status, its body, the error that
  reading the body ends with, if any, and the error that decoding it would give.
\<close>

datatype slack_reply =
    SlackDoErr go_error
  | SlackReply int bytes "go_error option" go_error

record slack_out =
  out_ok :: bool
  out_error :: string

definition slack_fields :: "slack_out json_fields" where
  "slack_fields = [json_field ''ok'' into_bool out_ok out_ok_update, json_field ''error'' into_string out_error out_error_update]"

text \<open>\<^verbatim>\<open>io.ReadAll(io.LimitReader(resp.Body, 1<<20))\<close>.\<close>

definition read_limited :: "nat \<Rightarrow> bytes \<Rightarrow> go_error option \<Rightarrow> bytes result" where
  "read_limited n body err =
     (case err of
        Some e \<Rightarrow> if length body < n then Inl e else Inr (take n body)
      | None \<Rightarrow> Inr (take n body))"

record slack_post =
  sp_token :: string
  sp_payload :: string

text \<open>\<^verbatim>\<open>PostDM\<close>: what it posts to \<^verbatim>\<open>chat.postMessage\<close>, and its result.\<close>

definition PostDM :: "(slack_post \<Rightarrow> slack_reply) \<Rightarrow> string \<Rightarrow> string \<Rightarrow> string \<Rightarrow> unit result \<times> slack_post list" where
  "PostDM slack_http token userID text0 =
     (if token = [] then (Inl (ErrText ''slack bot token is not configured''), [])
      else if \<not> ValidSlackUserID userID then (Inl (ErrText ''invalid slack member id''), [])
      else let text = trim_space text0 in
      if text = [] then (Inl (ErrText ''slack message is empty''), [])
      else
        let post = \<lparr>sp_token = token,
                    sp_payload = marshal (JObj [(''channel'', JStr userID), (''text'', JStr text)])\<rparr>
        in (case slack_http post of
              SlackDoErr e \<Rightarrow> Inl (Wrapped ''slack post'' e)
            | SlackReply status body err json_err \<Rightarrow>
                (case read_limited (2 ^ 20) body err of
                   Inl e \<Rightarrow> Inl (Wrapped ''slack read'' e)
                 | Inr raw \<Rightarrow>
                     if 300 \<le> status then Inl (ErrText (''slack HTTP '' @ itoa status))
                     else (case Unmarshal slack_fields \<lparr>out_ok = False, out_error = []\<rparr> raw of
                             None \<Rightarrow> Inl (Wrapped ''slack decode'' json_err)
                           | Some out \<Rightarrow>
                               if out_ok out then Inr ()
                               else Inl (ErrText (''slack: '' @ (if out_error out = [] then ''unknown'' else out_error out))))),
            [post]))"

definition DMText :: "string \<Rightarrow> string \<Rightarrow> string" where
  "DMText subject0 body0 =
     (let subject = trim_space subject0; body = trim_space body0
      in if subject = [] then body else if body = [] then subject else subject @ nl @ nl @ body)"

section \<open>Senders that load their settings\<close>

definition resolving_Send ::
  "encryptor option \<Rightarrow> config \<Rightarrow> smtp_net \<Rightarrow> string \<Rightarrow> string \<Rightarrow> string \<Rightarrow> db \<Rightarrow> (unit result \<times> smtp_action list) \<times> db" where
  "resolving_Send enc cfg n recipient subject body d =
     (case Load_settings enc cfg d of
        (Inl e, d') \<Rightarrow> ((Inl e, []), d')
      | (Inr eff, d') \<Rightarrow> (smtp_Send n (eff_smtp eff) recipient subject body, d'))"

definition resolving_PostDM ::
  "encryptor option \<Rightarrow> config \<Rightarrow> (slack_post \<Rightarrow> slack_reply) \<Rightarrow> string \<Rightarrow> string \<Rightarrow> db \<Rightarrow> (unit result \<times> slack_post list) \<times> db" where
  "resolving_PostDM enc cfg slack_http userID text d =
     (case Load_settings enc cfg d of
        (Inl e, d') \<Rightarrow> ((Inl e, []), d')
      | (Inr eff, d') \<Rightarrow> (PostDM slack_http (eff_slack_token eff) userID text, d'))"

text \<open>\<^verbatim>\<open>Service.Send\<close>.\<close>

definition service_Send ::
  "render_env \<Rightarrow> encryptor option \<Rightarrow> config \<Rightarrow> smtp_net \<Rightarrow> notif_request \<Rightarrow> db
   \<Rightarrow> (unit result \<times> smtp_action list) \<times> db" where
  "service_Send R enc cfg n req d =
     (case RenderRequest R req of
        Inl e \<Rightarrow> ((Inl (Wrapped ''notification render'' e), []), d)
      | Inr (subject, body) \<Rightarrow>
          (case resolving_Send enc cfg n (nr_recipient req) subject body d of
             ((Inl e, acts), d') \<Rightarrow> ((Inl (Wrapped ''notification send'' e), acts), d')
           | ((Inr _, acts), d') \<Rightarrow> ((Inr (), acts), d')))"

end
