(* ===== verification/Sink.thy ===== *)
theory Sink
  imports Ingest
begin

text \<open>
  \<^verbatim>\<open>internal/api/sink.go\<close>: the built-in test receiver, a log of the last 50 deliveries and a
  switch that makes it fail.  \<open>ts\<close> is the clock as the handler formats it.
\<close>

section \<open>The sink\<close>

record sinkEvent =
  sk_ts :: string
  sk_status :: int
  sk_delivery_id :: string
  sk_attempt :: string
  sk_body :: string

record echoSink =
  sink_fail :: bool
  sink_events :: "sinkEvent list"

definition sinkMaxEvents :: nat where
  "sinkMaxEvents = 50"

definition sinkBodyLimit :: nat where
  "sinkBodyLimit = 4096"

definition newEchoSink :: echoSink where
  "newEchoSink = \<lparr>sink_fail = False, sink_events = []\<rparr>"

definition snapshot :: "echoSink \<Rightarrow> bool \<times> sinkEvent list" where
  "snapshot s = (sink_fail s, sink_events s)"

definition setFail :: "bool \<Rightarrow> echoSink \<Rightarrow> echoSink" where
  "setFail fail s = s\<lparr>sink_fail := fail\<rparr>"

definition sink_status :: "echoSink \<Rightarrow> int" where
  "sink_status s = (if sink_fail s then 502 else 200)"

definition sink_record :: "sinkEvent \<Rightarrow> echoSink \<Rightarrow> int \<times> echoSink" where
  "sink_record ev s =
     (let status = sink_status s;
          evs = sink_events s @ [ev\<lparr>sk_status := status\<rparr>]
      in (status,
          s\<lparr>sink_events := (if sinkMaxEvents < length evs then drop (length evs - sinkMaxEvents) evs else evs)\<rparr>))"

section \<open>Handlers\<close>

definition sinkURL :: "config \<Rightarrow> string" where
  "sinkURL c = trim_suffix (PlaygroundInternalBase c) ''/'' @ ''/sink/echo''"

definition clipSinkBody :: "bytes \<Rightarrow> string" where
  "clipSinkBody body =
     (let s = (if utf8_valid body then body else to_valid_utf8 body [CHR 0xEF, CHR 0xBF, CHR 0xBD])
      in if sinkBodyLimit < length s then take sinkBodyLimit s @ [CHR 0xE2, CHR 0x80, CHR 0xA6] else s)"

text \<open>\<^verbatim>\<open>io.ReadAll(io.LimitReader(...))\<close> with its error ignored.\<close>

definition read_limited :: "int \<Rightarrow> body_stream \<Rightarrow> bytes" where
  "read_limited n b = take (nat n) (bs_bytes b)"

definition sinkReceive :: "config \<Rightarrow> string \<Rightarrow> header \<Rightarrow> body_stream \<Rightarrow> echoSink \<Rightarrow> string reply \<times> echoSink" where
  "sinkReceive c ts headers stream s =
     (let (status, s') = sink_record
            \<lparr>sk_ts = ts, sk_status = 0, sk_delivery_id = header_get headers ''X-Tuma-Delivery-Id'',
             sk_attempt = header_get headers ''X-Tuma-Attempt'',
             sk_body = clipSinkBody (read_limited (MaxBodyBytes c) stream)\<rparr> s
      in (if status \<noteq> 200 then Error status ''test receiver failing'' else Reply 200 (marshal (JObj [(''ok'', JBool True)])), s'))"

definition getSink :: "config \<Rightarrow> echoSink \<Rightarrow> (string \<times> bool \<times> sinkEvent list) reply \<times> echoSink" where
  "getSink c s = (let (fail, evs) = snapshot s in (Reply 200 (sinkURL c, fail, evs), s))"

definition sinkBreak :: "echoSink \<Rightarrow> bool reply \<times> echoSink" where
  "sinkBreak s = (Reply 200 True, setFail True s)"

definition sinkFix :: "echoSink \<Rightarrow> bool reply \<times> echoSink" where
  "sinkFix s = (Reply 200 False, setFail False s)"

section \<open>The log\<close>

lemma sink_record_log:
  "sink_events (snd (sink_record ev s)) = lastn sinkMaxEvents (sink_events s @ [ev\<lparr>sk_status := sink_status s\<rparr>])"
  by (simp add: sink_record_def Let_def lastn_def)

interpretation sink: bounded_log
  "\<lambda>ev s. snd (sink_record ev s)" sink_events "\<lambda>s ev. ev\<lparr>sk_status := sink_status s\<rparr>" sinkMaxEvents
proof unfold_locales
  show "0 < sinkMaxEvents" by (simp add: sinkMaxEvents_def)
qed (rule sink_record_log, simp add: sink_record_def Let_def sink_status_def)

text \<open>The requests the sink serves, and the log a sink without a limit would keep.\<close>

datatype sink_op = Receive string header body_stream | Break | Fix

fun sink_step :: "config \<Rightarrow> sink_op \<Rightarrow> echoSink \<Rightarrow> echoSink" where
  "sink_step c (Receive ts h b) s = snd (sinkReceive c ts h b s)"
| "sink_step c Break s = snd (sinkBreak s)"
| "sink_step c Fix s = snd (sinkFix s)"

fun full_log :: "config \<Rightarrow> bool \<Rightarrow> sink_op list \<Rightarrow> sinkEvent list" where
  "full_log c fail [] = []"
| "full_log c fail (Receive ts h b # ops) =
     \<lparr>sk_ts = ts, sk_status = (if fail then 502 else 200), sk_delivery_id = header_get h ''X-Tuma-Delivery-Id'',
      sk_attempt = header_get h ''X-Tuma-Attempt'',
      sk_body = clipSinkBody (read_limited (MaxBodyBytes c) b)\<rparr> # full_log c fail ops"
| "full_log c fail (Break # ops) = full_log c True ops"
| "full_log c fail (Fix # ops) = full_log c False ops"

lemma sinkReceive_simps:
  "sink_events (snd (sinkReceive c ts h b s)) = lastn sinkMaxEvents (sink_events s @
     [\<lparr>sk_ts = ts, sk_status = sink_status s, sk_delivery_id = header_get h ''X-Tuma-Delivery-Id'',
       sk_attempt = header_get h ''X-Tuma-Attempt'', sk_body = clipSinkBody (read_limited (MaxBodyBytes c) b)\<rparr>])"
  "sink_fail (snd (sinkReceive c ts h b s)) = sink_fail s"
  "status_of (fst (sinkReceive c ts h b s)) = sink_status s"
proof -
  let ?ev = "\<lparr>sk_ts = ts, sk_status = 0, sk_delivery_id = header_get h ''X-Tuma-Delivery-Id'',
       sk_attempt = header_get h ''X-Tuma-Attempt'', sk_body = clipSinkBody (read_limited (MaxBodyBytes c) b)\<rparr>"
  have "snd (sinkReceive c ts h b s) = snd (sink_record ?ev s)"
    by (simp add: sinkReceive_def split_beta)
  then show "sink_events (snd (sinkReceive c ts h b s)) = lastn sinkMaxEvents (sink_events s @
     [\<lparr>sk_ts = ts, sk_status = sink_status s, sk_delivery_id = header_get h ''X-Tuma-Delivery-Id'',
       sk_attempt = header_get h ''X-Tuma-Attempt'', sk_body = clipSinkBody (read_limited (MaxBodyBytes c) b)\<rparr>])"
    "sink_fail (snd (sinkReceive c ts h b s)) = sink_fail s"
    using sink.log_push [of ?ev s] by (simp_all add: sink_record_def Let_def)
  show "status_of (fst (sinkReceive c ts h b s)) = sink_status s"
    by (simp add: sinkReceive_def sink_record_def Let_def sink_status_def)
qed

lemma sink_run:
  "length (sink_events s) \<le> sinkMaxEvents \<Longrightarrow>
   sink_events (fold (sink_step c) ops s) = lastn sinkMaxEvents (sink_events s @ full_log c (sink_fail s) ops)"
proof (induction ops arbitrary: s)
  case Nil
  then show ?case by (simp add: lastn_all)
next
  case (Cons op ops)
  show ?case
  proof (cases op)
    case (Receive ts h b)
    let ?s = "snd (sinkReceive c ts h b s)"
    have "length (sink_events ?s) \<le> sinkMaxEvents" by (simp add: sinkReceive_simps length_lastn)
    from Cons.IH [OF this] Receive show ?thesis
      by (simp add: sinkReceive_simps sink_status_def lastn_lastn_app [OF sink.cap_pos])
  qed (use Cons in \<open>simp_all add: sinkBreak_def sinkFix_def setFail_def\<close>)
qed

text \<open>The switch after some requests.\<close>

fun fail_after :: "bool \<Rightarrow> sink_op list \<Rightarrow> bool" where
  "fail_after f [] = f"
| "fail_after f (Receive ts h b # ops) = fail_after f ops"
| "fail_after f (Break # ops) = fail_after True ops"
| "fail_after f (Fix # ops) = fail_after False ops"

lemma fail_run: "sink_fail (fold (sink_step c) ops s) = fail_after (sink_fail s) ops"
proof (induction ops arbitrary: s)
  case (Cons op ops)
  then show ?case by (cases op) (simp_all add: sinkReceive_simps sinkBreak_def sinkFix_def setFail_def)
qed simp

lemma status_last:
  "full_log c f (ops @ [Receive ts h b]) \<noteq> [] \<and>
   sk_status (last (full_log c f (ops @ [Receive ts h b]))) = (if fail_after f ops then 502 else 200)"
  by (induction f ops rule: fail_after.induct) auto

text \<open>
  Whatever requests arrive, the sink shows the last fifty deliveries of all it received, in
  order, each with its headers and clipped body and with the status it was answered: 502 from
  a break until the next fix, 200 otherwise.
\<close>

lemma sink_history:
  "snapshot (fold (sink_step c) ops newEchoSink) = (fail_after False ops, lastn 50 (full_log c False ops))
   \<and> status_of (fst (sinkReceive c ts h b (fold (sink_step c) ops newEchoSink))) =
       sk_status (last (full_log c False (ops @ [Receive ts h b])))
   \<and> sk_status (last (full_log c False (ops @ [Receive ts h b]))) = (if fail_after False ops then 502 else 200)"
  using sink_run [of newEchoSink c ops] status_last [of c False ops ts h b] fail_run [of c ops newEchoSink]
  by (simp add: snapshot_def newEchoSink_def sinkMaxEvents_def sinkReceive_simps(3) sink_status_def)

end
