(* ===== verification/AlertApi.thy ===== *)
theory AlertApi
  imports Handlers Notification Sink
begin

text \<open>
  The console handlers for alert rules (\<^verbatim>\<open>internal/api/alert_rules.go\<close>) and for the notification
  settings (\<^verbatim>\<open>internal/api/admin_settings.go\<close>, and \<^verbatim>\<open>getConfig\<close> of \<^verbatim>\<open>playground.go\<close>).
\<close>

section \<open>Alert rules\<close>

definition validUnitsForType :: "(string \<times> string) list" where
  "validUnitsForType = [(''OPEN_ISSUES'', ''COUNT''), (''DELIVERY_SUCCESS'', ''PERCENT''), (''UNRESOLVED_TIME'', ''HOURS'')]"

definition validEmail :: "handler_env \<Rightarrow> string \<Rightarrow> bool" where
  "validEmail E s \<longleftrightarrow>
     s \<noteq> [] \<and> CHR '' '' \<notin> set s \<and> CHR 0x0D \<notin> set s \<and> CHR 0x0A \<notin> set s \<and> mail_address E s = Some s"

text \<open>The complaint about a rule; the empty text when there is none.\<close>

definition validateAlertRule :: "handler_env \<Rightarrow> string \<Rightarrow> string \<Rightarrow> float64 \<Rightarrow> string \<Rightarrow> string \<Rightarrow> string" where
  "validateAlertRule E ruleType unit threshold notifType notifDest =
     (case map_of validUnitsForType ruleType of
        None \<Rightarrow> ''invalid rule_type: must be one of OPEN_ISSUES, DELIVERY_SUCCESS, UNRESOLVED_TIME''
      | Some expectedUnit \<Rightarrow>
          if unit \<noteq> expectedUnit then ''invalid unit for rule_type '' @ ruleType @ '': must be '' @ expectedUnit
          else if threshold < 0 then ''threshold must be >= 0''
          else if ruleType = ''DELIVERY_SUCCESS'' \<and> 100 < threshold
          then ''threshold for DELIVERY_SUCCESS must be between 0 and 100''
          else if notifType = ''email''
          then (if \<not> validEmail E notifDest then ''notification_dest must be an email address'' else [])
          else if notifType = ''slack_dm''
          then (if \<not> ValidSlackUserID notifDest then ''notification_dest must be a Slack member ID'' else [])
          else ''invalid notification_type: must be email or slack_dm'')"

definition listAlertRules :: "server \<Rightarrow> (AlertRule list \<times> nat \<times> nat) reply \<times> server" where
  "listAlertRules s =
     (case ListAlertRules (srv_db s) of
        (Inl _, d) \<Rightarrow> (internal_error, upd_db s d)
      | (Inr rules, d) \<Rightarrow> (Reply 200 (rules, length (filter rule_active rules), length rules), upd_db s d))"

record createAlertRuleRequest =
  car_name :: string
  car_rule_type :: string
  car_threshold :: float64
  car_unit :: string
  car_notification_type :: string
  car_notification_dest :: string
  car_subject_template :: "string option"
  car_body_template :: "string option"

definition notificationSettings :: "handler_env \<Rightarrow> Effective query" where
  "notificationSettings E = Load_settings (Some (encryptor_of E)) (cfg E)"

definition new_rule :: "createAlertRuleRequest \<Rightarrow> AlertRule" where
  "new_rule q =
     \<lparr>rule_id = 0, rule_name = car_name q, rule_type = car_rule_type q, rule_threshold = car_threshold q,
      rule_unit = car_unit q, rule_active = True, rule_notification_type = car_notification_type q,
      rule_notification_dest = car_notification_dest q, rule_subject_template = car_subject_template q,
      rule_body_template = car_body_template q, rule_firing_threshold = None, rule_delivery_error = None,
      rule_created_at = 0, rule_updated_at = 0\<rparr>"

definition createAlertRule :: "handler_env \<Rightarrow> createAlertRuleRequest option \<Rightarrow> server \<Rightarrow> AlertRule reply \<times> server" where
  "createAlertRule E req s =
     (case req of
        None \<Rightarrow> (Error 400 ''invalid json'', s)
      | Some q \<Rightarrow>
          if car_name q = [] then (Error 400 ''name is required'', s)
          else let msg = validateAlertRule E (car_rule_type q) (car_unit q) (car_threshold q)
                           (car_notification_type q) (car_notification_dest q) in
          if msg \<noteq> [] then (Error 400 msg, s)
          else (case notificationSettings E (srv_db s) of
             (Inl _, d) \<Rightarrow> (internal_error, upd_db s d)
           | (Inr eff, d) \<Rightarrow>
               if car_notification_type q = ''email'' \<and> \<not> vw_email_enabled (eff_view eff)
               then (Error 400 ''set email in Admin, or SMTP_HOST on the server'', upd_db s d)
               else if car_notification_type q = ''slack_dm'' \<and> \<not> vw_slack_enabled (eff_view eff)
               then (Error 400 ''set the Slack bot token in Admin, or SLACK_BOT_TOKEN on the server'', upd_db s d)
               else (case CreateAlertRule (new_rule q) d of
                  (Inl e, d') \<Rightarrow>
                    (if unwrap e = ErrTooManyAlertRules then Error 400 ''maximum 10 alert rules allowed'' else internal_error,
                     upd_db s d')
                | (Inr rule, d') \<Rightarrow> (Reply 201 rule, upd_db s d'))))"

record patchAlertRuleRequest =
  par_active :: "bool option"
  par_threshold :: "float64 option"
  par_subject_template :: "string option"
  par_body_template :: "string option"

text \<open>The check of a new threshold: the reply that ends the request, if any.\<close>

definition check_threshold :: "uuid \<Rightarrow> float64 option \<Rightarrow> db \<Rightarrow> AlertRule reply option \<times> db" where
  "check_threshold i threshold d =
     (case threshold of
        None \<Rightarrow> (None, d)
      | Some th \<Rightarrow>
          if th < 0 then (Some (Error 400 ''threshold must be >= 0''), d)
          else (case GetAlertRule i d of
             (Inl _, d') \<Rightarrow> (Some internal_error, d')
           | (Inr None, d') \<Rightarrow> (Some not_found, d')
           | (Inr (Some r), d') \<Rightarrow>
               (if rule_type r = ''DELIVERY_SUCCESS'' \<and> 100 < th
                then Some (Error 400 ''threshold for DELIVERY_SUCCESS must be between 0 and 100'') else None, d')))"

definition patchAlertRule :: "handler_env \<Rightarrow> string \<Rightarrow> patchAlertRuleRequest option \<Rightarrow> server \<Rightarrow> AlertRule reply \<times> server" where
  "patchAlertRule E idText req s =
     (case parse_uuid E idText of
        None \<Rightarrow> (Error 400 ''invalid id'', s)
      | Some i \<Rightarrow>
          (case req of
             None \<Rightarrow> (Error 400 ''invalid json'', s)
           | Some q \<Rightarrow>
               (case check_threshold i (par_threshold q) (srv_db s) of
                  (Some err, d) \<Rightarrow> (err, upd_db s d)
                | (None, d) \<Rightarrow>
                    (case UpdateAlertRule i (par_active q) (par_threshold q) (par_subject_template q) (par_body_template q) d of
                       (Inl e, d') \<Rightarrow>
                         (if unwrap e = ErrAlertRuleNotFound then not_found else internal_error, upd_db s d')
                     | (Inr rule, d') \<Rightarrow> (Reply 200 rule, upd_db s d')))))"

definition deleteAlertRule :: "handler_env \<Rightarrow> string \<Rightarrow> server \<Rightarrow> unit reply \<times> server" where
  "deleteAlertRule E idText s =
     (case parse_uuid E idText of
        None \<Rightarrow> (Error 400 ''invalid id'', s)
      | Some i \<Rightarrow>
          (case DeleteAlertRule i (srv_db s) of
             (Inl e, d) \<Rightarrow> (if unwrap e = ErrAlertRuleNotFound then not_found else internal_error, upd_db s d)
           | (Inr _, d) \<Rightarrow> (Reply 204 (), upd_db s d)))"

definition notification_limit :: "string \<Rightarrow> nat" where
  "notification_limit q =
     (if q = [] then 100
      else case parse_int64 q of (n, err) \<Rightarrow> if \<not> err \<and> 0 < n \<and> n \<le> 500 then nat n else 100)"

definition listAlertNotifications :: "string \<Rightarrow> server \<Rightarrow> (AlertNotification list \<times> nat) reply \<times> server" where
  "listAlertNotifications limitParam s =
     (case ListAlertNotifications (notification_limit limitParam) (srv_db s) of
        (Inl _, d) \<Rightarrow> (internal_error, upd_db s d)
      | (Inr xs, d) \<Rightarrow> (Reply 200 (xs, length xs), upd_db s d))"

section \<open>Notification settings\<close>

definition getNotificationSettings :: "handler_env \<Rightarrow> server \<Rightarrow> View reply \<times> server" where
  "getNotificationSettings E s =
     (case notificationSettings E (srv_db s) of
        (Inl _, d) \<Rightarrow> (internal_error, upd_db s d)
      | (Inr eff, d) \<Rightarrow> (Reply 200 (eff_view eff), upd_db s d))"

record notificationSettingsUpdate =
  nsu_smtp_host :: string
  nsu_smtp_port :: int
  nsu_smtp_username :: string
  nsu_smtp_from :: string
  nsu_smtp_password :: string
  nsu_clear_smtp_password :: bool
  nsu_slack_bot_token :: string
  nsu_clear_slack_token :: bool

text \<open>What becomes of a saved secret: cleared, replaced, or kept.\<close>

definition next_secret :: "encryptor \<Rightarrow> 96 word result \<Rightarrow> bool \<Rightarrow> string \<Rightarrow> bytes option \<Rightarrow> bytes option result" where
  "next_secret e rand clear given current =
     (let kept = (if clear then None else current)
      in if given \<noteq> [] then (case Encrypt e rand given of Inl err \<Rightarrow> Inl err | Inr enc \<Rightarrow> Inr (Some enc))
         else Inr kept)"

definition putNotificationSettings ::
  "handler_env \<Rightarrow> 96 word result \<times> 96 word result \<Rightarrow> notificationSettingsUpdate option \<Rightarrow> server \<Rightarrow> View reply \<times> server" where
  "putNotificationSettings E rs req s =
     (case req of
        None \<Rightarrow> (Error 400 ''invalid json'', s)
      | Some q \<Rightarrow>
          let token = trim_space (nsu_slack_bot_token q) in
          if nsu_smtp_port q < 0 \<or> 65535 < nsu_smtp_port q then (Error 400 ''smtp_port must be between 0 and 65535'', s)
          else if contains token ''hooks.slack.com'' \<or> contains token [CHR 0x0A]
          then (Error 400 ''slack_bot_token must be a bot token, not a webhook URL'', s)
          else (case GetNotificationSettings (srv_db s) of
             (Inl _, d) \<Rightarrow> (internal_error, upd_db s d)
           | (Inr current, d) \<Rightarrow>
               (case next_secret (encryptor_of E) (fst rs) (nsu_clear_smtp_password q) (nsu_smtp_password q)
                       (ns_smtp_password_enc current) of
                  Inl _ \<Rightarrow> (internal_error, upd_db s d)
                | Inr pw \<Rightarrow>
                    (case next_secret (encryptor_of E) (snd rs) (nsu_clear_slack_token q) token (ns_slack_bot_token_enc current) of
                       Inl _ \<Rightarrow> (internal_error, upd_db s d)
                     | Inr tok \<Rightarrow>
                         (case SaveNotificationSettings
                            \<lparr>ns_smtp_host = trim_space (nsu_smtp_host q), ns_smtp_port = nsu_smtp_port q,
                             ns_smtp_username = trim_space (nsu_smtp_username q), ns_smtp_password_enc = pw,
                             ns_smtp_from = trim_space (nsu_smtp_from q), ns_slack_bot_token_enc = tok\<rparr> d of
                            (Inl _, d') \<Rightarrow> (internal_error, upd_db s d')
                          | (Inr _, d') \<Rightarrow>
                              (case notificationSettings E d' of
                                 (Inl _, d'') \<Rightarrow> (internal_error, upd_db s d'')
                               | (Inr eff, d'') \<Rightarrow> (Reply 200 (eff_view eff), upd_db s d'')))))))"

record config_reply =
  cfr_demo_mode :: bool
  cfr_sink_url :: string
  cfr_email_enabled :: bool
  cfr_slack_enabled :: bool

definition getConfig :: "handler_env \<Rightarrow> server \<Rightarrow> config_reply reply \<times> server" where
  "getConfig E s =
     (case notificationSettings E (srv_db s) of
        (Inr eff, d) \<Rightarrow>
          (Reply 200 \<lparr>cfr_demo_mode = DemoMode (cfg E), cfr_sink_url = sinkURL (cfg E),
             cfr_email_enabled = vw_email_enabled (eff_view eff), cfr_slack_enabled = vw_slack_enabled (eff_view eff)\<rparr>, upd_db s d)
      | (Inl _, d) \<Rightarrow>
          (Reply 200 \<lparr>cfr_demo_mode = DemoMode (cfg E), cfr_sink_url = sinkURL (cfg E),
             cfr_email_enabled = (smtp_host (SMTP (cfg E)) \<noteq> []), cfr_slack_enabled = (SlackBotToken (cfg E) \<noteq> [])\<rparr>, upd_db s d))"

end
