(* ===== verification/RateLimit.thy ===== *)
theory RateLimit
  imports Adapters Float64
begin

text \<open>
  \<^verbatim>\<open>internal/api/ratelimit.go\<close>: the token buckets and stream slots of the playground, and the
  address a request is counted under.
\<close>

section \<open>Token buckets\<close>

record tokenBucket =
  tb_tokens :: float64
  tb_last :: time
  tb_rate :: float64
  tb_burst :: float64

type_synonym rateLimiter = "string \<Rightarrow> tokenBucket option"

definition newRateLimiter :: rateLimiter where
  "newRateLimiter = (\<lambda>_. None)"

text \<open>\<^verbatim>\<open>Duration.Seconds\<close>: whole seconds and nanoseconds converted separately.\<close>

definition duration_seconds :: "int \<Rightarrow> float64" where
  "duration_seconds d =
     (let pos = (\<lambda>n. fadd (float_of_int (n div Second)) (fdiv (float_of_int (n mod Second)) 1000000000))
      in if d < 0 then - pos (- d) else pos d)"

definition new_bucket :: "time \<Rightarrow> int \<Rightarrow> int \<Rightarrow> tokenBucket" where
  "new_bucket t perHour burst =
     \<lparr>tb_tokens = float_of_int burst, tb_last = t, tb_rate = fdiv (float_of_int perHour) 3600,
      tb_burst = float_of_int burst\<rparr>"

definition refill :: "time \<Rightarrow> tokenBucket \<Rightarrow> tokenBucket" where
  "refill now b =
     (let tk = fadd (tb_tokens b) (fmul (duration_seconds (sat64 (now - tb_last b))) (tb_rate b))
      in b\<lparr>tb_tokens := (if tb_burst b < tk then tb_burst b else tk), tb_last := now\<rparr>)"

text \<open>\<open>t0\<close> is the clock when a bucket is made, \<open>t1\<close> when it is refilled.\<close>

definition allow :: "time \<times> time \<Rightarrow> string \<Rightarrow> int \<Rightarrow> int \<Rightarrow> rateLimiter \<Rightarrow> bool \<times> rateLimiter" where
  "allow clk key perHour burst rl =
     (let b = refill (snd clk) (case rl key of Some b \<Rightarrow> b | None \<Rightarrow> new_bucket (fst clk) perHour burst)
      in if tb_tokens b < 1 then (False, rl(key \<mapsto> b))
         else (True, rl(key \<mapsto> b\<lparr>tb_tokens := fsub (tb_tokens b) 1\<rparr>)))"

section \<open>Stream slots\<close>

type_synonym streamLimiter = "string \<Rightarrow> int option"

definition newStreamLimiter :: streamLimiter where
  "newStreamLimiter = (\<lambda>_. None)"

definition active_of :: "streamLimiter \<Rightarrow> string \<Rightarrow> int" where
  "active_of sl ip = (case sl ip of None \<Rightarrow> 0 | Some n \<Rightarrow> n)"

definition stream_acquire :: "string \<Rightarrow> int \<Rightarrow> streamLimiter \<Rightarrow> bool \<times> streamLimiter" where
  "stream_acquire ip limit sl =
     (if limit \<le> active_of sl ip then (False, sl) else (True, sl(ip \<mapsto> active_of sl ip + 1)))"

definition stream_release :: "string \<Rightarrow> streamLimiter \<Rightarrow> streamLimiter" where
  "stream_release ip sl =
     (let n = active_of sl ip - 1 in if n \<le> 0 then sl(ip := None) else sl(ip \<mapsto> n))"

section \<open>The client's address\<close>

definition clientIP :: "header \<Rightarrow> string \<Rightarrow> string" where
  "clientIP headers remoteAddr =
     (let xff = header_get headers ''X-Forwarded-For''
      in if xff \<noteq> [] then trim_space (hd (split_char (CHR '','') xff))
         else case last_index (CHR '':'') remoteAddr of
                Some i \<Rightarrow> take i remoteAddr
              | None \<Rightarrow> remoteAddr)"

section \<open>How much a bucket lets through\<close>

text \<open>The calls for one key, and how many of them are let through.\<close>

fun granted :: "string \<Rightarrow> int \<Rightarrow> int \<Rightarrow> (time \<times> time) list \<Rightarrow> rateLimiter \<Rightarrow> nat" where
  "granted key perHour burst [] rl = 0"
| "granted key perHour burst (c # cs) rl =
     (case allow c key perHour burst rl of (ok, rl') \<Rightarrow> (if ok then 1 else 0) + granted key perHour burst cs rl')"

abbreviation eps :: rat where "eps \<equiv> 1 / 2 ^ 52"

text \<open>The tokens that a duration is worth, exactly.\<close>

definition worth :: "int \<Rightarrow> int \<Rightarrow> rat" where
  "worth perHour d = of_int perHour * of_int d / (3600 * 1000000000)"

lemma float_of_int_upper: "0 \<le> n \<Longrightarrow> float_of_int n \<le> of_int n * (1 + eps) \<and> 0 \<le> float_of_int n"
  using f64_upper [of "of_int n"] f64_nonneg [of "of_int n"] by (simp add: float_of_int_def)

lemma fdiv_upper: "0 \<le> x \<Longrightarrow> 0 < c \<Longrightarrow> fdiv x c \<le> x / c * (1 + eps) \<and> 0 \<le> fdiv x c"
  using f64_upper [of "x / c"] f64_nonneg [of "x / c"] by (simp add: fdiv_def)

lemma duration_upper:
  assumes "0 \<le> d"
  shows "duration_seconds d \<le> of_int d / 1000000000 * (1 + eps) ^ 3" and "0 \<le> duration_seconds d"
proof -
  let ?a = "float_of_int (d div Second)" and ?b = "float_of_int (d mod Second)"
  have a: "?a \<le> of_int (d div Second) * (1 + eps)" "0 \<le> ?a"
    and b: "?b \<le> of_int (d mod Second) * (1 + eps)" "0 \<le> ?b"
    using assms float_of_int_upper [of "d div Second"] float_of_int_upper [of "d mod Second"]
    by (auto simp: pos_imp_zdiv_nonneg_iff)
  have f: "fdiv ?b 1000000000 \<le> ?b / 1000000000 * (1 + eps)" "0 \<le> fdiv ?b 1000000000"
    using fdiv_upper [OF b(2), of 1000000000] by auto
  have "?b / 1000000000 * (1 + eps) \<le> of_int (d mod Second) * (1 + eps) / 1000000000 * (1 + eps)"
    by (intro mult_right_mono divide_right_mono b) auto
  moreover have "of_int (d div Second) * (1 + eps) \<le> of_int (d div Second) * (1 + eps) * (1 + eps)"
    using assms by (simp add: mult_le_cancel_left1 pos_imp_zdiv_nonneg_iff)
  ultimately have sum: "?a + fdiv ?b 1000000000 \<le>
      (of_int (d div Second) + of_int (d mod Second) / 1000000000) * (1 + eps) ^ 2"
    using a f by (simp add: power2_eq_square field_simps)
  have "of_int d = of_int Second * of_int (d div Second) + (of_int (d mod Second) :: rat)"
    by (metis mult_div_mod_eq of_int_add of_int_mult)
  then have d: "of_int (d div Second) + of_int (d mod Second) / 1000000000 = (of_int d / 1000000000 :: rat)" by simp
  have "fadd ?a (fdiv ?b 1000000000) \<le> (?a + fdiv ?b 1000000000) * (1 + eps)"
    unfolding fadd_def using a f by (intro f64_upper) auto
  also have "\<dots> \<le> of_int d / 1000000000 * (1 + eps) ^ 2 * (1 + eps)"
    using sum [unfolded d] by (intro mult_right_mono) auto
  finally show "duration_seconds d \<le> of_int d / 1000000000 * (1 + eps) ^ 3"
    using assms by (simp add: duration_seconds_def power_numeral_reduce mult.assoc)
  show "0 \<le> duration_seconds d"
    using assms a f by (simp add: duration_seconds_def fadd_def f64_nonneg)
qed


text \<open>The invariant of a bucket, and what one refill and one grant can add to it.\<close>

definition bucket_ok :: "int \<Rightarrow> int \<Rightarrow> tokenBucket \<Rightarrow> bool" where
  "bucket_ok perHour burst b \<longleftrightarrow>
     tb_rate b = fdiv (float_of_int perHour) 3600 \<and> tb_burst b = of_int burst
     \<and> 0 \<le> tb_tokens b \<and> tb_tokens b \<le> of_int burst"

lemma sat64_upper: "0 \<le> d \<Longrightarrow> sat64 d \<le> d \<and> 0 \<le> sat64 d"
  by (simp add: sat64_def)

lemma new_bucket_ok: "0 \<le> burst \<Longrightarrow> burst \<le> 2 ^ 53 \<Longrightarrow> bucket_ok perHour burst (new_bucket t perHour burst)"
  by (simp add: bucket_ok_def new_bucket_def float_of_int_def f64_of_int)

lemma earned_upper:
  assumes "0 \<le> d" "0 \<le> perHour"
  shows "fmul (duration_seconds (sat64 d)) (fdiv (float_of_int perHour) 3600) \<le> worth perHour d * (1 + eps) ^ 6"
    and "0 \<le> fmul (duration_seconds (sat64 d)) (fdiv (float_of_int perHour) 3600)"
proof -
  let ?s = "duration_seconds (sat64 d)" and ?r = "fdiv (float_of_int perHour) 3600"
  have d: "0 \<le> sat64 d" "sat64 d \<le> d" using sat64_upper [OF assms(1)] by auto
  have "(of_int (sat64 d) :: rat) / 1000000000 * (1 + eps) ^ 3 \<le> of_int d / 1000000000 * (1 + eps) ^ 3"
    by (intro mult_right_mono divide_right_mono) (use d in auto)
  from order_trans [OF duration_upper(1) [OF d(1)] this] duration_upper(2) [OF d(1)]
  have s: "?s \<le> of_int d / 1000000000 * (1 + eps) ^ 3" "0 \<le> ?s" .
  have p: "float_of_int perHour \<le> of_int perHour * (1 + eps)" "0 \<le> float_of_int perHour"
    using float_of_int_upper [OF assms(2)] by auto
  have "float_of_int perHour / 3600 * (1 + eps) \<le> of_int perHour * (1 + eps) / 3600 * (1 + eps)"
    by (intro mult_right_mono divide_right_mono p) auto
  with fdiv_upper [OF p(2), of 3600] have r: "?r \<le> of_int perHour / 3600 * (1 + eps) ^ 2" "0 \<le> ?r"
    by (auto simp: power2_eq_square field_simps)
  have "fmul ?s ?r \<le> ?s * ?r * (1 + eps)" unfolding fmul_def using s r by (intro f64_upper) simp
  also have "?s * ?r \<le> (of_int d / 1000000000 * (1 + eps) ^ 3) * (of_int perHour / 3600 * (1 + eps) ^ 2)"
    using s r assms by (intro mult_mono) auto
  also have "\<dots> = worth perHour d * (1 + eps) ^ 5" by (simp add: worth_def field_simps)
  finally show "fmul ?s ?r \<le> worth perHour d * (1 + eps) ^ 6"
    by (simp add: mult_right_mono power_numeral_reduce mult.assoc)
  show "0 \<le> fmul ?s ?r" unfolding fmul_def using s r by (simp add: f64_nonneg)
qed

lemma refill_ok:
  assumes b: "bucket_ok perHour burst b" and "tb_last b \<le> now" "0 \<le> perHour" "0 \<le> burst"
  shows "bucket_ok perHour burst (refill now b) \<and> tb_last (refill now b) = now
    \<and> tb_tokens (refill now b) \<le> tb_tokens b + worth perHour (now - tb_last b) + of_int burst * (8 * eps)"
proof -
  let ?d = "now - tb_last b" and ?k = "tb_tokens b"
  let ?e = "fmul (duration_seconds (sat64 ?d)) (fdiv (float_of_int perHour) 3600)"
  let ?t = "fadd ?k ?e"
  have k: "0 \<le> ?k" "?k \<le> of_int burst" using b by (auto simp: bucket_ok_def)
  have e: "?e \<le> worth perHour ?d * (1 + eps) ^ 6" "0 \<le> ?e" using earned_upper [of ?d perHour] assms by auto
  have w: "0 \<le> worth perHour ?d" using assms by (simp add: worth_def)
  have "?t \<le> (?k + ?e) * (1 + eps)" unfolding fadd_def using k e by (intro f64_upper) auto
  also have "\<dots> \<le> ((?k + worth perHour ?d) * (1 + eps) ^ 6) * (1 + eps)"
  proof (intro mult_right_mono)
    have "?k * 1 \<le> ?k * (1 + eps) ^ 6" by (intro mult_left_mono k) simp
    then show "?k + ?e \<le> (?k + worth perHour ?d) * (1 + eps) ^ 6"
      using e(1) by (simp only: distrib_right mult_1_right add_mono)
  qed simp
  also have "\<dots> = (?k + worth perHour ?d) * (1 + eps) ^ 7" by (simp add: power_numeral_reduce)
  also have "\<dots> \<le> (?k + worth perHour ?d) * (1 + 8 * eps)" using k w by (intro mult_left_mono) (simp_all add: power_divide)
  finally have t: "?t \<le> (?k + worth perHour ?d) * (1 + 8 * eps)" .
  have t0: "0 \<le> ?t" unfolding fadd_def using k e by (simp add: f64_nonneg)
  have bound: "min (of_int burst) ?t \<le> ?k + worth perHour ?d + of_int burst * (8 * eps)"
  proof (cases "?k + worth perHour ?d \<le> of_int burst")
    case True
    then have "(?k + worth perHour ?d) * (8 * eps) \<le> of_int burst * (8 * eps)" by (intro mult_right_mono) auto
    with t show ?thesis by (simp add: distrib_left)
  next
    case False
    then show ?thesis using assms(4) by (simp add: min_def)
  qed
  have r: "refill now b = b\<lparr>tb_tokens := min (of_int burst) ?t, tb_last := now\<rparr>"
    using b by (simp add: refill_def Let_def bucket_ok_def min_def)
  show ?thesis
    unfolding r using b bound t0 assms(4) by (simp add: bucket_ok_def)
qed

lemma spend_ok:
  assumes "bucket_ok perHour burst b" "1 \<le> tb_tokens b" "0 \<le> burst" "burst \<le> 2 ^ 53"
  shows "bucket_ok perHour burst (b\<lparr>tb_tokens := fsub (tb_tokens b) 1\<rparr>)
    \<and> fsub (tb_tokens b) 1 \<le> tb_tokens b - 1 + of_int burst * eps"
proof -
  let ?k = "tb_tokens b"
  have k: "?k \<le> of_int burst" using assms by (simp add: bucket_ok_def)
  have "fsub ?k 1 \<le> (?k - 1) * (1 + eps)" unfolding fsub_def using assms by (intro f64_upper) simp
  moreover have "(?k - 1) * eps \<le> of_int burst * eps" using k by (intro mult_right_mono) auto
  ultimately have u: "fsub ?k 1 \<le> ?k - 1 + of_int burst * eps" by (simp add: distrib_left)
  have "fsub ?k 1 \<le> f64 (of_int burst)" unfolding fsub_def using k by (intro f64_mono) simp
  then have "fsub ?k 1 \<le> of_int burst" using assms by (simp add: f64_of_int)
  then show ?thesis
    using assms u f64_nonneg [of "?k - 1"] by (simp add: bucket_ok_def fsub_def)
qed


text \<open>The clock does not run backwards, within a call and from one call to the next.\<close>

fun clock_ok :: "time \<Rightarrow> (time \<times> time) list \<Rightarrow> bool" where
  "clock_ok t [] = True"
| "clock_ok t ((a, b) # cs) \<longleftrightarrow> t \<le> a \<and> a \<le> b \<and> clock_ok b cs"

lemma worth_add: "worth p (a + b) = worth p a + worth p b"
  by (simp add: worth_def field_simps)

lemma granted_bound:
  assumes "rl key = Some b" "bucket_ok perHour burst b" "clock_ok (tb_last b) cs"
    and pos: "0 \<le> perHour" "0 \<le> burst" "burst \<le> 2 ^ 53"
  shows "of_nat (granted key perHour burst cs rl) \<le>
    tb_tokens b + worth perHour (snd (last ((0, tb_last b) # cs)) - tb_last b) + of_nat (length cs) * (of_int burst * (9 * eps))"
  using assms(1-3)
proof (induction cs arbitrary: rl b)
  case Nil
  then show ?case by (simp add: bucket_ok_def worth_def)
next
  case (Cons c cs)
  obtain t0 t1 where c: "c = (t0, t1)" by (cases c)
  let ?b = "refill t1 b"
  let ?b' = "if tb_tokens ?b < 1 then ?b else ?b\<lparr>tb_tokens := fsub (tb_tokens ?b) 1\<rparr>"
  let ?ok = "if tb_tokens ?b < 1 then 0 else 1"
  let ?T = "snd (last ((0, t1) # cs))"
  have last: "snd (last ((0, tb_last b) # c # cs)) = ?T" by (cases cs) (simp_all add: c)
  have t: "tb_last b \<le> t1" "clock_ok t1 cs" using Cons.prems(3) by (auto simp: c)
  note r = refill_ok [OF Cons.prems(2) t(1) pos(1,2)]
  have b': "bucket_ok perHour burst ?b' \<and> tb_last ?b' = t1
      \<and> of_nat ?ok + tb_tokens ?b' \<le> tb_tokens ?b + of_int burst * eps"
    using r spend_ok [of perHour burst ?b] pos by (auto simp: not_less)
  have al: "granted key perHour burst (c # cs) rl = ?ok + granted key perHour burst cs (rl(key \<mapsto> ?b'))"
    using Cons.prems(1) by (simp add: c allow_def Let_def)
  have ih: "of_nat (granted key perHour burst cs (rl(key \<mapsto> ?b'))) \<le>
      tb_tokens ?b' + worth perHour (?T - t1) + of_nat (length cs) * (of_int burst * (9 * eps))"
    using Cons.IH [of "rl(key \<mapsto> ?b')" ?b'] b' t(2) by (simp del: fun_upd_apply add: fun_upd_same)
  have w: "worth perHour (?T - tb_last b) = worth perHour (t1 - tb_last b) + worth perHour (?T - t1)"
    using worth_add [of perHour "t1 - tb_last b" "?T - t1"] by simp
  have n: "of_nat (length (c # cs)) * (of_int burst * (9 * eps)) =
      of_nat (length cs) * (of_int burst * (9 * eps)) + (of_int burst * (8 * eps) + of_int burst * eps)"
    by (simp add: distrib_right distrib_left)
  show ?case
    unfolding last al w n using ih b' r by (simp only: of_nat_add) linarith
qed


text \<open>The limiter after some calls for a key.\<close>

definition after :: "string \<Rightarrow> int \<Rightarrow> int \<Rightarrow> (time \<times> time) list \<Rightarrow> rateLimiter \<Rightarrow> rateLimiter" where
  "after key perHour burst cs rl = fold (\<lambda>c rl. snd (allow c key perHour burst rl)) cs rl"

definition limiter_ok :: "string \<Rightarrow> int \<Rightarrow> int \<Rightarrow> time \<Rightarrow> rateLimiter \<Rightarrow> bool" where
  "limiter_ok key perHour burst t rl \<longleftrightarrow> (\<forall>b. rl key = Some b \<longrightarrow> bucket_ok perHour burst b \<and> tb_last b \<le> t)"

text \<open>One call, on a bucket that is there or made for it.\<close>

lemma allow_step:
  assumes "limiter_ok key perHour burst t rl" "t \<le> t0" "t0 \<le> t1" "0 \<le> perHour" "1 \<le> burst" "burst \<le> 2 ^ 53"
  shows "\<exists>b. snd (allow (t0, t1) key perHour burst rl) = rl(key \<mapsto> b) \<and> bucket_ok perHour burst b \<and> tb_last b = t1
     \<and> (if fst (allow (t0, t1) key perHour burst rl) then 1 else 0) + tb_tokens b \<le> of_int burst + of_int burst * eps"
proof -
  let ?b0 = "case rl key of Some b \<Rightarrow> b | None \<Rightarrow> new_bucket t0 perHour burst"
  have b0: "bucket_ok perHour burst ?b0" "tb_last ?b0 \<le> t1"
    using assms new_bucket_ok [of burst perHour t0] by (auto simp: limiter_ok_def new_bucket_def split: option.splits)
  define b1 where "b1 = refill t1 ?b0"
  have r: "bucket_ok perHour burst b1" "tb_last b1 = t1"
    using refill_ok [OF b0] assms by (auto simp: b1_def)
  have al: "allow (t0, t1) key perHour burst rl =
      (if tb_tokens b1 < 1 then (False, rl(key \<mapsto> b1)) else (True, rl(key \<mapsto> b1\<lparr>tb_tokens := fsub (tb_tokens b1) 1\<rparr>)))"
    unfolding b1_def allow_def Let_def fst_conv snd_conv by (rule refl)
  have k: "tb_tokens b1 \<le> of_int burst" "0 \<le> of_int burst * eps" using r(1) assms(5) by (simp_all add: bucket_ok_def)
  show ?thesis
  proof (cases "tb_tokens b1 < 1")
    case True
    with r k show ?thesis unfolding al by (intro exI [of _ b1]) auto
  next
    case False
    with spend_ok [OF r(1)] assms k r(2) show ?thesis
      unfolding al by (intro exI [of _ "b1\<lparr>tb_tokens := fsub (tb_tokens b1) 1\<rparr>"]) auto
  qed
qed

lemma after_ok:
  assumes "limiter_ok key perHour burst t rl" "clock_ok t cs" "0 \<le> perHour" "1 \<le> burst" "burst \<le> 2 ^ 53"
  shows "limiter_ok key perHour burst (snd (last ((0, t) # cs))) (after key perHour burst cs rl)"
  using assms(1,2)
proof (induction cs arbitrary: t rl)
  case (Cons c cs)
  obtain t0 t1 where c: "c = (t0, t1)" by fastforce
  with Cons.prems have t: "t \<le> t0" "t0 \<le> t1" "clock_ok t1 cs" by auto
  from allow_step [OF Cons.prems(1) t(1,2) assms(3-5)] obtain b where
    b: "snd (allow c key perHour burst rl) = rl(key \<mapsto> b)" "bucket_ok perHour burst b" "tb_last b = t1" by (auto simp: c)
  then have "limiter_ok key perHour burst t1 (snd (allow c key perHour burst rl))" by (simp add: limiter_ok_def)
  from Cons.IH [OF this t(3)] show ?case by (cases cs) (simp_all add: after_def c)
qed (simp add: after_def)

lemma clock_ok_append: "clock_ok t (as @ (t0, t1) # cs) \<Longrightarrow> clock_ok t as \<and> snd (last ((0, t) # as)) \<le> t0 \<and> t0 \<le> t1 \<and> clock_ok t1 cs"
proof (induction as arbitrary: t)
  case (Cons a as)
  obtain u v where a: "a = (u, v)" by fastforce
  from Cons.IH [of v] Cons.prems show ?case by (cases as) (auto simp: a)
qed simp

text \<open>
  C21. In any stretch of calls for one key, whatever calls came before, a limiter lets through no
  more than the burst plus the hourly rate times the hours from the first call of the stretch to
  the last, but for the rounding of the floating-point arithmetic: nine units in the last place
  of the burst for each call, which for the bursts of the playground a million million calls do not
  bring to the size of one request.
\<close>

theorem rate_bound:
  assumes "rl key = None" and "clock_ok t (before @ (t0, t1) # cs)"
    and "0 \<le> perHour" "1 \<le> burst" "burst \<le> 2 ^ 53"
  shows "of_nat (granted key perHour burst ((t0, t1) # cs) (after key perHour burst before rl)) \<le>
    of_int burst + worth perHour (snd (last ((t0, t1) # cs)) - t1) + of_nat (length ((t0, t1) # cs)) * (9 * of_int burst / 2 ^ 52)"
proof -
  let ?rl = "after key perHour burst before rl" and ?T = "snd (last ((t0, t1) # cs))"
  note c = clock_ok_append [OF assms(2)]
  have "limiter_ok key perHour burst t rl" using assms(1) by (simp add: limiter_ok_def)
  from after_ok [OF this _ assms(3-5)] c have "limiter_ok key perHour burst (snd (last ((0, t) # before))) ?rl" by blast
  from allow_step [OF this _ _ assms(3-5)] c obtain b where b: "snd (allow (t0, t1) key perHour burst ?rl) = ?rl(key \<mapsto> b)"
    "bucket_ok perHour burst b" "tb_last b = t1"
    "(if fst (allow (t0, t1) key perHour burst ?rl) then 1 else 0) + tb_tokens b \<le> of_int burst + of_int burst * eps" by blast
  have T: "snd (last ((0, tb_last b) # cs)) = ?T" using b(3) by (cases cs) simp_all
  have "of_nat (granted key perHour burst cs (?rl(key \<mapsto> b))) \<le>
      tb_tokens b + worth perHour (snd (last ((0, tb_last b) # cs)) - tb_last b) + of_nat (length cs) * (of_int burst * (9 * eps))"
    using b c assms by (intro granted_bound) auto
  then have g: "of_nat (granted key perHour burst cs (?rl(key \<mapsto> b))) \<le>
      tb_tokens b + worth perHour (?T - t1) + of_nat (length cs) * (of_int burst * (9 * eps))"
    using T b(3) by simp
  have "of_nat (granted key perHour burst ((t0, t1) # cs) ?rl) =
      (if fst (allow (t0, t1) key perHour burst ?rl) then 1 else 0) + (of_nat (granted key perHour burst cs (?rl(key \<mapsto> b))) :: rat)"
    using b(1) by (auto simp: split_beta)
  moreover have "of_int burst * eps \<le> of_int burst * (9 * eps)" using assms(4) by simp
  moreover have "of_nat (length ((t0, t1) # cs)) * (9 * of_int burst / 2 ^ 52) =
      of_nat (length cs) * (of_int burst * (9 * eps)) + (of_int burst * (9 * eps) :: rat)" by (simp add: field_simps)
  ultimately show ?thesis using g b(4) by linarith
qed

text \<open>Five calls at once on a full bucket of three: no more than three go through.\<close>

theorem rate_bound_witness:
  "granted ''bootstrap:1.2.3.4'' 10 3 [(2, 2), (2, 2), (2, 2), (2, 2), (2, 2)]
     (after ''bootstrap:1.2.3.4'' 10 3 [(0, 0), (0, 1)] newRateLimiter) \<le> 3"
proof -
  let ?n = "granted ''bootstrap:1.2.3.4'' 10 3 [(2, 2), (2, 2), (2, 2), (2, 2), (2, 2)]
     (after ''bootstrap:1.2.3.4'' 10 3 [(0, 0), (0, 1)] newRateLimiter)"
  have "of_nat ?n \<le> (of_int 3 + worth 10 (snd (last [(2 :: time, 2 :: time), (2, 2), (2, 2), (2, 2), (2, 2)]) - 2)
      + of_nat (length [(2 :: time, 2 :: time), (2, 2), (2, 2), (2, 2), (2, 2)]) * (9 * of_int 3 / 2 ^ 52) :: rat)"
    by (rule rate_bound [of newRateLimiter "''bootstrap:1.2.3.4''" 0 "[(0, 0), (0, 1)]" 2 2 "[(2, 2), (2, 2), (2, 2), (2, 2)]" 10 3])
       (simp_all add: newRateLimiter_def)
  then have "of_nat ?n < (of_nat 4 :: rat)" by (simp add: worth_def)
  then show ?thesis unfolding of_nat_less_iff by linarith
qed

text \<open>How the hourly rates of the playground round.\<close>

lemma rate_values:
  "1 \<le> fmul 360 (fdiv (float_of_int 10) 3600)"
  "1 \<le> fmul 180 (fdiv (float_of_int 20) 3600)"
  "1 \<le> fmul 120 (fdiv (float_of_int 30) 3600)"
proof -
  have i: "float_of_int 10 = 10" "float_of_int 20 = 20" "float_of_int 30 = 30" "f64 1 = 1"
    using f64_of_int [of 10] f64_of_int [of 20] f64_of_int [of 30] f64_of_int [of 1] by (simp_all add: float_of_int_def)
  have "f64 (10 / 3600) = of_int 6405119470038039 * 2 powi (- 9 - 52)"
    by (rule f64I) (simp_all add: power_int_def field_simps)
  then have "1 \<le> 360 * f64 (10 / 3600)" by (simp add: power_int_def field_simps)
  then show "1 \<le> fmul 360 (fdiv (float_of_int 10) 3600)"
    using f64_mono [of 1 "360 * f64 (10 / 3600)"] by (simp add: fmul_def fdiv_def i)
  have "f64 (20 / 3600) = of_int 6405119470038039 * 2 powi (- 8 - 52)"
    by (rule f64I) (simp_all add: power_int_def field_simps)
  then have "1 \<le> 180 * f64 (20 / 3600)" by (simp add: power_int_def field_simps)
  then show "1 \<le> fmul 180 (fdiv (float_of_int 20) 3600)"
    using f64_mono [of 1 "180 * f64 (20 / 3600)"] by (simp add: fmul_def fdiv_def i)
  have r: "f64 (30 / 3600) = of_int 4803839602528529 * 2 powi (- 7 - 52)"
    by (rule f64I) (simp_all add: power_int_def field_simps)
  have "f64 (120 * f64 (30 / 3600)) = of_int (2 ^ 53) * 2 powi (- 1 - 52)"
    unfolding r by (rule f64I) (simp_all add: power_int_def field_simps)
  then show "1 \<le> fmul 120 (fdiv (float_of_int 30) 3600)"
    by (simp add: fmul_def fdiv_def i power_int_def power_divide)
qed


text \<open>The limits of the playground: the hourly rate, the burst, and the seconds one token takes.\<close>

definition playground_limits :: "(int \<times> int \<times> int) list" where
  "playground_limits = [(10, 3, 360), (20, 5, 180), (30, 10, 120)]"

lemma duration_at_least:
  assumes "0 \<le> k" "k \<le> 2 ^ 53" "k * Second \<le> d"
  shows "of_int k \<le> duration_seconds d"
proof -
  have "k * Second div Second \<le> d div Second" using assms by (intro zdiv_mono1) auto
  then have d: "0 \<le> d" "k \<le> d div Second" using assms by auto
  have "float_of_int k \<le> float_of_int (d div Second)" unfolding float_of_int_def using d by (intro f64_mono) simp
  then have k: "of_int k \<le> float_of_int (d div Second)" using assms by (simp add: float_of_int_def f64_of_int)
  have "0 \<le> fdiv (float_of_int (d mod Second)) 1000000000"
    using fdiv_upper float_of_int_upper [of "d mod Second"] by simp
  with k have "f64 (of_int k) \<le> fadd (float_of_int (d div Second)) (fdiv (float_of_int (d mod Second)) 1000000000)"
    unfolding fadd_def by (intro f64_mono) simp
  then show ?thesis using assms d by (simp add: f64_of_int duration_seconds_def)
qed

text \<open>
  A limiter does not starve a client: with each of the playground's limits, a call that
  comes at least as long after the last one as a token takes (360, 180 and 120 seconds) is let
  through, whatever was spent before; the rates do not round below that.
\<close>

lemma rate_refill:
  assumes "(perHour, burst, secs) \<in> set playground_limits"
    and "rl key = Some b" "bucket_ok perHour burst b"
    and "tb_last b + secs * Second \<le> t1" "t1 - tb_last b < 2 ^ 63"
  shows "fst (allow (t0, t1) key perHour burst rl)"
proof -
  let ?d = "t1 - tb_last b"
  have lim: "1 \<le> burst" "0 \<le> perHour" "1 \<le> fmul (of_int secs) (fdiv (float_of_int perHour) 3600)" "0 \<le> secs" "secs \<le> 2 ^ 53"
    using assms(1) rate_values by (auto simp: playground_limits_def)
  have d: "sat64 ?d = ?d" using assms(4,5) lim by (intro sat64_id) (simp add: in_int64_def)
  have "of_int secs \<le> duration_seconds ?d" using assms(4) lim by (intro duration_at_least) auto
  moreover have r: "0 \<le> fdiv (float_of_int perHour) 3600"
    using fdiv_upper float_of_int_upper [OF lim(2)] by simp
  ultimately have "fmul (of_int secs) (fdiv (float_of_int perHour) 3600) \<le>
      fmul (duration_seconds ?d) (fdiv (float_of_int perHour) 3600)" (is "_ \<le> ?e")
    unfolding fmul_def by (intro f64_mono mult_right_mono)
  with lim have e: "1 \<le> ?e" by simp
  have "f64 (of_int 1) \<le> fadd (tb_tokens b) ?e"
    unfolding fadd_def using e assms(3) by (intro f64_mono) (simp add: bucket_ok_def)
  then have "1 \<le> fadd (tb_tokens b) ?e" using f64_of_int [of 1] by simp
  moreover have "tb_rate b = fdiv (float_of_int perHour) 3600" "tb_burst b = of_int burst"
    using assms(3) by (auto simp: bucket_ok_def)
  ultimately show ?thesis
    using assms(2) lim by (auto simp: allow_def Let_def refill_def d)
qed

text \<open>
  The limiter counts a request under what the client writes into the \<^verbatim>\<open>X-Forwarded-For\<close>
  header: a client that sends an address nobody used before is let through, whatever it did
  until then.
\<close>

lemma rate_bypass:
  assumes "header_get headers ''X-Forwarded-For'' = addr" "addr \<noteq> []" "list_all graphic addr" "CHR '','' \<notin> set addr"
    and "rl (prefix @ addr) = None" "1 \<le> burst" "burst \<le> 2 ^ 53" "0 \<le> perHour" "t0 \<le> t1"
  shows "clientIP headers remote = addr
    \<and> fst (allow (t0, t1) (prefix @ clientIP headers remote) perHour burst rl)"
proof
  show ip: "clientIP headers remote = addr"
    using assms(1-4) by (simp add: clientIP_def split_char_none trim_space_graphic)
  have b: "bucket_ok perHour burst (new_bucket t0 perHour burst)" using assms by (intro new_bucket_ok) auto
  let ?e = "fmul (duration_seconds (sat64 (t1 - t0))) (fdiv (float_of_int perHour) 3600)"
  have e: "0 \<le> ?e" using earned_upper(2) [of "t1 - t0" perHour] assms by simp
  have "f64 (of_int burst) \<le> fadd (of_int burst) ?e" unfolding fadd_def using e by (intro f64_mono) simp
  then have "of_int burst \<le> fadd (of_int burst) ?e" using assms by (simp add: f64_of_int)
  then show "fst (allow (t0, t1) (prefix @ clientIP headers remote) perHour burst rl)"
    unfolding ip using assms b
    by (auto simp: allow_def Let_def refill_def new_bucket_def bucket_ok_def float_of_int_def f64_of_int)
qed

section \<open>Stream slots\<close>

text \<open>
  The streams of the server: the limiter, and the addresses of the streams that are open.  A
  stream releases the slot it took.
\<close>

datatype stream_op = Acquire string | Release string

fun stream_step :: "int \<Rightarrow> stream_op \<Rightarrow> streamLimiter \<times> string list \<Rightarrow> streamLimiter \<times> string list" where
  "stream_step limit (Acquire ip) (sl, opened) =
     (case stream_acquire ip limit sl of (ok, sl') \<Rightarrow> (sl', if ok then ip # opened else opened))"
| "stream_step limit (Release ip) (sl, opened) =
     (if ip \<in> set opened then (stream_release ip sl, remove1 ip opened) else (sl, opened))"

definition slots_ok :: "int \<Rightarrow> streamLimiter \<times> string list \<Rightarrow> bool" where
  "slots_ok limit st \<longleftrightarrow>
     (\<forall>ip. active_of (fst st) ip = int (count_list (snd st) ip) \<and> int (count_list (snd st) ip) \<le> limit)"

lemma active_of_release:
  "active_of (stream_release ip sl) j = (if j = ip then max 0 (active_of sl ip - 1) else active_of sl j)"
  by (simp add: stream_release_def active_of_def Let_def)

interpretation slots: inv_machine "stream_step limit" "slots_ok limit" for limit
proof unfold_locales
  fix st :: "streamLimiter \<times> string list" and l
  obtain sl opened where st: "st = (sl, opened)" by (cases st)
  assume ok: "slots_ok limit st"
  have pos: "0 < count_list opened ip" if "ip \<in> set opened" for ip
    using that by (metis count_list_0_iff gr0I)
  show "slots_ok limit (stream_step limit l st)"
  proof (cases l)
    case (Acquire ip)
    with ok st show ?thesis by (auto simp: slots_ok_def stream_acquire_def active_of_def)
  next
    case (Release ip)
    show ?thesis
      unfolding slots_ok_def
    proof (rule allI)
      fix j
      have "active_of sl j = int (count_list opened j)" "int (count_list opened j) \<le> limit"
        using ok st by (simp_all add: slots_ok_def)
      with st Release pos [of ip]
      show "active_of (fst (stream_step limit l st)) j = int (count_list (snd (stream_step limit l st)) j)
          \<and> int (count_list (snd (stream_step limit l st)) j) \<le> limit"
        by (cases "j = ip") (auto simp: active_of_release count_list_remove1)
    qed
  qed
qed

text \<open>
  However streams open and close, an address has at most the limit of open streams, the
  limiter counts exactly those that are open, and it refuses a stream only when the limit is
  reached.
\<close>

lemma streams_bounded:
  assumes "fold (stream_step limit) ops (newStreamLimiter, []) = (sl, opened)" and "0 \<le> limit"
  shows "int (count_list opened ip) \<le> limit \<and> active_of sl ip = int (count_list opened ip)
    \<and> (fst (stream_acquire ip limit sl) \<longleftrightarrow> int (count_list opened ip) < limit)"
proof -
  have "slots_ok limit (newStreamLimiter, [])"
    using assms(2) by (simp add: slots_ok_def newStreamLimiter_def active_of_def)
  from slots.run_inv [OF this, of ops] assms(1) show ?thesis
    by (simp add: slots_ok_def stream_acquire_def)
qed

end
