(* ===== verification/Hub.thy ===== *)
theory Hub
  imports Json "HOL-Library.Sublist"
begin

text \<open>
  \<^verbatim>\<open>internal/playground/hub.go\<close>: the event log of a playground session and its live streams.  A
  channel is its buffer, with the events its reader has taken so far beside it; the channels of
  the process are numbered as they are made.  Sending to a full channel drops the event (the
  \<^verbatim>\<open>select\<close> with a \<^verbatim>\<open>default\<close>).  Every operation runs under the lock of its session.
\<close>

section \<open>State\<close>

record LogEvent =
  le_ts :: string
  le_line :: string
  le_delivery_id :: string
  le_body_preview :: string

record channel =
  ch_buf :: "LogEvent list"
  ch_taken :: "LogEvent list"

record sessionHub =
  destLog :: "LogEvent list"
  simSubs :: "nat \<Rightarrow> channel option"
  destSubs :: "nat \<Rightarrow> channel option"

record hub =
  hub_sessions :: "uuid \<Rightarrow> sessionHub option"
  hub_chans :: nat

definition maxDestLog :: nat where
  "maxDestLog = 50"

definition chan_cap :: nat where
  "chan_cap = 32"

definition NewHub :: hub where
  "NewHub = \<lparr>hub_sessions = (\<lambda>_. None), hub_chans = 0\<rparr>"

definition new_session :: sessionHub where
  "new_session = \<lparr>destLog = [], simSubs = (\<lambda>_. None), destSubs = (\<lambda>_. None)\<rparr>"

definition hub_get :: "uuid \<Rightarrow> hub \<Rightarrow> sessionHub \<times> hub" where
  "hub_get sid h =
     (case hub_sessions h sid of
        Some sh \<Rightarrow> (sh, h)
      | None \<Rightarrow> (new_session, h\<lparr>hub_sessions := (hub_sessions h)(sid \<mapsto> new_session)\<rparr>))"

section \<open>Operations\<close>

definition try_send :: "LogEvent \<Rightarrow> channel \<Rightarrow> channel" where
  "try_send ev ch = (if length (ch_buf ch) < chan_cap then ch\<lparr>ch_buf := ch_buf ch @ [ev]\<rparr> else ch)"

definition subs_of :: "bool \<Rightarrow> sessionHub \<Rightarrow> nat \<Rightarrow> channel option" where
  "subs_of sim sh = (if sim then simSubs sh else destSubs sh)"

definition set_subs :: "bool \<Rightarrow> (nat \<Rightarrow> channel option) \<Rightarrow> sessionHub \<Rightarrow> sessionHub" where
  "set_subs sim f sh = (if sim then sh\<lparr>simSubs := f\<rparr> else sh\<lparr>destSubs := f\<rparr>)"

text \<open>A new stream of deliveries starts with what the log holds.\<close>

definition subscribe_session :: "nat \<Rightarrow> bool \<Rightarrow> sessionHub \<Rightarrow> sessionHub" where
  "subscribe_session c sim sh =
     (let ch = \<lparr>ch_buf = [], ch_taken = []\<rparr>
      in set_subs sim ((subs_of sim sh)(c \<mapsto> (if sim then ch else fold try_send (destLog sh) ch))) sh)"

definition hub_subscribe :: "uuid \<Rightarrow> bool \<Rightarrow> hub \<Rightarrow> nat \<times> hub" where
  "hub_subscribe sid sim h0 =
     (let (sh, h) = hub_get sid h0; c = hub_chans h
      in (c, h\<lparr>hub_sessions := (hub_sessions h)(sid \<mapsto> subscribe_session c sim sh), hub_chans := Suc c\<rparr>))"

definition unsubscribe_session :: "nat \<Rightarrow> bool \<Rightarrow> sessionHub \<Rightarrow> sessionHub" where
  "unsubscribe_session c sim sh = set_subs sim ((subs_of sim sh)(c := None)) sh"

definition publish_session :: "LogEvent \<Rightarrow> bool \<Rightarrow> sessionHub \<Rightarrow> sessionHub" where
  "publish_session ev sim sh0 =
     (let evs = destLog sh0 @ [ev];
          sh = (if sim then sh0
                else sh0\<lparr>destLog := (if maxDestLog < length evs then drop (length evs - maxDestLog) evs else evs)\<rparr>)
      in set_subs sim (\<lambda>c. map_option (try_send ev) (subs_of sim sh c)) sh)"

definition hub_publish :: "uuid \<Rightarrow> LogEvent \<Rightarrow> bool \<Rightarrow> hub \<Rightarrow> hub" where
  "hub_publish sid ev sim h0 =
     (let (sh, h) = hub_get sid h0
      in h\<lparr>hub_sessions := (hub_sessions h)(sid \<mapsto> publish_session ev sim sh)\<rparr>)"

definition PublishSim :: "uuid \<Rightarrow> string \<Rightarrow> string \<Rightarrow> hub \<Rightarrow> hub" where
  "PublishSim sid ts line = hub_publish sid \<lparr>le_ts = ts, le_line = line, le_delivery_id = [], le_body_preview = []\<rparr> True"

definition PublishDest :: "uuid \<Rightarrow> string \<Rightarrow> string \<Rightarrow> string \<Rightarrow> string \<Rightarrow> hub \<Rightarrow> hub" where
  "PublishDest sid ts line deliveryID bodyPreview =
     hub_publish sid \<lparr>le_ts = ts, le_line = line, le_delivery_id = deliveryID, le_body_preview = bodyPreview\<rparr> False"

text \<open>The reader of a stream takes the next event of its channel.\<close>

definition take_session :: "nat \<Rightarrow> bool \<Rightarrow> sessionHub \<Rightarrow> sessionHub" where
  "take_session c sim sh =
     (case subs_of sim sh c of
        Some ch \<Rightarrow>
          (case ch_buf ch of
             [] \<Rightarrow> sh
           | ev # rest \<Rightarrow>
               set_subs sim ((subs_of sim sh)(c \<mapsto> \<lparr>ch_buf = rest, ch_taken = ch_taken ch @ [ev]\<rparr>)) sh)
      | None \<Rightarrow> sh)"

definition FormatSSE :: "string \<Rightarrow> LogEvent \<Rightarrow> string" where
  "FormatSSE eventType ev =
     ''event: '' @ eventType @ [CHR 0x0A] @ ''data: '' @
     marshal_struct ([(''ts'', JStr (le_ts ev)), (''line'', JStr (le_line ev))]
       @ (if le_delivery_id ev = [] then [] else [(''delivery_id'', JStr (le_delivery_id ev))])
       @ (if le_body_preview ev = [] then [] else [(''body_preview'', JStr (le_body_preview ev))]))
     @ [CHR 0x0A, CHR 0x0A]"

section \<open>Streams\<close>

lemma subs_set_subs [simp]:
  "subs_of sim (set_subs sim f sh) = f" "sim' \<noteq> sim \<Longrightarrow> subs_of sim' (set_subs sim f sh) = subs_of sim' sh"
  "destLog (set_subs sim f sh) = destLog sh"
  by (simp_all add: subs_of_def set_subs_def)

lemma publish_log: "destLog (publish_session ev False sh) = lastn maxDestLog (destLog sh @ [ev])"
  by (simp add: publish_session_def Let_def lastn_def)

interpretation dest_log: bounded_log "\<lambda>ev. publish_session ev False" destLog "\<lambda>_ ev. ev" maxDestLog
proof unfold_locales
  show "0 < maxDestLog" by (simp add: maxDestLog_def)
qed (rule publish_log, rule refl)

lemma publish_subs: "subs_of sim (publish_session ev sim' sh) c =
    (if sim = sim' then map_option (try_send ev) (subs_of sim sh c) else subs_of sim sh c)"
  by (auto simp: publish_session_def Let_def) (auto simp: subs_of_def)

text \<open>What a channel gets of the events offered to it while nobody reads: the first that fit.\<close>

lemma fold_try_send:
  "length (ch_buf ch) \<le> chan_cap \<Longrightarrow>
   fold try_send evs ch = ch\<lparr>ch_buf := take chan_cap (ch_buf ch @ evs)\<rparr>"
  by (induction evs arbitrary: ch) (auto simp: try_send_def take_Cons')

datatype hub_op = Publish LogEvent bool | Take nat bool | Subscribe nat bool | Unsubscribe nat bool

fun hub_step :: "hub_op \<Rightarrow> sessionHub \<Rightarrow> sessionHub" where
  "hub_step (Publish ev sim) sh = publish_session ev sim sh"
| "hub_step (Take c sim) sh = take_session c sim sh"
| "hub_step (Subscribe c sim) sh = subscribe_session c sim sh"
| "hub_step (Unsubscribe c sim) sh = unsubscribe_session c sim sh"

text \<open>The events published on one of the two streams by some operations.\<close>

fun published :: "bool \<Rightarrow> hub_op list \<Rightarrow> LogEvent list" where
  "published sim [] = []"
| "published sim (Publish ev sim' # ops) = (if sim' = sim then [ev] else []) @ published sim ops"
| "published sim (_ # ops) = published sim ops"

definition keeps_stream :: "nat \<Rightarrow> hub_op \<Rightarrow> bool" where
  "keeps_stream c op \<longleftrightarrow> (case op of Subscribe d _ \<Rightarrow> d \<noteq> c | Unsubscribe d _ \<Rightarrow> d \<noteq> c | _ \<Rightarrow> True)"

text \<open>Everything a stream has been given: what was taken and what waits.\<close>

definition seen :: "channel \<Rightarrow> LogEvent list" where
  "seen ch = ch_taken ch @ ch_buf ch"

lemma try_send_seen: "seen (try_send ev ch) = (if length (ch_buf ch) < chan_cap then seen ch @ [ev] else seen ch)"
  by (simp add: try_send_def seen_def)

lemma stream_step:
  assumes "subs_of sim sh c = Some ch" "keeps_stream c op" "length (ch_buf ch) \<le> chan_cap"
  shows "\<exists>ch'. subs_of sim (hub_step op sh) c = Some ch' \<and> length (ch_buf ch') \<le> chan_cap
     \<and> (seen ch' = seen ch @ published sim [op]
        \<or> seen ch' = seen ch \<and> published sim [op] \<noteq> [] \<and> length (ch_buf ch) = chan_cap)"
proof (cases op)
  case (Publish ev sim')
  with assms show ?thesis
    by (intro exI [of _ "if sim = sim' then try_send ev ch else ch"])
       (auto simp: publish_subs try_send_seen, auto simp: try_send_def)
next
  case (Take d sim')
  show ?thesis
  proof (cases "sim' = sim \<and> d = c")
    case True
    with assms Take show ?thesis by (cases "ch_buf ch") (auto simp: take_session_def seen_def)
  next
    case False
    then have "subs_of sim (take_session d sim' sh) c = Some ch"
      using assms(1) by (cases "sim' = sim") (auto simp: take_session_def split: option.splits list.splits)
    with Take assms show ?thesis by simp
  qed
next
  case (Subscribe d sim')
  with assms have "subs_of sim (subscribe_session d sim' sh) c = Some ch"
    by (cases "sim' = sim") (auto simp: subscribe_session_def Let_def keeps_stream_def)
  with Subscribe assms show ?thesis by simp
next
  case (Unsubscribe d sim')
  with assms have "subs_of sim (unsubscribe_session d sim' sh) c = Some ch"
    by (cases "sim' = sim") (auto simp: unsubscribe_session_def keeps_stream_def)
  with Unsubscribe assms show ?thesis by simp
qed


lemma published_Cons: "published sim (op # ops) = published sim [op] @ published sim ops"
  by (cases op) simp_all

lemma stream_run:
  assumes "subs_of sim sh c = Some ch" "list_all (keeps_stream c) ops" "length (ch_buf ch) \<le> chan_cap"
  shows "\<exists>ch'. subs_of sim (fold hub_step ops sh) c = Some ch' \<and> length (ch_buf ch') \<le> chan_cap
     \<and> prefix (seen ch) (seen ch') \<and> subseq (seen ch') (seen ch @ published sim ops)
     \<and> (length (seen ch @ published sim ops) \<le> chan_cap \<longrightarrow> seen ch' = seen ch @ published sim ops)"
  using assms
proof (induction ops arbitrary: sh ch)
  case (Cons op ops)
  from Cons.prems obtain ch1 where c1: "subs_of sim (hub_step op sh) c = Some ch1" "length (ch_buf ch1) \<le> chan_cap"
    "seen ch1 = seen ch @ published sim [op]
     \<or> seen ch1 = seen ch \<and> published sim [op] \<noteq> [] \<and> length (ch_buf ch) = chan_cap"
    using stream_step [of sim sh c ch op] by auto
  from Cons.IH [OF c1(1) _ c1(2)] Cons.prems obtain ch' where c': "subs_of sim (fold hub_step ops (hub_step op sh)) c = Some ch'"
    "length (ch_buf ch') \<le> chan_cap" "prefix (seen ch1) (seen ch')" "subseq (seen ch') (seen ch1 @ published sim ops)"
    "length (seen ch1 @ published sim ops) \<le> chan_cap \<longrightarrow> seen ch' = seen ch1 @ published sim ops"
    by auto
  have pre: "prefix (seen ch) (seen ch1)" using c1(3) by auto
  have sub: "subseq (seen ch1 @ published sim ops) (seen ch @ published sim (op # ops))"
    using c1(3) by (auto simp: published_Cons [of sim op ops] intro: list_emb_append_mono list_emb_append2)
  have fits: "seen ch1 = seen ch @ published sim [op]" if "length (seen ch @ published sim (op # ops)) \<le> chan_cap"
    using c1(3) that by (auto simp: seen_def published_Cons [of sim op ops])
  show ?case
    using c' pre sub fits
    by (intro exI [of _ ch']) (auto simp: published_Cons [of sim op ops] intro: prefix_order.trans subseq_order.trans)
qed simp

lemma subscribed:
  "subs_of sim (subscribe_session c sim sh) c =
     Some \<lparr>ch_buf = (if sim then [] else take chan_cap (destLog sh)), ch_taken = []\<rparr>"
  by (simp add: subscribe_session_def Let_def fold_try_send)

text \<open>Within one session: a stream from its opening on.\<close>

lemma session_stream:
  assumes "list_all (keeps_stream c) ops" and "logged = (if sim then [] else destLog sh)"
  shows "\<exists>ch. subs_of sim (fold hub_step ops (subscribe_session c sim sh)) c = Some ch
     \<and> length (ch_buf ch) \<le> 32 \<and> prefix (take 32 logged) (ch_taken ch @ ch_buf ch)
     \<and> subseq (ch_taken ch @ ch_buf ch) (logged @ published sim ops)
     \<and> (length (logged @ published sim ops) \<le> 32 \<longrightarrow> ch_taken ch @ ch_buf ch = logged @ published sim ops)"
proof -
  let ?ch = "\<lparr>ch_buf = take chan_cap logged, ch_taken = []\<rparr>"
  have s: "subs_of sim (subscribe_session c sim sh) c = Some ?ch" using subscribed [of sim c sh] assms(2) by simp
  obtain ch where ch: "subs_of sim (fold hub_step ops (subscribe_session c sim sh)) c = Some ch"
    "length (ch_buf ch) \<le> chan_cap" "prefix (seen ?ch) (seen ch)" "subseq (seen ch) (seen ?ch @ published sim ops)"
    "length (seen ?ch @ published sim ops) \<le> chan_cap \<longrightarrow> seen ch = seen ?ch @ published sim ops"
    using stream_run [OF s assms(1)] by auto
  have "subseq (take chan_cap logged) logged" by (metis append_take_drop_id list_emb_append2 subseq_order.refl prefix_imp_subseq take_is_prefix)
  then have "subseq (seen ?ch @ published sim ops) (logged @ published sim ops)"
    by (simp add: seen_def list_emb_append_mono)
  with ch show ?thesis
    by (intro exI [of _ ch]) (auto simp: seen_def chan_cap_def intro: subseq_order.trans)
qed

section \<open>All sessions\<close>

text \<open>
  The hub driven by the calls of any number of requests and streams, for any sessions.  \<^verbatim>\<open>Next\<close> is
  a turn of a stream's loop, \<^verbatim>\<open>Unsub\<close> the function that \<^verbatim>\<open>subscribe\<close> returns.
\<close>

datatype hub_call = Pub uuid LogEvent bool | Sub uuid bool | Unsub uuid nat bool | Next uuid nat bool

definition on_session :: "uuid \<Rightarrow> (sessionHub \<Rightarrow> sessionHub) \<Rightarrow> hub \<Rightarrow> hub" where
  "on_session sid f h0 = (let (sh, h) = hub_get sid h0 in h\<lparr>hub_sessions := (hub_sessions h)(sid \<mapsto> f sh)\<rparr>)"

fun hub_run :: "hub_call \<Rightarrow> hub \<Rightarrow> hub" where
  "hub_run (Pub sid ev sim) h = hub_publish sid ev sim h"
| "hub_run (Sub sid sim) h = snd (hub_subscribe sid sim h)"
| "hub_run (Unsub sid c sim) h = on_session sid (unsubscribe_session c sim) h"
| "hub_run (Next sid c sim) h = on_session sid (take_session c sim) h"

text \<open>What was published to one stream of one session.\<close>

fun sent_to :: "uuid \<Rightarrow> bool \<Rightarrow> hub_call list \<Rightarrow> LogEvent list" where
  "sent_to sid sim [] = []"
| "sent_to sid sim (Pub sid' ev sim' # calls) = (if sid' = sid \<and> sim' = sim then [ev] else []) @ sent_to sid sim calls"
| "sent_to sid sim (_ # calls) = sent_to sid sim calls"

abbreviation session_of :: "uuid \<Rightarrow> hub \<Rightarrow> sessionHub" where
  "session_of sid h \<equiv> fst (hub_get sid h)"

text \<open>The operations of one session in a run; \<open>n\<close> numbers the channels.\<close>

fun ops_of :: "uuid \<Rightarrow> nat \<Rightarrow> hub_call list \<Rightarrow> hub_op list" where
  "ops_of sid n [] = []"
| "ops_of sid n (Pub s ev sim # calls) = (if s = sid then [Publish ev sim] else []) @ ops_of sid n calls"
| "ops_of sid n (Sub s sim # calls) = (if s = sid then [Subscribe n sim] else []) @ ops_of sid (Suc n) calls"
| "ops_of sid n (Unsub s c sim # calls) = (if s = sid then [Unsubscribe c sim] else []) @ ops_of sid n calls"
| "ops_of sid n (Next s c sim # calls) = (if s = sid then [Take c sim] else []) @ ops_of sid n calls"

lemma session_on [simp]:
  "session_of sid (on_session s f h) = (if s = sid then f (session_of sid h) else session_of sid h)"
  "hub_chans (on_session s f h) = hub_chans h"
  by (auto simp: on_session_def hub_get_def split: option.splits)

lemma hub_publish_on: "hub_publish s ev sim h = on_session s (publish_session ev sim) h"
  by (simp add: hub_publish_def on_session_def)

lemma hub_subscribe_on:
  "hub_subscribe s sim h = (hub_chans h, (on_session s (subscribe_session (hub_chans h) sim) h)\<lparr>hub_chans := Suc (hub_chans h)\<rparr>)"
  by (auto simp: hub_subscribe_def on_session_def hub_get_def Let_def split: option.splits prod.splits)

lemma session_chans [simp]: "session_of sid (h\<lparr>hub_chans := n\<rparr>) = session_of sid h"
  by (simp add: hub_get_def split: option.splits)

text \<open>A session sees its own operations and no others.\<close>

lemma session_run: "session_of sid (fold hub_run calls h) = fold hub_step (ops_of sid (hub_chans h) calls) (session_of sid h)"
proof (induction calls arbitrary: h)
  case (Cons x calls)
  then show ?case by (cases x) (simp_all add: hub_publish_on hub_subscribe_on)
qed simp

lemma sent_published: "published sim (ops_of sid n calls) = sent_to sid sim calls"
  by (induction sid n calls rule: ops_of.induct) auto

lemma kept_open:
  "\<forall>sim. Unsub sid c sim \<notin> set calls \<Longrightarrow> c < n \<Longrightarrow> list_all (keeps_stream c) (ops_of sid n calls)"
  by (induction sid n calls rule: ops_of.induct) (auto simp: keeps_stream_def)

lemma step_log: "destLog (hub_step op sh) = lastn maxDestLog (destLog sh @ published False [op])" if "length (destLog sh) \<le> maxDestLog"
proof (cases op)
  case (Publish ev sim)
  with that show ?thesis by (cases sim) (auto simp: publish_log lastn_all, simp add: publish_session_def Let_def)
next
  case (Take c sim)
  with that show ?thesis by (simp add: take_session_def lastn_all split: option.splits list.splits)
next
  case (Subscribe c sim)
  with that show ?thesis by (simp add: subscribe_session_def Let_def lastn_all)
next
  case (Unsubscribe c sim)
  with that show ?thesis by (simp add: unsubscribe_session_def lastn_all)
qed

lemma run_log:
  "length (destLog sh) \<le> maxDestLog \<Longrightarrow> destLog (fold hub_step ops sh) = lastn maxDestLog (destLog sh @ published False ops)"
proof (induction ops arbitrary: sh)
  case (Cons op ops)
  have "length (destLog (hub_step op sh)) \<le> maxDestLog" using step_log [OF Cons.prems, of op] by (simp add: length_lastn)
  from Cons.IH [OF this] step_log [OF Cons.prems, of op] show ?case
    by (simp add: published_Cons [of False op ops] lastn_lastn_app maxDestLog_def)
qed (simp add: lastn_all)

text \<open>
  C33. A live stream is faithful, whatever is published, opened, read and closed for this and
  for other sessions meanwhile: what it has been given, taken or still waiting, is in order and
  without repetition a selection of the last fifty deliveries published to its own session
  before it opened (on the stream of deliveries) and of what was published to its own session
  and stream since.  It starts with the events replayed from the log, at most 32 of them wait,
  publishing never blocks, and if there were no more than 32 in all, none is missing.
\<close>

theorem stream_faithful:
  assumes "hub_subscribe sid sim (fold hub_run before NewHub) = (c, h)" and "\<forall>sim'. Unsub sid c sim' \<notin> set calls"
    and "logged = (if sim then [] else lastn 50 (sent_to sid False before))"
  shows "\<exists>ch. subs_of sim (session_of sid (fold hub_run calls h)) c = Some ch
     \<and> length (ch_buf ch) \<le> 32 \<and> prefix (take 32 logged) (ch_taken ch @ ch_buf ch)
     \<and> subseq (ch_taken ch @ ch_buf ch) (logged @ sent_to sid sim calls)
     \<and> (length (logged @ sent_to sid sim calls) \<le> 32 \<longrightarrow> ch_taken ch @ ch_buf ch = logged @ sent_to sid sim calls)"
proof -
  let ?h0 = "fold hub_run before NewHub"
  have c: "c = hub_chans ?h0" "hub_chans h = Suc c" and s: "session_of sid h = subscribe_session c sim (session_of sid ?h0)"
    using assms(1) by (auto simp: hub_subscribe_on)
  have "destLog (session_of sid ?h0) = lastn 50 (sent_to sid False before)"
    using run_log [of new_session "ops_of sid 0 before"]
    unfolding session_run by (simp add: sent_published hub_get_def NewHub_def new_session_def maxDestLog_def)
  then have l: "logged = (if sim then [] else destLog (session_of sid ?h0))" using assms(3) by simp
  have "list_all (keeps_stream c) (ops_of sid (hub_chans h) calls)" using assms(2) c by (intro kept_open) auto
  from session_stream [OF this l] show ?thesis unfolding session_run s sent_published .
qed

text \<open>
  A new stream of deliveries replays the oldest entries of the log: of a log that holds more
  than 32 events, as many as fit from its beginning, so that the newest ones are missing.
\<close>

lemma replay_oldest:
  "subs_of False (subscribe_session c False (fold (\<lambda>ev. publish_session ev False) evs new_session)) c
     = Some \<lparr>ch_buf = take 32 (lastn 50 evs), ch_taken = []\<rparr>"
proof -
  have "destLog (fold (\<lambda>ev. publish_session ev False) evs new_session) = lastn 50 evs"
    using dest_log.log_run [of new_session evs] by (simp add: new_session_def maxDestLog_def)
  then show ?thesis by (simp add: subscribed chan_cap_def)
qed

definition demo_line :: "string \<Rightarrow> LogEvent" where
  "demo_line l = \<lparr>le_ts = [], le_line = l, le_delivery_id = [], le_body_preview = []\<rparr>"

theorem stream_faithful_witness:
  "\<exists>c h ch. hub_subscribe 7 False (fold hub_run [Pub 7 (demo_line ''a'') False, Pub 8 (demo_line ''x'') False] NewHub) = (c, h)
      \<and> subs_of False (session_of 7 (fold hub_run [Pub 7 (demo_line ''b'') False, Next 7 c False, Pub 8 (demo_line ''y'') False,
            Pub 7 (demo_line ''c'') True] h)) c = Some ch
      \<and> ch_taken ch @ ch_buf ch = [demo_line ''a'', demo_line ''b'']"
proof -
  let ?before = "[Pub 7 (demo_line ''a'') False, Pub 8 (demo_line ''x'') False]"
  obtain c h where s: "hub_subscribe 7 False (fold hub_run ?before NewHub) = (c, h)" by fastforce
  from stream_faithful [OF s, of "[Pub 7 (demo_line ''b'') False, Next 7 c False, Pub 8 (demo_line ''y'') False, Pub 7 (demo_line ''c'') True]"] s
  show ?thesis by (auto simp: lastn_def)
qed

end
