(* ===== verification/JsonRoundTrip.thy ===== *)
theory JsonRoundTrip
  imports JsonRead
begin

text \<open>
  Reading is the inverse of writing: what \<open>marshal\<close> writes, the automaton of \<open>JsonRead\<close> reads back, up
  to the order of the members of an object (sorted by the writer) and bytes that are not valid
  UTF-8 (replaced by the writer).
\<close>

section \<open>Strings\<close>

text \<open>A string as it comes back: every byte that is not valid UTF-8 is the rune_error character.\<close>

function coerce_utf8 :: "string \<Rightarrow> string" where
  "coerce_utf8 s =
     (if s = [] then []
      else let n = rune_len (map of_char s)
           in if n = 0 then rune_error @ coerce_utf8 (tl s) else take n s @ coerce_utf8 (drop n s))"
  by pat_completeness auto
termination
  by (relation "measure length") (auto simp: neq_Nil_conv)

declare coerce_utf8.simps [simp del]

lemma coerce_utf8_Nil [simp]: "coerce_utf8 [] = []"
  by (simp add: coerce_utf8.simps)

lemma coerce_utf8_valid: "utf8_valid s \<Longrightarrow> coerce_utf8 s = s"
proof (induction s rule: coerce_utf8.induct)
  case (1 s)
  show ?case
  proof (cases "s = []")
    case False
    let ?n = "rune_len (map of_char s)"
    from 1(3) False have n: "?n \<noteq> 0" and v: "utf8_valid (drop ?n s)"
      by (auto simp: utf8_valid_def utf8_valid_bytes.simps [of "map of_char s"] Let_def drop_map split: if_splits)
    from 1(2) [OF False refl n v] n False show ?thesis by (subst coerce_utf8.simps) (simp add: Let_def)
  qed simp
qed

text \<open>How many bytes a rune has depends on these bytes only.\<close>

definition rune3 :: "nat \<Rightarrow> nat \<Rightarrow> nat \<Rightarrow> bool" where
  "rune3 a b c \<longleftrightarrow> (a = 0xE0 \<and> 0xA0 \<le> b \<and> b \<le> 0xBF \<or> a = 0xED \<and> 0x80 \<le> b \<and> b \<le> 0x9F
     \<or> 0xE1 \<le> a \<and> a \<le> 0xEF \<and> a \<noteq> 0xED \<and> cont b) \<and> cont c"

definition rune4 :: "nat \<Rightarrow> nat \<Rightarrow> nat \<Rightarrow> nat \<Rightarrow> bool" where
  "rune4 a b c e \<longleftrightarrow> (a = 0xF0 \<and> 0x90 \<le> b \<and> b \<le> 0xBF \<or> a = 0xF4 \<and> 0x80 \<le> b \<and> b \<le> 0x8F
     \<or> 0xF1 \<le> a \<and> a \<le> 0xF3 \<and> cont b) \<and> cont c \<and> cont e"

lemma rune_len_Cons:
  "rune_len (a # s) =
     (if a < 0x80 then 1
      else case s of [] \<Rightarrow> 0 | b # s' \<Rightarrow>
        if 0xC2 \<le> a \<and> a \<le> 0xDF \<and> cont b then 2
        else case s' of [] \<Rightarrow> 0 | c # s'' \<Rightarrow>
          if rune3 a b c then 3 else case s'' of [] \<Rightarrow> 0 | e # _ \<Rightarrow> if rune4 a b c e then 4 else 0)"
  unfolding rune_len.simps rune3_def rune4_def by (rule refl)

lemma rune_len_take: "rune_len xs \<noteq> 0 \<Longrightarrow> rune_len (take (rune_len xs) xs @ ys) = rune_len xs"
  by (cases xs) (auto simp: rune_len_Cons simp del: rune_len.simps(2) split: list.splits if_splits)

lemma rune_len_le: "rune_len xs \<le> length xs"
  by (cases xs) (auto simp: rune_len_Cons simp del: rune_len.simps(2) split: list.splits)

lemma rune_len_high: "rune_len (a # s) \<noteq> 1 \<Longrightarrow> 0x80 \<le> a"
  by (auto simp: rune_len_Cons simp del: rune_len.simps(2) split: if_splits)

lemma rune_len_one: "rune_len (a # s) = Suc 0 \<longleftrightarrow> a < 0x80"
  by (auto simp: rune_len_Cons simp del: rune_len.simps(2) split: list.splits if_splits)

abbreviation prepend :: "string \<Rightarrow> (string \<times> string) option \<Rightarrow> (string \<times> string) option" where
  "prepend t \<equiv> map_option (\<lambda>(u, q). (t @ u, q))"

lemma getu4_hex4: "n < 0x10000 \<Longrightarrow> getu4 (drop 2 (hex4 n) @ q) = Some n"
proof -
  assume n: "n < 0x10000"
  have "getu4 (drop 2 (hex4 n) @ q) =
      Some (4096 * (n div 4096 mod 16) + 256 * (n div 256 mod 16) + 16 * (n div 16 mod 16) + n mod 16)"
    by (simp add: hex4_def hex_value_digit)
  also have "4096 * (n div 4096 mod 16) + 256 * (n div 256 mod 16) + 16 * (n div 16 mod 16) + n mod 16 = n"
  proof -
    have sum: "4096 * c + 256 * z + 16 * y + x = m" if "m = 16 * a + x" "a = 16 * b + y" "b = 16 * c + z" for m a b c x y z :: nat
      using that by simp
    have "n div 256 = n div 16 div 16" "n div 4096 = n div 16 div 16 div 16" by (simp_all only: div_mult2_eq [symmetric]) simp_all
    moreover have "n div 4096 mod 16 = n div 4096" using n by (simp add: less_mult_imp_div_less)
    ultimately show ?thesis using sum [of n "n div 16" "n mod 16" "n div 16 div 16" "n div 16 mod 16" "n div 16 div 16 div 16"] by simp
  qed
  finally show ?thesis .
qed

lemma scan_hex4:
  assumes "n < 0xD800 \<or> 0xE000 \<le> n" "n < 0x10000"
  shows "scan_string (hex4 n @ q) = prepend (encode_rune n) (scan_string q)"
proof -
  obtain ds where ds: "hex4 n = CHR 0x5C # CHR ''u'' # ds" "length ds = 4" by (simp add: hex4_def)
  then have "getu4 (ds @ q) = Some n" using getu4_hex4 [OF assms(2), of q] by simp
  then have "unescape (CHR ''u'' # ds @ q) = Some (encode_rune n, q)"
    using assms(1) ds(2) by (auto simp: unescape_def surrogate_pair_def)
  then show ?thesis by (simp add: ds(1) scan_string_escape)
qed

lemma scan_plain:
  assumes "c \<noteq> CHR 0x22" "c \<noteq> CHR 0x5C" "0x20 \<le> ordc c" "ordc c < 0x80"
  shows "scan_string (c # q) = prepend [c] (scan_string q)"
proof -
  have "rune_len (map of_char (c # q)) = 1" using assms(4) by (simp add: ordc_def)
  then show ?thesis using assms by (simp add: scan_string_char Let_def del: rune_len.simps)
qed

definition quoted_form :: "char \<Rightarrow> bool" where
  "quoted_form c \<longleftrightarrow>
     (let x = quote_ascii c ! 1 in
      quote_ascii c = [CHR 0x5C, x] \<and> map_of simple_escapes x = Some c \<and> x \<noteq> CHR ''u''
      \<or> quote_ascii c = hex4 (ordc c)
      \<or> quote_ascii c = [c] \<and> c \<noteq> CHR 0x22 \<and> c \<noteq> CHR 0x5C \<and> 0x20 \<le> ordc c)"

lemma scan_ascii:
  assumes "ordc c < 0x80"
  shows "scan_string (quote_ascii c @ q) = prepend [c] (scan_string q)"
proof -
  have "quoted_form c"
  proof (cases "c \<in> {CHR 0x5C, CHR 0x22, CHR 0x08, CHR 0x0C, CHR 0x0A, CHR 0x0D, CHR 0x09}")
    case True
    moreover have "list_all quoted_form [CHR 0x5C, CHR 0x22, CHR 0x08, CHR 0x0C, CHR 0x0A, CHR 0x0D, CHR 0x09]" by code_simp
    ultimately show ?thesis by auto
  next
    case False
    have ne: "ordc c \<noteq> ordc d" if "c \<noteq> d" for d using that by (simp add: ordc_def)
    have cn: "ordc c \<noteq> 0x08" "ordc c \<noteq> 0x0C" "ordc c \<noteq> 0x0A" "ordc c \<noteq> 0x0D" "ordc c \<noteq> 0x09"
      using ne [of "CHR 0x08"] ne [of "CHR 0x0C"] ne [of "CHR 0x0A"] ne [of "CHR 0x0D"] ne [of "CHR 0x09"] False
      by (simp_all add: ordc_def)
    have "quote_ascii c = (if ordc c < 0x20 \<or> c = CHR ''<'' \<or> c = CHR ''>'' \<or> c = CHR ''&'' then hex4 (ordc c) else [c])"
      unfolding quote_ascii_def Let_def ordc_def [symmetric] using False cn by simp
    with False show ?thesis by (simp add: quoted_form_def Let_def)
  qed
  then consider (simple) x where "quote_ascii c = [CHR 0x5C, x]" "map_of simple_escapes x = Some c" "x \<noteq> CHR ''u''"
    | (hex) "quote_ascii c = hex4 (ordc c)"
    | (plain) "quote_ascii c = [c]" "c \<noteq> CHR 0x22" "c \<noteq> CHR 0x5C" "0x20 \<le> ordc c"
    unfolding quoted_form_def Let_def by blast
  then show ?thesis
  proof cases
    case simple
    then show ?thesis by (simp add: scan_string_escape unescape_def)
  next
    case hex
    with assms scan_hex4 [of "ordc c" q] show ?thesis by (simp add: encode_rune_def ordc_def)
  next
    case plain
    with assms show ?thesis by (simp add: scan_plain)
  qed
qed

lemma encode_runes:
  "encode_rune 0xFFFD = rune_error"
  "encode_rune 0x2028 = [CHR 0xE2, CHR 0x80, CHR 0xA8]"
  "encode_rune 0x2029 = [CHR 0xE2, CHR 0x80, CHR 0xA9]"
  by (simp_all add: encode_rune_def rune_error_def char_of_eq_iff take_bit_eq_mod)

text \<open>The three kinds of step of the writer, and of the reader on what it wrote.\<close>

lemma quote_runes_bad:
  "rune_len (map of_char (c # q)) = 0 \<Longrightarrow> quote_runes (c # q) = hex4 0xFFFD @ quote_runes q"
  by (subst quote_runes.simps) (simp only: Let_def list.distinct if_False if_True list.sel simp_thms)

lemma quote_runes_ascii:
  "rune_len (map of_char (c # q)) = 1 \<Longrightarrow> quote_runes (c # q) = quote_ascii c @ quote_runes q"
  by (subst quote_runes.simps) (simp only: Let_def list.distinct if_False if_True list.sel one_neq_zero simp_thms)

lemma quote_runes_rune:
  assumes "n = rune_len (map of_char s)" "n \<noteq> 0" "n \<noteq> 1"
  obtains t where "quote_runes s = t @ quote_runes (drop n s)"
    "\<And>q. scan_string (t @ q) = prepend (take n s) (scan_string q)"
proof -
  have unfold: "quote_runes s =
      (if take 3 s = [CHR 0xE2, CHR 0x80, CHR 0xA8] then hex4 0x2028 @ quote_runes (drop 3 s)
       else if take 3 s = [CHR 0xE2, CHR 0x80, CHR 0xA9] then hex4 0x2029 @ quote_runes (drop 3 s)
       else take n s @ quote_runes (drop n s))"
    using assms by (subst quote_runes.simps) (auto simp: Let_def)
  have three: "n = 3" if "take 3 s = [CHR 0xE2, CHR 0x80, x]" "x = CHR 0xA8 \<or> x = CHR 0xA9" for x
  proof -
    have "take 3 s @ drop 3 s = s" by simp
    then have "s = CHR 0xE2 # CHR 0x80 # x # drop 3 s" by (simp only: that(1) append.simps)
    then obtain z where "s = CHR 0xE2 # CHR 0x80 # x # z" ..
    with that(2) show ?thesis unfolding assms(1) by (auto simp: cont_def)
  qed
  consider (ls) "take 3 s = [CHR 0xE2, CHR 0x80, CHR 0xA8]" | (ps) "take 3 s = [CHR 0xE2, CHR 0x80, CHR 0xA9]"
    | (other) "quote_runes s = take n s @ quote_runes (drop n s)" using unfold by meson
  then show thesis
  proof cases
    case ls
    with that [of "hex4 0x2028"] unfold three scan_hex4 [of "0x2028"] show thesis by (simp add: encode_runes)
  next
    case ps
    with that [of "hex4 0x2029"] unfold three scan_hex4 [of "0x2029"] show thesis by (simp add: encode_runes)
  next
    case other
    obtain c q where s: "s = c # q" using assms by (cases s) auto
    have n: "n \<le> length s" using rune_len_le [of "map of_char s"] by (simp add: assms(1))
    have high: "0x80 \<le> ordc c" using assms rune_len_high [of "of_char c" "map of_char q"] by (simp add: s ordc_def del: rune_len.simps)
    then have c: "c \<noteq> CHR 0x22" "c \<noteq> CHR 0x5C" by (auto simp: ordc_def)
    have "scan_string (take n s @ z) = prepend (take n s) (scan_string z)" for z
    proof -
      obtain q' where q': "take n s @ z = c # q'" using assms(2) by (cases n) (auto simp: s)
      have "rune_len (map of_char (take n s @ z)) = n"
        using rune_len_take [of "map of_char s" "map of_char z"] assms by (simp add: take_map)
      then show ?thesis
        using high n assms(2) unfolding q' by (simp add: scan_string_char [OF c] Let_def del: rune_len.simps) (simp add: q' [symmetric])
    qed
    with other that show thesis by blast
  qed
qed

lemma coerce_utf8_bad: "rune_len (map of_char (c # q)) = 0 \<Longrightarrow> coerce_utf8 (c # q) = rune_error @ coerce_utf8 q"
  by (subst coerce_utf8.simps) (simp only: Let_def list.distinct if_False if_True list.sel simp_thms)

lemma coerce_utf8_rune:
  "rune_len (map of_char s) \<noteq> 0 \<Longrightarrow> coerce_utf8 s = take (rune_len (map of_char s)) s @ coerce_utf8 (drop (rune_len (map of_char s)) s)"
  by (subst coerce_utf8.simps) (auto simp: Let_def)

lemma scan_quote: "scan_string (quote_runes s @ CHR 0x22 # r) = Some (coerce_utf8 s, r)"
proof (induction "length s" arbitrary: s rule: less_induct)
  case less
  let ?n = "rune_len (map of_char s)"
  show ?case
  proof (cases s)
    case Nil
    then show ?thesis by (simp add: quote_runes.simps)
  next
    case (Cons c q)
    then have IH: "scan_string (quote_runes q @ CHR 0x22 # r) = Some (coerce_utf8 q, r)" using less by simp
    consider (bad) "?n = 0" | (ascii) "?n = 1" | (rune) "?n \<noteq> 0" "?n \<noteq> 1" by blast
    then show ?thesis
    proof cases
      case bad
      then show ?thesis
        using IH scan_hex4 [of "0xFFFD" "quote_runes q @ CHR 0x22 # r"]
        by (simp add: Cons quote_runes_bad coerce_utf8_bad encode_runes del: rune_len.simps)
    next
      case ascii
      then have "ordc c < 0x80" by (simp add: Cons ordc_def rune_len_one del: rune_len.simps)
      then show ?thesis
        using IH ascii coerce_utf8_rune [of s] scan_ascii [of c "quote_runes q @ CHR 0x22 # r"]
        by (simp add: Cons quote_runes_ascii del: rune_len.simps)
    next
      case rune
      then obtain t where "quote_runes s = t @ quote_runes (drop ?n s)"
        "\<And>q. scan_string (t @ q) = prepend (take ?n s) (scan_string q)" using quote_runes_rune [OF refl rune] by blast
      moreover have "scan_string (quote_runes (drop ?n s) @ CHR 0x22 # r) = Some (coerce_utf8 (drop ?n s), r)"
        using less rune(1) by (simp add: Cons del: rune_len.simps)
      ultimately show ?thesis using coerce_utf8_rune [OF rune(1)] by simp
    qed
  qed
qed

section \<open>Values\<close>

text \<open>The tokens that \<open>marshal\<close> writes.\<close>

lemma next_token_punct [simp]:
  "next_token (CHR ''{'' # r) = Some (OpenObj, r)" "next_token (CHR ''}'' # r) = Some (CloseObj, r)"
  "next_token (CHR ''['' # r) = Some (OpenArr, r)" "next_token (CHR '']'' # r) = Some (CloseArr, r)"
  "next_token (CHR '','' # r) = Some (Comma, r)" "next_token (CHR '':'' # r) = Some (Colon, r)"
  by (simp_all add: next_token_def is_space_def)

lemma next_token_words [simp]:
  "next_token (''null'' @ r) = Some (Literal VNull, r)"
  "next_token (''true'' @ r) = Some (Literal (VBool True), r)"
  "next_token (''false'' @ r) = Some (Literal (VBool False), r)"
  by (simp_all add: next_token_def is_space_def has_prefix_def)

lemma next_token_quote: "next_token (quote s @ r) = Some (Literal (VStr (coerce_utf8 s)), r)"
  by (simp add: next_token_def is_space_def quote_def scan_quote)

text \<open>A number ends where no digit, point or exponent follows.\<close>

definition ends_number :: "string \<Rightarrow> bool" where
  "ends_number r \<longleftrightarrow> (case r of [] \<Rightarrow> True | c # _ \<Rightarrow> \<not> is_digit c \<and> c \<noteq> CHR ''.'' \<and> c \<noteq> CHR ''e'' \<and> c \<noteq> CHR ''E'')"

lemma nat_digits_leading: "hd (nat_digits n) = CHR ''0'' \<Longrightarrow> n = 0"
proof (induction n rule: nat_digits.induct)
  case (1 n)
  show ?case
  proof (cases "n < 10")
    case True
    with 1(2) show ?thesis by (simp add: nat_digits.simps [of n] char_of_eq_iff take_bit_eq_mod)
  next
    case False
    with 1(2) have "hd (nat_digits (n div 10)) = CHR ''0''" by (simp add: nat_digits.simps [of n])
    from 1(1) [OF False this] False show ?thesis by simp
  qed
qed

lemma nat_digits_digit: "list_all is_digit (nat_digits n)"
  using nat_digits_chars by (auto simp: list_all_iff is_digit_def ordc_def)

lemma takeWhile_digits:
  assumes "list_all is_digit d" "ends_number r"
  shows "takeWhile is_digit (d @ r) = d" "dropWhile is_digit (d @ r) = r"
  using assms by (induction d) (auto simp: ends_number_def split: list.splits)

lemma int_part_digits: "ends_number r \<Longrightarrow> int_part (nat_digits n @ r) = Some (nat_digits n, r)"
proof -
  assume r: "ends_number r"
  obtain c d where d: "nat_digits n = c # d" by (cases "nat_digits n") auto
  show ?thesis
  proof (cases "n = 0")
    case True
    then show ?thesis by (simp add: nat_digits.simps int_part_def char_of_eq_iff take_bit_eq_mod)
  next
    case False
    then have "c \<noteq> CHR ''0''" "is_digit c" using nat_digits_leading [of n] nat_digits_digit [of n] by (auto simp: d)
    then show ?thesis
      using takeWhile_digits [OF nat_digits_digit [of n] r] by (simp add: int_part_def d)
  qed
qed

lemma ends_number_rest: "ends_number r \<Longrightarrow> frac_part r = Some ([], r) \<and> exp_part r = Some ([], r)"
  by (auto simp: ends_number_def frac_part_def exp_part_def split: list.splits)

lemma scan_number_itoa: "ends_number r \<Longrightarrow> scan_number (itoa n @ r) = Some (itoa n, r)"
proof -
  assume r: "ends_number r"
  have "\<not> has_prefix (nat_digits m @ q) ''-''" for m q
    using nat_digits_no_char [of "CHR ''-''" m] by (cases "nat_digits m") (auto simp: has_prefix_def)
  moreover have "has_prefix (CHR ''-'' # q) ''-''" for q by (simp add: has_prefix_def)
  ultimately show ?thesis
    using int_part_digits [OF r] ends_number_rest [OF r] by (simp add: itoa_def scan_number_def)
qed

lemma itoa_head: "\<exists>c s. itoa n = c # s \<and> (c = CHR ''-'' \<or> is_digit c)"
proof -
  have "\<exists>c s. nat_digits m = c # s \<and> is_digit c" for m
    using nat_digits_digit [of m] by (cases "nat_digits m") auto
  then obtain c s where "nat_digits (nat n) = c # s" "is_digit c" by blast
  then show ?thesis by (simp add: itoa_def)
qed

lemma next_token_itoa: "ends_number r \<Longrightarrow> next_token (itoa n @ r) = Some (Literal (VNum (itoa n)), r)"
proof -
  assume r: "ends_number r"
  obtain c s where c: "itoa n = c # s" "c = CHR ''-'' \<or> is_digit c" using itoa_head by blast
  then have "\<not> is_space c" "c \<notin> set ''{}[],:ntf'' \<union> {CHR 0x22}" by (auto simp: is_space_def is_digit_def ordc_def)
  then have "next_token (c # s @ r) = map_option (\<lambda>(t, q). (Literal (VNum t), q)) (scan_number (c # s @ r))"
    by (simp add: next_token_def has_prefix_def)
  with scan_number_itoa [OF r, of n] show ?thesis by (simp add: c)
qed


text \<open>The value that comes back, and how deep it is nested.\<close>

fun reading :: "json \<Rightarrow> jval" where
  "reading JNull = VNull"
| "reading (JBool b) = VBool b"
| "reading (JNum n) = VNum (itoa n)"
| "reading (JStr s) = VStr (coerce_utf8 s)"
| "reading (JArr xs) = VArr (map reading xs)"
| "reading (JObj kvs) = VObj (map (\<lambda>(k, v). (coerce_utf8 k, v)) (sort_key fst (map (\<lambda>(k, v). (k, reading v)) kvs)))"

fun json_depth :: "json \<Rightarrow> nat" where
  "json_depth (JArr xs) = Suc (Max (set (0 # map json_depth xs)))"
| "json_depth (JObj kvs) = Suc (Max (set (0 # map (\<lambda>(k, v). json_depth v) kvs)))"
| "json_depth _ = 0"

lemma sort_key_map_snd: "sort_key fst (map (\<lambda>(k, v). (k, f v)) kvs) = map (\<lambda>(k, v). (k, f v)) (sort_key fst kvs)"
proof (induction kvs)
  case (Cons x kvs)
  have "insort_key fst (case x of (k, v) \<Rightarrow> (k, f v)) (map (\<lambda>(k, v). (k, f v)) ys) = map (\<lambda>(k, v). (k, f v)) (insort_key fst x ys)" for ys
    by (induction ys) (auto split: prod.splits)
  with Cons show ?case by simp
qed simp

definition reads_back :: "json \<Rightarrow> bool" where
  "reads_back j \<longleftrightarrow> (\<forall>st r. length st + json_depth j \<le> maxNestingDepth \<longrightarrow> ends_number r \<longrightarrow>
     json_parse AtValue st (marshal j @ r) = json_parse (After (reading j)) st r)"

lemma parse_elements:
  assumes "\<forall>x \<in> set xs. reads_back x \<and> Suc (length st) + json_depth x \<le> maxNestingDepth"
  shows "json_parse (After v) (InArr vs # st) (concat (map (\<lambda>y. '','' @ y) (map marshal xs)) @ '']'' @ r) =
    json_parse (After (VArr (rev vs @ v # map reading xs))) st r"
  using assms
proof (induction xs arbitrary: v vs)
  case Nil
  show ?case by (rule parse_step [of _ CloseArr]) simp_all
next
  case (Cons x xs)
  let ?z = "concat (map (\<lambda>y. '','' @ y) (map marshal xs)) @ '']'' @ r"
  have e: "ends_number ?z" by (cases xs) (auto simp: ends_number_def is_digit_def ordc_def)
  have "json_parse (After v) (InArr vs # st) ('','' @ marshal x @ ?z) = json_parse AtValue (InArr (v # vs) # st) (marshal x @ ?z)"
    by (rule parse_step [of _ Comma]) simp_all
  also have "\<dots> = json_parse (After (reading x)) (InArr (v # vs) # st) ?z"
    using Cons.prems e by (auto simp: reads_back_def)
  also have "\<dots> = json_parse (After (VArr (rev (v # vs) @ reading x # map reading xs))) st r"
    using Cons by simp
  finally show ?case by simp
qed


text \<open>After an opening bracket a value may begin as anywhere else.\<close>

lemma marshal_token: "ends_number r \<Longrightarrow> \<exists>t q. next_token (marshal x @ r) = Some (t, q) \<and> t \<noteq> CloseArr"
  using next_token_itoa next_token_quote by (cases x) (auto simp del: append.simps simp: append.simps(2) [of "CHR ''{''"] append.simps(2) [of "CHR ''[''"])

lemma parse_first:
  assumes "ends_number r"
  shows "json_parse AtFirst st (marshal x @ r) = json_parse AtValue st (marshal x @ r)"
proof -
  obtain t q where "next_token (marshal x @ r) = Some (t, q)" "t \<noteq> CloseArr" using marshal_token [OF assms] by blast
  then show ?thesis by (subst (1 2) json_parse.simps) simp
qed

lemma reads_back_array:
  assumes "\<forall>x \<in> set xs. reads_back x"
  shows "reads_back (JArr xs)"
  unfolding reads_back_def
proof (intro allI impI)
  fix st :: "json_frame list" and r assume d: "length st + json_depth (JArr xs) \<le> maxNestingDepth" and r: "ends_number r"
  have open_arr: "json_parse AtValue st (''['' @ q) = json_parse AtFirst (InArr [] # st) q" for q
    by (rule parse_step [of _ OpenArr]) (use d in \<open>simp_all add: open_frame_def\<close>)
  show "json_parse AtValue st (marshal (JArr xs) @ r) = json_parse (After (reading (JArr xs))) st r"
  proof (cases xs)
    case Nil
    have "json_parse AtFirst (InArr [] # st) ('']'' @ r) = json_parse (After (VArr [])) st r"
      by (rule parse_step [of _ CloseArr]) simp_all
    then show ?thesis using open_arr by (simp add: Nil)
  next
    case (Cons x ys)
    have le: "Suc (length st) + json_depth y \<le> maxNestingDepth" if "y \<in> set xs" for y
    proof -
      have "json_depth y \<le> Max (set (0 # map json_depth xs))" using that by (intro Max_ge) auto
      with d show ?thesis by simp
    qed
    let ?z = "concat (map (\<lambda>y. '','' @ y) (map marshal ys)) @ '']'' @ r"
    have e: "ends_number ?z" by (cases ys) (auto simp: ends_number_def is_digit_def ordc_def)
    have "json_parse AtValue st (marshal (JArr xs) @ r) = json_parse AtValue (InArr [] # st) (marshal x @ ?z)"
      using open_arr [of "marshal x @ ?z"] parse_first [OF e] by (simp add: Cons)
    also have "\<dots> = json_parse (After (reading x)) (InArr [] # st) ?z"
      using assms e le [of x] by (auto simp: reads_back_def Cons)
    also have "\<dots> = json_parse (After (VArr (rev [] @ reading x # map reading ys))) st r"
      using assms le by (intro parse_elements) (auto simp: Cons)
    finally show ?thesis by (simp add: Cons)
  qed
qed

text \<open>A member of an object: its key, a colon and its value.\<close>

definition member_text :: "string \<times> json \<Rightarrow> string" where
  "member_text m = quote (fst m) @ '':'' @ marshal (snd m)"

lemma parse_member:
  assumes "e = AtKey \<or> e = AtFirstKey" "reads_back v" "Suc (length st) + json_depth v \<le> maxNestingDepth" "ends_number r"
  shows "json_parse e (InObj ms # st) (member_text (k, v) @ r) = json_parse (After (reading v)) (InMember ms (coerce_utf8 k) # st) r"
proof -
  have "json_parse e (InObj ms # st) (quote k @ '':'' @ marshal v @ r) = json_parse (AfterKey (coerce_utf8 k)) (InObj ms # st) ('':'' @ marshal v @ r)"
    using assms(1) by (intro parse_step [OF next_token_quote]) auto
  also have "\<dots> = json_parse AtValue (InMember ms (coerce_utf8 k) # st) (marshal v @ r)"
    by (rule parse_step [of _ Colon]) simp_all
  also have "\<dots> = json_parse (After (reading v)) (InMember ms (coerce_utf8 k) # st) r"
    using assms(2-4) by (auto simp: reads_back_def)
  finally show ?thesis by (simp add: member_text_def)
qed

abbreviation read_members :: "(string \<times> json) list \<Rightarrow> (string \<times> jval) list" where
  "read_members kvs \<equiv> map (\<lambda>(k, v). (coerce_utf8 k, reading v)) kvs"

lemma parse_members:
  assumes "\<forall>(k, v) \<in> set kvs. reads_back v \<and> Suc (length st) + json_depth v \<le> maxNestingDepth"
  shows "json_parse (After w) (InMember ms k # st) (concat (map (\<lambda>y. '','' @ y) (map member_text kvs)) @ ''}'' @ r) =
    json_parse (After (VObj (rev ms @ (k, w) # read_members kvs))) st r"
  using assms
proof (induction kvs arbitrary: k w ms)
  case Nil
  show ?case by (rule parse_step [of _ CloseObj]) simp_all
next
  case (Cons m kvs)
  obtain k' v where m: "m = (k', v)" by fastforce
  let ?z = "concat (map (\<lambda>y. '','' @ y) (map member_text kvs)) @ ''}'' @ r"
  have e: "ends_number ?z" by (cases kvs) (auto simp: ends_number_def is_digit_def ordc_def)
  have "json_parse (After w) (InMember ms k # st) ('','' @ member_text m @ ?z) = json_parse AtKey (InObj ((k, w) # ms) # st) (member_text m @ ?z)"
    by (rule parse_step [of _ Comma]) simp_all
  also have "\<dots> = json_parse (After (reading v)) (InMember ((k, w) # ms) (coerce_utf8 k') # st) ?z"
    using Cons.prems e by (auto simp: m intro!: parse_member)
  also have "\<dots> = json_parse (After (VObj (rev ((k, w) # ms) @ (coerce_utf8 k', reading v) # read_members kvs))) st r"
    using Cons by simp
  finally show ?case by (simp add: m)
qed

text \<open>The text of an object, whatever the order of its read_members.\<close>

lemma parse_object:
  assumes "\<forall>(k, v) \<in> set kvs. reads_back v \<and> Suc (length st) + json_depth v \<le> maxNestingDepth" "length st < maxNestingDepth"
  shows "json_parse AtValue st (''{'' @ join '','' (map member_text kvs) @ ''}'' @ r) = json_parse (After (VObj (read_members kvs))) st r"
proof -
  have open_obj: "json_parse AtValue st (''{'' @ q) = json_parse AtFirstKey (InObj [] # st) q" for q
    by (rule parse_step [of _ OpenObj]) (use assms(2) in \<open>simp_all add: open_frame_def\<close>)
  show ?thesis
  proof (cases kvs)
    case Nil
    have "json_parse AtFirstKey (InObj [] # st) (''}'' @ r) = json_parse (After (VObj [])) st r"
      by (rule parse_step [of _ CloseObj]) simp_all
    then show ?thesis using open_obj by (simp add: Nil)
  next
    case (Cons m ms)
    obtain k v where m: "m = (k, v)" by fastforce
    let ?z = "concat (map (\<lambda>y. '','' @ y) (map member_text ms)) @ ''}'' @ r"
    have e: "ends_number ?z" by (cases ms) (auto simp: ends_number_def is_digit_def ordc_def)
    have "json_parse AtFirstKey (InObj [] # st) (member_text m @ ?z) = json_parse (After (reading v)) (InMember [] (coerce_utf8 k) # st) ?z"
      using assms(1) e by (auto simp: m Cons intro!: parse_member)
    also have "\<dots> = json_parse (After (VObj (rev [] @ (coerce_utf8 k, reading v) # read_members ms))) st r"
      using assms(1) by (intro parse_members) (auto simp: Cons)
    finally show ?thesis using open_obj [of "member_text m @ ?z"] by (simp add: Cons m)
  qed
qed

lemma marshal_object: "marshal (JObj kvs) = ''{'' @ join '','' (map member_text (sort_key fst kvs)) @ ''}''"
  unfolding marshal.simps sort_key_map_snd by (simp add: member_text_def [abs_def] split_beta comp_def)

lemma reading_object: "reading (JObj kvs) = VObj (read_members (sort_key fst kvs))"
  unfolding reading.simps sort_key_map_snd by (simp add: split_beta comp_def)

lemma reads_back_object:
  assumes "\<forall>(k, v) \<in> set kvs. reads_back v"
  shows "reads_back (JObj kvs)"
  unfolding reads_back_def
proof (intro allI impI)
  fix st :: "json_frame list" and r assume d: "length st + json_depth (JObj kvs) \<le> maxNestingDepth" and "ends_number r"
  have "Suc (length st) + json_depth v \<le> maxNestingDepth" if "(k, v) \<in> set kvs" for k v
  proof -
    have "json_depth v \<le> Max (set (0 # map (\<lambda>(k, v). json_depth v) kvs))" using that by (intro Max_ge) force+
    with d show ?thesis by simp
  qed
  then have "json_parse AtValue st (''{'' @ join '','' (map member_text (sort_key fst kvs)) @ ''}'' @ r) =
      json_parse (After (VObj (read_members (sort_key fst kvs)))) st r"
    using assms d by (intro parse_object) (auto simp: set_sort)
  then show "json_parse AtValue st (marshal (JObj kvs) @ r) = json_parse (After (reading (JObj kvs))) st r"
    unfolding marshal_object reading_object by simp
qed

lemma reads_back_all: "reads_back j"
proof (induction j)
  case (JNum n)
  show ?case
    unfolding reads_back_def by (auto intro!: parse_step [OF next_token_itoa])
next
  case (JStr s)
  show ?case
    unfolding reads_back_def by (auto intro!: parse_step [OF next_token_quote])
next
  case (JArr xs)
  then show ?case by (simp add: reads_back_array)
next
  case (JObj kvs)
  then show ?case by (intro reads_back_object) (auto simp: snds.simps)
next
  case (JBool b)
  show ?case
    unfolding reads_back_def
    by (cases b) (auto intro!: parse_step [of _ "Literal (VBool b)"] simp del: append.simps)
next
  case JNull
  show ?case
    unfolding reads_back_def by (auto intro!: parse_step [of _ "Literal VNull"] simp del: append.simps)
qed

lemma read_marshal: "json_depth j \<le> maxNestingDepth \<Longrightarrow> read_value (marshal j) = Some (reading j)"
  using reads_back_all [of j] unfolding reads_back_def read_value_def
  by (elim allE [of _ "[]"]) (simp add: ends_number_def)

text \<open>A struct is written in the order of its fields.\<close>

lemma marshal_struct_object: "marshal_struct kvs = ''{'' @ join '','' (map member_text kvs) @ ''}''"
  by (simp add: marshal_struct_def member_text_def [abs_def] split_def)

lemma read_marshal_struct:
  assumes "\<forall>(k, v) \<in> set kvs. json_depth v < maxNestingDepth"
  shows "read_value (marshal_struct kvs) = Some (VObj (read_members kvs))"
proof -
  have "json_parse AtValue [] (''{'' @ join '','' (map member_text kvs) @ ''}'' @ []) = json_parse (After (VObj (read_members kvs))) [] []"
    using assms reads_back_all by (intro parse_object) (auto simp: maxNestingDepth_def)
  then show ?thesis by (simp add: read_value_def marshal_struct_object)
qed

section \<open>Structs\<close>

text \<open>Only the members whose name is that of a field matter.\<close>

definition known :: "string list \<Rightarrow> string \<Rightarrow> bool" where
  "known names k \<longleftrightarrow> list_ex (\<lambda>n. fold_name n = fold_name k) names"

lemma find_field_None: "find_field fs k = None \<longleftrightarrow> \<not> known (map fst fs) k"
  by (induction fs) (auto simp: find_field_def known_def split: option.splits if_splits)

lemma store_member_unknown: "\<not> known (map fst fs) k \<Longrightarrow> store_member fs (k, v) r = r"
  by (simp add: store_member_def find_field_None [THEN iffD2] split: option.splits)

lemma fold_known: "fold (store_member fs) ms r = fold (store_member fs) (filter (\<lambda>m. known (map fst fs) (fst m)) ms) r"
  by (induction ms arbitrary: r) (auto simp: store_member_unknown)

text \<open>What decoding an object into a struct does, whatever else the object holds.\<close>

lemma Unmarshal_object:
  assumes "json_depth (JObj kvs) \<le> maxNestingDepth"
  shows "Unmarshal fs zero (marshal (JObj kvs)) =
    fold (store_member fs) (read_members (sort_key fst (filter (\<lambda>m. known (map fst fs) (coerce_utf8 (fst m))) kvs))) (Some zero)"
proof -
  have "filter (\<lambda>m. known ns (fst m)) (read_members (sort_key fst kvs)) =
      read_members (sort_key fst (filter (\<lambda>m. known ns (coerce_utf8 (fst m))) kvs))" for ns
    by (simp add: filter_map filter_sort split_def comp_def)
  then show ?thesis
    using fold_known [of fs "read_members (sort_key fst kvs)" "Some zero"]
    by (simp add: Unmarshal_def read_marshal [OF assms] reading_object del: marshal.simps reading.simps)
qed

end
