(* ===== verification/Simulator.thy ===== *)
theory Simulator
  imports SecurityClaims JsonRoundTrip
begin

text \<open>
  \<^verbatim>\<open>internal/playground/simulate.go\<close>: the signed requests the playground sends to its own
  ingestion endpoint.  Parameters: the clock in seconds (\<open>created\<close> and \<open>ts\<close> are the two times a
  Stripe payload reads it), the random bytes of an event id, the Unicode normalisation, and
  \<open>post\<close>, the HTTP exchange, over a state of its own.
\<close>

section \<open>Signed requests\<close>

text \<open>\<^verbatim>\<open>Header.Set\<close> of each entry, under the canonical name.\<close>

definition set_headers :: "(string \<times> string) list \<Rightarrow> header" where
  "set_headers hs = map (\<lambda>(k, v). (canonical_from True k, [v])) hs"

definition stripePayload :: "int \<Rightarrow> int \<Rightarrow> string \<Rightarrow> string \<Rightarrow> bytes \<times> header" where
  "stripePayload created ts secret eventID =
     (let body = marshal (JObj
            [(''id'', JStr eventID), (''object'', JStr ''event''), (''type'', JStr ''invoice.payment_failed''),
             (''livemode'', JBool False), (''created'', JNum created),
             (''data'', JObj [(''object'', JObj [(''id'', JStr ''in_sim_test''), (''object'', JStr ''invoice''),
                (''amount_due'', JNum 4900), (''currency'', JStr ''usd'')])])]);
          payload = itoa ts @ ''.'' @ body;
          sig = ''t='' @ itoa ts @ '',v1='' @ hex_encode (hmac_sha256 secret payload)
      in (body, set_headers [(''Content-Type'', ''application/json''), (''Stripe-Signature'', sig),
                             (''User-Agent'', ''Tuma-Playground/1.0'')]))"

definition githubPayload :: "string \<Rightarrow> string \<Rightarrow> bytes \<times> header" where
  "githubPayload secret deliveryID =
     (let body = marshal (JObj
            [(''action'', JStr ''opened''),
             (''issue'', JObj [(''id'', JNum 1), (''title'', JStr ''Playground test issue'')]),
             (''repository'', JObj [(''full_name'', JStr ''koto7/tuma-playground'')])])
      in (body, set_headers [(''Content-Type'', ''application/json''),
                             (''X-Hub-Signature-256'', ''sha256='' @ hex_encode (hmac_sha256 secret body)),
                             (''X-GitHub-Delivery'', deliveryID), (''X-GitHub-Event'', ''issues''),
                             (''User-Agent'', ''Tuma-Playground/1.0'')]))"

definition easypostPayload :: "(string \<Rightarrow> string) \<Rightarrow> string \<Rightarrow> string \<Rightarrow> bytes \<times> header" where
  "easypostPayload nfkd secret eventID =
     (let body = marshal (JObj
            [(''id'', JStr eventID), (''object'', JStr ''Event''), (''description'', JStr ''tracker.updated''),
             (''result'', JObj [(''id'', JStr ''trk_sim_test''), (''object'', JStr ''Tracker''), (''status'', JStr ''in_transit'')])])
      in (body, set_headers [(''Content-Type'', ''application/json''),
                             (''X-Hmac-Signature'', ''hmac-sha256-hex='' @ hex_encode (hmac_sha256 (nfkd secret) body)),
                             (''User-Agent'', ''Tuma-Playground/1.0'')]))"

definition internalPayload :: "int \<Rightarrow> string \<Rightarrow> bytes \<times> header" where
  "internalPayload ts eventID =
     (let body = marshal (JObj [(''id'', JStr eventID), (''type'', JStr ''playground.test''), (''ts'', JNum ts)])
      in (body, set_headers [(''Content-Type'', ''application/json''), (''X-Tuma-Event-Id'', eventID),
                             (''User-Agent'', ''Tuma-Playground/1.0'')]))"

definition buildSignedRequest ::
  "(string \<Rightarrow> string) \<Rightarrow> int \<Rightarrow> int \<Rightarrow> string \<Rightarrow> string \<Rightarrow> string \<Rightarrow> (bytes \<times> header) result" where
  "buildSignedRequest nfkd created ts provider secret eventID =
     (if provider = ''stripe'' then Inr (stripePayload created ts secret eventID)
      else if provider = ''github'' then Inr (githubPayload secret eventID)
      else if provider = ''easypost'' then Inr (easypostPayload nfkd secret eventID)
      else if provider = ''internal'' then Inr (internalPayload ts eventID)
      else Inl (ErrText (''unknown provider: '' @ provider)))"

definition randomEventID :: "bytes \<Rightarrow> string \<Rightarrow> string" where
  "randomEventID b provider =
     (let p = (if provider = ''github'' then ''gh'' else if provider = ''easypost'' then ''evt''
               else if provider = ''internal'' then ''int'' else ''evt'')
      in p @ ''_sim_'' @ hex_encode b)"

definition BodyPreview :: "bytes \<Rightarrow> string" where
  "BodyPreview body =
     (let s = trim_space body in if 120 < length s then take 120 s @ [CHR 0xE2, CHR 0x80, CHR 0xA6] else s)"

section \<open>Sending\<close>

record SimulateResult =
  sr_status :: int
  sr_body :: string
  sr_event_id :: string

record sim_env =
  sim_nfkd :: "string \<Rightarrow> string"
  sim_created :: "nat \<Rightarrow> int"
  sim_ts :: "nat \<Rightarrow> int"
  sim_random :: "nat \<Rightarrow> bytes"

definition sim_event_id :: "sim_env \<Rightarrow> string \<Rightarrow> int \<Rightarrow> string \<Rightarrow> nat \<Rightarrow> string" where
  "sim_event_id S provider count dup i =
     (if dup = [] then randomEventID (sim_random S i) provider
      else if 1 < count then dup @ ''_'' @ itoa (int i + 1)
      else dup)"

text \<open>The loop of \<^verbatim>\<open>SendEvents\<close> from event \<open>i\<close> on: the results so far, and the error that ends it.\<close>

function send_loop ::
  "sim_env \<Rightarrow> (string \<Rightarrow> bytes \<Rightarrow> header \<Rightarrow> 's \<Rightarrow> (int \<times> string) result \<times> 's) \<Rightarrow> string \<Rightarrow> string \<Rightarrow> string \<Rightarrow> int \<Rightarrow> string
   \<Rightarrow> nat \<Rightarrow> SimulateResult list \<Rightarrow> 's \<Rightarrow> (SimulateResult list \<times> go_error option) \<times> 's" where
  "send_loop S post url secret provider count dup i out s =
     (if count \<le> int i then ((out, None), s)
      else let eventID = sim_event_id S provider count dup i
      in case buildSignedRequest (sim_nfkd S) (sim_created S i) (sim_ts S i) provider secret eventID of
           Inl e \<Rightarrow> ((out, Some e), s)
         | Inr (body, headers) \<Rightarrow>
             (case post url body headers s of
                (Inl e, s') \<Rightarrow> ((out, Some e), s')
              | (Inr (status, resp), s') \<Rightarrow>
                  send_loop S post url secret provider count dup (Suc i)
                    (out @ [\<lparr>sr_status = status, sr_body = resp, sr_event_id = eventID\<rparr>]) s'))"
  by pat_completeness auto
termination
  by (relation "measure (\<lambda>(S, post, url, secret, provider, count, dup, i, out, s). nat (count - int i))") auto

declare send_loop.simps [simp del]

definition SendEvents ::
  "sim_env \<Rightarrow> (string \<Rightarrow> bytes \<Rightarrow> header \<Rightarrow> 's \<Rightarrow> (int \<times> string) result \<times> 's) \<Rightarrow> string \<Rightarrow> string \<Rightarrow> string \<Rightarrow> string \<Rightarrow> int \<Rightarrow> string
   \<Rightarrow> 's \<Rightarrow> (SimulateResult list \<times> go_error option) \<times> 's" where
  "SendEvents S post baseURL inboundPath secret provider count dup s =
     send_loop S post (trim_suffix baseURL ''/'' @ ''/e/'' @ inboundPath) secret provider (if count < 1 then 1 else count) dup 0 [] s"

section \<open>What the simulator signs, ingestion accepts\<close>

lemma canonical_names:
  "canonical_from True ''Content-Type'' = ''Content-Type''"
  "canonical_from True ''User-Agent'' = ''User-Agent''"
  "canonical_from True ''X-Hub-Signature-256'' = ''X-Hub-Signature-256''"
  "canonical_from True ''X-GitHub-Delivery'' = ''X-Github-Delivery''"
  "canonical_from True ''X-GitHub-Event'' = ''X-Github-Event''"
  "canonical_from True ''X-Hmac-Signature'' = ''X-Hmac-Signature''"
  "canonical_from True ''X-Tuma-Event-Id'' = ''X-Tuma-Event-Id''"
  by code_simp+

lemma header_get_set:
  "header_get (set_headers hs) k = (case map_of (map (\<lambda>(k, v). (canonical_from True k, v)) hs) (canonical_from True k) of
     Some v \<Rightarrow> v | None \<Rightarrow> [])"
  by (induction hs) (auto simp: header_get_def set_headers_def)

lemma simulated_headers:
  "header_get (snd (stripePayload created ts secret eventID)) ''Stripe-Signature'' =
     stripe_header secret ts (fst (stripePayload created ts secret eventID))"
  "header_get (snd (githubPayload secret eventID)) ''X-Hub-Signature-256'' =
     ''sha256='' @ hex_encode (hmac_sha256 secret (fst (githubPayload secret eventID)))"
  "header_get (snd (githubPayload secret eventID)) ''X-GitHub-Delivery'' = eventID"
  "header_get (snd (easypostPayload nfkd secret eventID)) ''X-Hmac-Signature'' =
     easypostLegacyDigest nfkd secret (fst (easypostPayload nfkd secret eventID))"
  "header_get (snd (internalPayload ts eventID)) ''X-Tuma-Event-Id'' = eventID"
  unfolding stripePayload_def githubPayload_def easypostPayload_def internalPayload_def Let_def fst_conv snd_conv header_get_set
    easypostLegacyDigest_def stripe_header_def
  by (simp_all add: canonical_names canonical_stripe del: marshal.simps canonical_from.simps)

text \<open>The id in the body is the one that was written.\<close>

lemma Unmarshal_id:
  assumes "filter (\<lambda>m. known [''id''] (coerce_utf8 (fst m))) kvs = [(''id'', JStr i)]" "utf8_valid i" "i \<noteq> []"
    and "json_depth (JObj kvs) \<le> maxNestingDepth"
  shows "json_ExtractEventID (marshal (JObj kvs)) = i"
proof -
  have "coerce_utf8 ''id'' = ''id''" by (simp add: coerce_utf8_valid utf8_valid_ascii)
  then have "Unmarshal [(''id'', into_string)] [] (marshal (JObj kvs)) = Some i"
    using assms(1,2) unfolding Unmarshal_object [OF assms(4)]
    by (simp add: store_member_def find_field_def coerce_utf8_valid)
  with assms(3) show ?thesis by (simp add: json_ExtractEventID_def)
qed

lemma known_id:
  "known [''id''] (coerce_utf8 ''id'')"
  "list_all (\<lambda>k. \<not> known [''id''] (coerce_utf8 k)) [''object'', ''type'', ''livemode'', ''created'', ''data'', ''description'', ''result'']"
  by code_simp+

lemma simulated_ids:
  assumes "utf8_valid eventID" "eventID \<noteq> []"
  shows "json_ExtractEventID (fst (stripePayload created ts secret eventID)) = eventID"
    and "json_ExtractEventID (fst (easypostPayload nfkd secret eventID)) = eventID"
  unfolding stripePayload_def easypostPayload_def Let_def fst_conv using assms known_id
  by (intro Unmarshal_id; simp add: maxNestingDepth_def)+

text \<open>
  C22. What the simulator builds for a provider, the adapter of that provider accepts with the
  same secret, within five minutes of the signature, and names by the event id the simulator
  chose, be it sent in a header or in the JSON body.
\<close>

theorem simulated_accepted:
  assumes "buildSignedRequest nfkd created ts provider secret eventID = Inr (body, headers)"
    and "Get provider = Inr adapter"
    and "secret \<noteq> []" "trim_space secret = secret" "eventID \<noteq> []" "utf8_valid eventID"
    and "0 < ts" "ts < 2 ^ 62" "now - ts * Second \<le> 5 * Minute"
  shows "Verify now nfkd adapter headers body secret \<and> ExtractEventID adapter headers body = eventID"
proof -
  consider (stripe) "adapter = StripeAdapter" "(body, headers) = stripePayload created ts secret eventID"
    | (github) "adapter = GitHubAdapter" "(body, headers) = githubPayload secret eventID"
    | (easypost) "adapter = EasyPostAdapter" "(body, headers) = easypostPayload nfkd secret eventID"
    | (internal) "adapter = InternalAdapter" "(body, headers) = internalPayload ts eventID"
    using assms(1,2) by (auto simp: buildSignedRequest_def Get_def registry_def split: if_splits)
  then show ?thesis
  proof cases
    case stripe
    then have "header_get headers ''Stripe-Signature'' = stripe_header (trim_space secret) ts body"
      using simulated_headers(1) [of created ts secret eventID] assms(4) by (metis fst_conv snd_conv)
    with stripe_header_verifies [of headers secret ts body now] assms stripe simulated_ids(1) [of eventID created ts secret] show ?thesis
      by (metis ExtractEventID.simps(1) Verify.simps(1) fst_conv)
  next
    case github
    then have "header_get headers ''X-Hub-Signature-256'' = ''sha256='' @ hex_encode (hmac_sha256 secret body)"
      "header_get headers ''X-GitHub-Delivery'' = eventID"
      using simulated_headers(2,3) [of secret eventID] by (metis fst_conv snd_conv)+
    then show ?thesis
      using assms(3,5) github(1) trim_prefix_append [of "''sha256=''" "hex_encode (hmac_sha256 secret body)"]
        has_prefix_append [of "''sha256=''" "hex_encode (hmac_sha256 secret body)"]
      by (simp add: github_Verify_def github_ExtractEventID_def Let_def)
  next
    case easypost
    then have "header_get headers ''X-Hmac-Signature'' = easypostLegacyDigest nfkd secret body"
      using simulated_headers(4) [of nfkd secret eventID] by (metis fst_conv snd_conv)
    moreover have "easypostLegacyDigest nfkd secret body \<noteq> []" by (simp add: easypostLegacyDigest_def)
    ultimately show ?thesis
      using assms easypost simulated_ids(2) [of eventID nfkd secret] by (auto simp: easypost_Verify_def Let_def dest: arg_cong [where f = fst])
  next
    case internal
    then have "header_get headers ''X-Tuma-Event-Id'' = eventID"
      using simulated_headers(5) [of ts eventID] by (metis fst_conv snd_conv)
    with assms internal(1) show ?thesis by (simp add: internal_Verify_def internal_ExtractEventID_def Let_def)
  qed
qed

theorem simulated_accepted_witness:
  "Verify (1060 * Second) (\<lambda>s. s) StripeAdapter (snd (stripePayload 1000 1000 ''whsec_00'' ''evt_1''))
     (fst (stripePayload 1000 1000 ''whsec_00'' ''evt_1'')) ''whsec_00''
   \<and> ExtractEventID StripeAdapter (snd (stripePayload 1000 1000 ''whsec_00'' ''evt_1''))
       (fst (stripePayload 1000 1000 ''whsec_00'' ''evt_1'')) = ''evt_1''"
proof -
  have t: "trim_space ''whsec_00'' = ''whsec_00''" by (rule trim_space_graphic) code_simp
  have "buildSignedRequest (\<lambda>s. s) 1000 1000 ''stripe'' ''whsec_00'' ''evt_1'' =
      Inr (fst (stripePayload 1000 1000 ''whsec_00'' ''evt_1''), snd (stripePayload 1000 1000 ''whsec_00'' ''evt_1''))"
    by (simp add: buildSignedRequest_def)
  from simulated_accepted [OF this _ _ t _ utf8_valid_ascii, of StripeAdapter "1060 * Second"] show ?thesis
    by (simp add: Get_def registry_def)
qed

text \<open>One turn of the loop: it ends, or it has one more result and goes on.\<close>

lemma send_loop_cases:
  assumes "send_loop S post url secret provider n dup i out0 s = ((out, err), s')"
  shows "n \<le> int i \<and> out = out0 \<and> err = None
    \<or> int i < n \<and> out = out0 \<and> err \<noteq> None
    \<or> (\<exists>st body s1. int i < n \<and> send_loop S post url secret provider n dup (Suc i)
         (out0 @ [\<lparr>sr_status = st, sr_body = body, sr_event_id = sim_event_id S provider n dup i\<rparr>]) s1 = ((out, err), s'))"
  using assms
  by (subst (asm) send_loop.simps) (auto simp: Let_def split: if_splits sum.splits prod.splits)

lemma send_loop_results:
  assumes "send_loop S post url secret provider n dup i out0 s = ((out, err), s')" "length out0 = i"
    and "map sr_event_id out0 = map (sim_event_id S provider n dup) [0..<i]"
  shows "int (length out) \<le> max (int i) n \<and> (err = None \<longleftrightarrow> max (int i) n = int (length out))
      \<and> map sr_event_id out = map (sim_event_id S provider n dup) [0..<length out]"
  using assms
proof (induction "nat (n - int i)" arbitrary: i out0 s)
  case 0
  with send_loop_cases [OF 0(2)] show ?case by auto
next
  case (Suc k)
  from send_loop_cases [OF Suc(3)] show ?case
  proof (elim disjE exE conjE)
    fix st body s1
    assume "send_loop S post url secret provider n dup (Suc i)
       (out0 @ [\<lparr>sr_status = st, sr_body = body, sr_event_id = sim_event_id S provider n dup i\<rparr>]) s1 = ((out, err), s')"
    from Suc(1) [OF _ this] Suc(2,4,5) show ?thesis by auto
  qed (use Suc in auto)
qed

text \<open>
  Sending always ends: it makes at most the requested number of requests (one for a count
  below one), each result carries the id of its event, in order, and it stops early only with
  the error of building or exchanging a request; without an error there is one result per
  request.
\<close>

lemma SendEvents_complete:
  assumes "SendEvents S post baseURL inboundPath secret provider count dup s = ((out, err), s')"
  shows "int (length out) \<le> max 1 count \<and> (err = None \<longleftrightarrow> int (length out) = max 1 count)
    \<and> map sr_event_id out = map (sim_event_id S provider (max 1 count) dup) [0..<length out]"
proof -
  have "send_loop S post (trim_suffix baseURL ''/'' @ ''/e/'' @ inboundPath) secret provider (max 1 count) dup 0 [] s = ((out, err), s')"
    using assms by (simp add: SendEvents_def max_def split: if_splits)
  from send_loop_results [OF this] show ?thesis by auto
qed

end
