(* ===== verification/Playground.thy ===== *)
theory Playground
  imports AlertApi RateLimit Hub Simulator
begin

text \<open>
  \<^verbatim>\<open>internal/api/playground.go\<close>: the public playground, where a visitor gets a connection of his
  own, sends it simulated events and watches the deliveries.  The state is that of the server
  with the hub, the rate limiter and the stream slots.  A stream is its opening, the events
  taken while it lasts (theory \<open>Hub\<close>) and its closing.
\<close>

section \<open>State and requests\<close>

record play =
  plg_core :: server
  plg_hub :: hub
  plg_limits :: rateLimiter
  plg_streams :: streamLimiter

text \<open>The part of a request these handlers read: \<open>pr_clock\<close> is the clock of the limiter, \<open>pr_ts\<close> that of the log.\<close>

record play_request =
  pr_headers :: header
  pr_remote :: string
  pr_cookies :: "(string \<times> string) list"
  pr_clock :: "time \<times> time"
  pr_ts :: string

definition playgroundCookie :: string where
  "playgroundCookie = ''tuma_playground''"

record play_cookie =
  plc_value :: string
  plc_max_age :: int
  plc_secure :: bool

definition playground_cookie :: "handler_env \<Rightarrow> uuid \<Rightarrow> play_cookie" where
  "playground_cookie E sid =
     \<lparr>plc_value = ustr E sid, plc_max_age = trunc_rat (duration_seconds (PlaygroundSessionTTL (cfg E))),
      plc_secure = has_prefix (PublicBaseURL (cfg E)) ''https://''\<rparr>"

definition pdb :: "play \<Rightarrow> db" where
  "pdb s = srv_db (plg_core s)"

definition set_pdb :: "play \<Rightarrow> db \<Rightarrow> play" where
  "set_pdb s d = s\<lparr>plg_core := upd_db (plg_core s) d\<rparr>"

definition rate_limited :: "'b reply" where
  "rate_limited = Error 429 ''rate limit exceeded''"

text \<open>The limiter in front of a handler.\<close>

definition limited :: "string \<Rightarrow> int \<Rightarrow> int \<Rightarrow> play_request \<Rightarrow> (play \<Rightarrow> 'b reply \<times> play) \<Rightarrow> play \<Rightarrow> 'b reply \<times> play" where
  "limited what perHour burst r next_handler s =
     (case allow (pr_clock r) (what @ clientIP (pr_headers r) (pr_remote r)) perHour burst (plg_limits s) of
        (ok, rl) \<Rightarrow>
          let s' = s\<lparr>plg_limits := rl\<rparr> in if ok then next_handler s' else (rate_limited, s'))"

definition playgroundSessionFromRequest :: "handler_env \<Rightarrow> play_request \<Rightarrow> play \<Rightarrow> PlaygroundSession option \<times> play" where
  "playgroundSessionFromRequest E r s =
     (case request_cookie (pr_cookies r) playgroundCookie of
        None \<Rightarrow> (None, s)
      | Some v \<Rightarrow>
          (case parse_uuid E v of
             None \<Rightarrow> (None, s)
           | Some i \<Rightarrow>
               (case GetPlaygroundSession i (pdb s) of
                  (Inr x, d) \<Rightarrow> (x, set_pdb s d)
                | (Inl _, d) \<Rightarrow> (None, set_pdb s d))))"

section \<open>Bootstrap\<close>

record play_summary =
  psm_session_id :: string
  psm_connection_id :: string
  psm_inbound_url :: string
  psm_inbound_path :: string
  psm_source_type :: string
  psm_destination_fail :: bool

definition playgroundSummary :: "handler_env \<Rightarrow> PlaygroundSession \<Rightarrow> Connection \<Rightarrow> play_summary" where
  "playgroundSummary E ps conn =
     \<lparr>psm_session_id = ustr E (ps_id ps), psm_connection_id = ustr E (conn_id conn),
      psm_inbound_url = InboundURL (PublicBaseURL (cfg E)) (conn_inbound_path conn),
      psm_inbound_path = conn_inbound_path conn, psm_source_type = conn_source_type conn,
      psm_destination_fail = ps_fail_destination ps\<rparr>"

text \<open>Random choices of a bootstrap: the session, the secret, the nonce and the path.\<close>

record bootstrap_random =
  br_session :: uuid
  br_secret :: bytes
  br_nonce :: "96 word result"
  br_path :: uuid

definition evict_for_one :: "handler_env \<Rightarrow> db \<Rightarrow> db" where
  "evict_for_one E d =
     (case CountPlaygroundSessions d of
        (Inl _, d') \<Rightarrow> d'
      | (Inr n, d') \<Rightarrow>
          if PlaygroundMaxSessions (cfg E) \<le> int n then snd (EvictOldestPlaygroundSessions 1 d') else d')"

definition bootstrap_new :: "handler_env \<Rightarrow> bootstrap_random \<Rightarrow> play \<Rightarrow> (play_cookie \<times> play_summary) reply \<times> play" where
  "bootstrap_new E b s0 =
     (let s = set_pdb s0 (evict_for_one E (pdb s0));
          sid = br_session b; secret = randomSecret (br_secret b)
      in case Encrypt (encryptor_of E) (br_nonce b) secret of
           Inl _ \<Rightarrow> (internal_error, s)
         | Inr enc \<Rightarrow>
             (let destURL = trim_suffix (PlaygroundInternalBase (cfg E)) ''/'' @ ''/playground/r/'' @ ustr E sid @ ''/hook''
              in case CreatePlaygroundSession (GenerateInboundPath (ustr E) (br_path b)) sid enc destURL (pdb s) of
                   (Inl _, d) \<Rightarrow> (internal_error, set_pdb s d)
                 | (Inr (ps, conn), d) \<Rightarrow>
                     (Reply 200 (playground_cookie E (ps_id ps), playgroundSummary E ps conn), set_pdb s d)))"

definition touch :: "PlaygroundSession \<Rightarrow> play \<Rightarrow> play" where
  "touch ps s = set_pdb s (snd (TouchPlaygroundSession (ps_id ps) (pdb s)))"

definition playgroundBootstrap ::
  "handler_env \<Rightarrow> bootstrap_random \<Rightarrow> play_request \<Rightarrow> play \<Rightarrow> (play_cookie \<times> play_summary) reply \<times> play" where
  "playgroundBootstrap E b r = limited ''bootstrap:'' 10 3 r (\<lambda>s0.
     (case playgroundSessionFromRequest E r s0 of
        (None, s) \<Rightarrow> bootstrap_new E b s
      | (Some ps, s1) \<Rightarrow>
          (let s = touch ps s1
           in case GetConnection (ps_connection_id ps) (pdb s) of
                (Inr (Some conn), d) \<Rightarrow> (Reply 200 (playground_cookie E (ps_id ps), playgroundSummary E ps conn), set_pdb s d)
              | (_, d) \<Rightarrow> bootstrap_new E b (set_pdb s d))))"

section \<open>Status\<close>

record play_status =
  pst_status :: string
  pst_delivered_24h :: nat
  pst_open_issues :: nat
  pst_inbound_url :: string
  pst_fail_destination :: bool
  pst_recent_deliveries :: "Delivery list"

definition or_zero :: "'a::zero result \<Rightarrow> 'a" where
  "or_zero r = (case r of Inl _ \<Rightarrow> 0 | Inr n \<Rightarrow> n)"

definition session_required :: "'b reply" where
  "session_required = Error 401 ''session required''"

definition playgroundStatus :: "handler_env \<Rightarrow> play_request \<Rightarrow> play \<Rightarrow> play_status reply \<times> play" where
  "playgroundStatus E r s0 =
     (case playgroundSessionFromRequest E r s0 of
        (None, s) \<Rightarrow> (session_required, s)
      | (Some ps, s1) \<Rightarrow>
          (let s = touch ps s1
           in case GetConnection (ps_connection_id ps) (pdb s) of
                (Inr (Some conn), d1) \<Rightarrow>
                  (let (delivered, d2) = DeliveredCount24hForConnection (conn_id conn) d1;
                       (opened, d3) = OpenIssuesCountForConnection (conn_id conn) d2;
                       (st, d4) = GetConnectionStats (pg_p95 E) (conn_id conn) d3;
                       failed24h = (case st of Inr x \<Rightarrow> cs_failed_24h x | Inl _ \<Rightarrow> 0);
                       openIssues = or_zero opened;
                       (dels, d5) = ListDeliveriesForConnection (conn_id conn) 3 d4
                   in (Reply 200
                        \<lparr>pst_status = (if 0 < openIssues then ''failing'' else if 0 < failed24h then ''degraded'' else ''delivering''),
                         pst_delivered_24h = or_zero delivered, pst_open_issues = openIssues,
                         pst_inbound_url = InboundURL (PublicBaseURL (cfg E)) (conn_inbound_path conn),
                         pst_fail_destination = ps_fail_destination ps,
                         pst_recent_deliveries = (case dels of Inr xs \<Rightarrow> xs | Inl _ \<Rightarrow> [])\<rparr>, set_pdb s d5))
              | (_, d) \<Rightarrow> (not_found, set_pdb s d)))"

section \<open>Streams\<close>

text \<open>Opening a stream: the session, the address it is counted under and its two channels.\<close>

record stream_handle =
  sh_session :: uuid
  sh_ip :: string
  sh_sim :: nat
  sh_dest :: nat

definition playgroundStream :: "handler_env \<Rightarrow> play_request \<Rightarrow> play \<Rightarrow> stream_handle reply \<times> play" where
  "playgroundStream E r s0 =
     (let ip = clientIP (pr_headers r) (pr_remote r)
      in case stream_acquire ip 5 (plg_streams s0) of
           (False, sl) \<Rightarrow> (rate_limited, s0\<lparr>plg_streams := sl\<rparr>)
         | (True, sl) \<Rightarrow>
             (case playgroundSessionFromRequest E r (s0\<lparr>plg_streams := sl\<rparr>) of
                (None, s) \<Rightarrow> (session_required, s\<lparr>plg_streams := stream_release ip (plg_streams s)\<rparr>)
              | (Some ps, s1) \<Rightarrow>
                  (let s = touch ps s1;
                       (simCh, h1) = hub_subscribe (ps_id ps) True (plg_hub s);
                       (destCh, h2) = hub_subscribe (ps_id ps) False h1
                   in (Reply 200 \<lparr>sh_session = ps_id ps, sh_ip = ip, sh_sim = simCh, sh_dest = destCh\<rparr>, s\<lparr>plg_hub := h2\<rparr>))))"

text \<open>One turn of the loop: an event waiting in the chosen channel is taken and written.\<close>

definition stream_next :: "bool \<Rightarrow> stream_handle \<Rightarrow> play \<Rightarrow> string option \<times> play" where
  "stream_next sim h s =
     (let (sh, hb) = hub_get (sh_session h) (plg_hub s); c = (if sim then sh_sim h else sh_dest h)
      in case map_option ch_buf (subs_of sim sh c) of
           Some (ev # _) \<Rightarrow>
             (Some (FormatSSE (if sim then ''sim'' else ''dest'') ev),
              s\<lparr>plg_hub := hb\<lparr>hub_sessions := (hub_sessions hb)(sh_session h \<mapsto> take_session c sim sh)\<rparr>\<rparr>)
         | _ \<Rightarrow> (None, s))"

text \<open>The deferred calls when the client goes away.\<close>

definition close_stream :: "stream_handle \<Rightarrow> play \<Rightarrow> play" where
  "close_stream h s =
     (let drop_sub = (\<lambda>c sim hb. (let (sh, hb') = hub_get (sh_session h) hb
            in hb'\<lparr>hub_sessions := (hub_sessions hb')(sh_session h \<mapsto> unsubscribe_session c sim sh)\<rparr>))
      in s\<lparr>plg_hub := drop_sub (sh_sim h) True (drop_sub (sh_dest h) False (plg_hub s)),
           plg_streams := stream_release (sh_ip h) (plg_streams s)\<rparr>)"

section \<open>Simulated events\<close>

record simulateBody =
  sb_provider :: string
  sb_count :: int
  sb_duplicate_event_id :: string

definition sim_line :: "Connection \<Rightarrow> SimulateResult \<Rightarrow> string" where
  "sim_line conn res =
     [CHR 0xE2, CHR 0x86, CHR 0x92] @ '' POST /e/'' @ conn_inbound_path conn @ '' '' @ itoa (sr_status res) @ '' ''
     @ sr_body res @ ''  event='' @ sr_event_id res"

definition clamp_count :: "int \<Rightarrow> int" where
  "clamp_count n = (let m = (if n < 1 then 1 else n) in if 5 < m then 5 else m)"

text \<open>The source type of the session's connection follows the provider; the cached copy goes.\<close>

definition switch_provider :: "Connection \<Rightarrow> string \<Rightarrow> play \<Rightarrow> bool \<times> play" where
  "switch_provider conn provider s =
     (if conn_source_type conn = provider then (True, s)
      else case UpdateConnectionSourceType (conn_id conn) provider (pdb s) of
             (Inl _, d) \<Rightarrow> (False, set_pdb s d)
           | (Inr _, d) \<Rightarrow>
               (True, let s' = set_pdb s d
                      in s'\<lparr>plg_core := (plg_core s')\<lparr>srv_cache := (srv_cache (plg_core s'))(conn_inbound_path conn := None)\<rparr>\<rparr>))"

definition playgroundSimulate ::
  "handler_env \<Rightarrow> sim_env \<Rightarrow> (string \<Rightarrow> bytes \<Rightarrow> header \<Rightarrow> play \<Rightarrow> (int \<times> string) result \<times> play) \<Rightarrow> play_request
   \<Rightarrow> simulateBody option \<Rightarrow> play \<Rightarrow> (nat \<times> SimulateResult list) reply \<times> play" where
  "playgroundSimulate E S post r req = limited ''simulate:'' 20 5 r (\<lambda>s0.
     (case playgroundSessionFromRequest E r s0 of
        (None, s) \<Rightarrow> (session_required, s)
      | (Some ps, s1) \<Rightarrow>
          (let s2 = touch ps s1
           in case req of
                None \<Rightarrow> (Error 400 ''invalid json'', s2)
              | Some q \<Rightarrow>
                  (let provider = (if sb_provider q = [] then ''stripe'' else sb_provider q)
                   in case GetConnection (ps_connection_id ps) (pdb s2) of
                        (Inr (Some conn), d3) \<Rightarrow>
                          (case switch_provider conn provider (set_pdb s2 d3) of
                             (False, s4) \<Rightarrow> (internal_error, s4)
                           | (True, s4) \<Rightarrow>
                               (case Decrypt (encryptor_of E) (conn_signing_secret_enc conn) of
                                  Inl _ \<Rightarrow> (internal_error, s4)
                                | Inr secret \<Rightarrow>
                                    (case SendEvents S post (PlaygroundInternalBase (cfg E)) (conn_inbound_path conn) secret
                                            provider (clamp_count (sb_count q)) (sb_duplicate_event_id q) s4 of
                                       ((_, Some _), s5) \<Rightarrow> (Error 500 ''simulate failed'', s5)
                                     | ((results, None), s5) \<Rightarrow>
                                         (Reply 200 (length results, results),
                                          s5\<lparr>plg_hub := fold (\<lambda>res. PublishSim (ps_id ps) (pr_ts r) (sim_line conn res))
                                               results (plg_hub s5)\<rparr>))))
                      | (_, d3) \<Rightarrow> (not_found, set_pdb s2 d3)))))"

section \<open>Breaking, fixing and replaying\<close>

definition playgroundSetFail :: "handler_env \<Rightarrow> bool \<Rightarrow> play_request \<Rightarrow> play \<Rightarrow> string reply \<times> play" where
  "playgroundSetFail E fail r = limited ''control:'' 30 10 r (\<lambda>s0.
     (case playgroundSessionFromRequest E r s0 of
        (None, s) \<Rightarrow> (session_required, s)
      | (Some ps, s) \<Rightarrow>
          (case SetPlaygroundFailDestination (ps_id ps) fail (pdb s) of
             (Inl _, d) \<Rightarrow> (internal_error, set_pdb s d)
           | (Inr _, d) \<Rightarrow>
               (let action = (if fail then ''broken'' else ''fixed''); s' = set_pdb s d
                in (Reply 200 action,
                    s'\<lparr>plg_hub := PublishSim (ps_id ps) (pr_ts r) (''destination '' @ action) (plg_hub s')\<rparr>)))))"

definition playgroundReplay :: "handler_env \<Rightarrow> time \<Rightarrow> play_request \<Rightarrow> play \<Rightarrow> string reply \<times> play" where
  "playgroundReplay E now r = limited ''control:'' 30 10 r (\<lambda>s0.
     (case playgroundSessionFromRequest E r s0 of
        (None, s) \<Rightarrow> (session_required, s)
      | (Some ps, s) \<Rightarrow>
          if ps_fail_destination ps then (Reply 409 ''fix_first'', s)
          else (case GetLatestOpenIssueForConnection (ps_connection_id ps) (pdb s) of
             (Inr (Some issue), d) \<Rightarrow>
               (case startReplay (server_env.truncate E) now (iss_event_id issue) (plg_core (set_pdb s d)) of
                  (Inl _, c) \<Rightarrow> (Error 500 ''replay failed'', s\<lparr>plg_core := c\<rparr>)
                | (Inr _, c) \<Rightarrow>
                    (Reply 200 (ustr E (iss_id issue)),
                     s\<lparr>plg_core := c, plg_hub := PublishSim (ps_id ps) (pr_ts r)
                         ([CHR 0xE2, CHR 0x86, CHR 0x92] @ '' replay issue '' @ ustr E (iss_id issue)) (plg_hub s)\<rparr>))
           | (_, d) \<Rightarrow> (Reply 409 ''no_open_issue'', set_pdb s d))))"

section \<open>The receiver and the garbage collector\<close>

text \<open>\<open>ms\<close> is the latency the handler measures.\<close>

definition playgroundReceiver ::
  "handler_env \<Rightarrow> int \<Rightarrow> string \<Rightarrow> header \<Rightarrow> body_stream \<Rightarrow> string \<Rightarrow> play \<Rightarrow> string reply \<times> play" where
  "playgroundReceiver E ms ts headers stream idText s0 =
     (case parse_uuid E idText of
        None \<Rightarrow> (not_found, s0)
      | Some sid \<Rightarrow>
          (case GetPlaygroundSession sid (pdb s0) of
             (Inr (Some ps), d) \<Rightarrow>
               (let s = set_pdb s0 d;
                    preview = BodyPreview (read_limited (MaxBodyBytes (cfg E)) stream);
                    log_line = (\<lambda>line. s\<lparr>plg_hub := PublishDest sid ts line (header_get headers ''X-Tuma-Delivery-Id'') preview (plg_hub s)\<rparr>)
                in if ps_fail_destination ps
                   then (Error 502 ''destination broken (demo)'', log_line (''POST /hook 502  fail_mode  '' @ itoa ms @ ''ms''))
                   else (Reply 200 (marshal (JObj [(''ok'', JBool True)])), log_line (''POST /hook 200  '' @ itoa ms @ ''ms'')))
           | (_, d) \<Rightarrow> (not_found, set_pdb s0 d)))"

text \<open>One round of \<^verbatim>\<open>playgroundGC\<close>.\<close>

definition playgroundGC :: "handler_env \<Rightarrow> time \<Rightarrow> db \<Rightarrow> db" where
  "playgroundGC E now d0 =
     (case DeletePlaygroundSessionsOlderThan (now - PlaygroundSessionTTL (cfg E)) d0 of
        (Inl _, d) \<Rightarrow> d
      | (Inr _, d) \<Rightarrow>
          (case CountPlaygroundSessions d of
             (Inl _, d') \<Rightarrow> d'
           | (Inr count, d') \<Rightarrow>
               if PlaygroundMaxSessions (cfg E) < int count
               then snd (EvictOldestPlaygroundSessions (nat (int count - PlaygroundMaxSessions (cfg E))) d')
               else d'))"

end
