(* ===== verification/Requests.thy ===== *)
theory Requests
  imports Playground JsonRoundTrip
begin

text \<open>
  The JSON bodies of the console and playground requests: for each handler of \<^verbatim>\<open>internal/api\<close> the
  fields of its request struct, by their tags, and \<^verbatim>\<open>json.NewDecoder(r.Body).Decode(&req)\<close> into the
  zero value of the struct.  The structs themselves are with their handlers.
\<close>

definition decode_body :: "'r json_fields \<Rightarrow> 'r \<Rightarrow> body_stream \<Rightarrow> 'r option" where
  "decode_body fs zero b = Decode fs zero (bs_bytes b) (bs_fails b)"

section \<open>Sessions and connections\<close>

definition login_fields :: "loginRequest json_fields" where
  "login_fields = [json_field ''email'' into_string lr_email lr_email_update,
                   json_field ''password'' into_string lr_password lr_password_update]"

definition decode_login :: "body_stream \<Rightarrow> loginRequest option" where
  "decode_login = decode_body login_fields \<lparr>lr_email = [], lr_password = []\<rparr>"

definition create_connection_fields :: "createConnectionRequest json_fields" where
  "create_connection_fields =
     [json_field ''name'' into_string ccr_name ccr_name_update,
      json_field ''source_type'' into_string ccr_source_type ccr_source_type_update,
      json_field ''destination_url'' into_string ccr_destination_url ccr_destination_url_update,
      json_field ''signing_secret'' into_string ccr_signing_secret ccr_signing_secret_update]"

definition decode_create_connection :: "body_stream \<Rightarrow> createConnectionRequest option" where
  "decode_create_connection = decode_body create_connection_fields
     \<lparr>ccr_name = [], ccr_source_type = [], ccr_destination_url = [], ccr_signing_secret = []\<rparr>"

definition patch_connection_fields :: "patchConnectionRequest json_fields" where
  "patch_connection_fields =
     [json_field ''name'' (into_ptr into_string []) pcr_name pcr_name_update,
      json_field ''destination_url'' (into_ptr into_string []) pcr_destination_url pcr_destination_url_update,
      json_field ''retry_attempts'' (into_ptr into_int 0) pcr_retry_attempts pcr_retry_attempts_update,
      json_field ''retry_first_delay_s'' (into_ptr into_int 0) pcr_retry_first_delay_s pcr_retry_first_delay_s_update,
      json_field ''retry_backoff_factor'' (into_ptr into_float 0) pcr_retry_backoff_factor pcr_retry_backoff_factor_update,
      json_field ''retention_days'' (into_ptr into_int 0) pcr_retention_days pcr_retention_days_update,
      json_field ''signing_secret'' (into_ptr into_string []) pcr_signing_secret pcr_signing_secret_update]"

definition decode_patch_connection :: "body_stream \<Rightarrow> patchConnectionRequest option" where
  "decode_patch_connection = decode_body patch_connection_fields
     \<lparr>pcr_name = None, pcr_destination_url = None, pcr_retry_attempts = None, pcr_retry_first_delay_s = None,
      pcr_retry_backoff_factor = None, pcr_retention_days = None, pcr_signing_secret = None\<rparr>"

text \<open>The struct has the one field \<open>ids\<close>.\<close>

definition bulkReplayRequest :: "string list json_fields" where
  "bulkReplayRequest = [(''ids'', into_slice into_string [])]"

definition decode_replay_bulk :: "body_stream \<Rightarrow> string list option" where
  "decode_replay_bulk = decode_body bulkReplayRequest []"

section \<open>Alert rules and settings\<close>

definition create_rule_fields :: "createAlertRuleRequest json_fields" where
  "create_rule_fields =
     [json_field ''name'' into_string car_name car_name_update,
      json_field ''rule_type'' into_string car_rule_type car_rule_type_update,
      json_field ''threshold'' into_float car_threshold car_threshold_update,
      json_field ''unit'' into_string car_unit car_unit_update,
      json_field ''notification_type'' into_string car_notification_type car_notification_type_update,
      json_field ''notification_dest'' into_string car_notification_dest car_notification_dest_update,
      json_field ''subject_template'' (into_ptr into_string []) car_subject_template car_subject_template_update,
      json_field ''body_template'' (into_ptr into_string []) car_body_template car_body_template_update]"

definition decode_create_rule :: "body_stream \<Rightarrow> createAlertRuleRequest option" where
  "decode_create_rule = decode_body create_rule_fields
     \<lparr>car_name = [], car_rule_type = [], car_threshold = 0, car_unit = [], car_notification_type = [],
      car_notification_dest = [], car_subject_template = None, car_body_template = None\<rparr>"

definition patch_rule_fields :: "patchAlertRuleRequest json_fields" where
  "patch_rule_fields =
     [json_field ''active'' (into_ptr into_bool False) par_active par_active_update,
      json_field ''threshold'' (into_ptr into_float 0) par_threshold par_threshold_update,
      json_field ''subject_template'' (into_ptr into_string []) par_subject_template par_subject_template_update,
      json_field ''body_template'' (into_ptr into_string []) par_body_template par_body_template_update]"

definition decode_patch_rule :: "body_stream \<Rightarrow> patchAlertRuleRequest option" where
  "decode_patch_rule = decode_body patch_rule_fields
     \<lparr>par_active = None, par_threshold = None, par_subject_template = None, par_body_template = None\<rparr>"

definition settings_fields :: "notificationSettingsUpdate json_fields" where
  "settings_fields =
     [json_field ''smtp_host'' into_string nsu_smtp_host nsu_smtp_host_update,
      json_field ''smtp_port'' into_int nsu_smtp_port nsu_smtp_port_update,
      json_field ''smtp_username'' into_string nsu_smtp_username nsu_smtp_username_update,
      json_field ''smtp_from'' into_string nsu_smtp_from nsu_smtp_from_update,
      json_field ''smtp_password'' into_string nsu_smtp_password nsu_smtp_password_update,
      json_field ''clear_smtp_password'' into_bool nsu_clear_smtp_password nsu_clear_smtp_password_update,
      json_field ''slack_bot_token'' into_string nsu_slack_bot_token nsu_slack_bot_token_update,
      json_field ''clear_slack_token'' into_bool nsu_clear_slack_token nsu_clear_slack_token_update]"

definition decode_settings :: "body_stream \<Rightarrow> notificationSettingsUpdate option" where
  "decode_settings = decode_body settings_fields
     \<lparr>nsu_smtp_host = [], nsu_smtp_port = 0, nsu_smtp_username = [], nsu_smtp_from = [], nsu_smtp_password = [],
      nsu_clear_smtp_password = False, nsu_slack_bot_token = [], nsu_clear_slack_token = False\<rparr>"

section \<open>Playground\<close>

definition simulate_fields :: "simulateBody json_fields" where
  "simulate_fields =
     [json_field ''provider'' into_string sb_provider sb_provider_update,
      json_field ''count'' into_int sb_count sb_count_update,
      json_field ''duplicate_event_id'' into_string sb_duplicate_event_id sb_duplicate_event_id_update]"

definition decode_simulate :: "body_stream \<Rightarrow> simulateBody option" where
  "decode_simulate = decode_body simulate_fields \<lparr>sb_provider = [], sb_count = 0, sb_duplicate_event_id = []\<rparr>"

end
