(* ===== verification/Server.thy ===== *)
theory Server
  imports Requests
begin

text \<open>
  \<^verbatim>\<open>NewServer\<close> and \<^verbatim>\<open>Handler\<close> of \<^verbatim>\<open>internal/api/server.go\<close>: the state of the API process and the
  routing of its requests.  A request comes with its path cut into segments, cleaned and
  unescaped as the mux hands it out.  The clock readings and the random choices of a request are
  arguments.  The simulator's posts reach this very server
  when the playground base is its own address.
\<close>

section \<open>Requests and answers\<close>

record http_request =
  hr_method :: string
  hr_path :: "string list"
  hr_query :: "string \<Rightarrow> string"
  hr_cookies :: "(string \<times> string) list"
  hr_headers :: header
  hr_remote :: string
  hr_body :: body_stream

text \<open>Where a URL leads: to an inbound path of this server, or elsewhere, with what comes back.\<close>

datatype target = Here string | Elsewhere "(int \<times> string) result"

record choices =
  cho_clk :: "nat \<Rightarrow> time"
  cho_rate_clock :: "time \<times> time"
  cho_ts :: string
  cho_ms :: int
  cho_secret :: bytes
  cho_nonces :: "96 word result \<times> 96 word result"
  cho_path :: uuid
  cho_session :: uuid
  cho_sim :: sim_env
  cho_net :: "string \<Rightarrow> target"
  cho_added :: "header \<Rightarrow> header"
  cho_post :: "play \<Rightarrow> (nat \<Rightarrow> time) \<times> (96 word result \<times> 96 word result)"

record api_env =
  core_env :: handler_env

record app =
  app_play :: play
  app_sink :: echoSink

definition NewServer :: "db \<Rightarrow> metrics \<Rightarrow> app" where
  "NewServer d m =
     \<lparr>app_play = \<lparr>plg_core = \<lparr>srv_db = d, srv_cache = (\<lambda>_. None), srv_metrics = m, srv_started = [], srv_starts = 0\<rparr>,
                  plg_hub = NewHub, plg_limits = newRateLimiter, plg_streams = newStreamLimiter\<rparr>,
      app_sink = newEchoSink\<rparr>"

datatype answer =
    AText string
  | ACollectors metrics
  | ALogin cookie string
  | ALogout cookie
  | AConnections "connectionResponse list"
  | ACreated connectionResponse string
  | AConnection connectionResponse
  | ADeliveries "Delivery list"
  | AMetrics PlatformMetrics
  | AIssues "Issue list"
  | AIssue Issue string
  | AStarted nat
  | ARules "AlertRule list" nat nat
  | ARule AlertRule
  | ANothing
  | ANotifications "AlertNotification list" nat
  | AView View
  | ASink string bool "sinkEvent list"
  | AFail bool
  | AConfig config_reply
  | APlay play_cookie play_summary
  | APlayStatus play_status
  | AStream stream_handle
  | ASimulated nat "SimulateResult list"

section \<open>Routes\<close>

datatype seg = Lit string | Wild

datatype route =
    Healthz | Readyz | Collectors | Ingest string | SinkEcho | Login | Logout
  | ListConnections_r | CreateConnection_r | GetConnection_r string | PatchConnection_r string | ListDeliveries_r string
  | GetMetrics_r | ListIssues_r | GetIssue_r string | ReplayIssue_r string | ReplayBulk_r
  | ListAlertRules_r | CreateAlertRule_r | PatchAlertRule_r string | DeleteAlertRule_r string | ListNotifications_r
  | GetSettings_r | PutSettings_r | GetSink_r | SinkBreak_r | SinkFix_r | GetConfig_r
  | PlayBootstrap | PlayStatus | PlayStream | PlaySimulate | PlayBreak | PlayFix | PlayReplay | PlayHook string

type_synonym pattern = "string \<times> seg list \<times> (string list \<Rightarrow> route)"

definition server_routes :: "pattern list" where
  "server_routes =
     [(''GET'', [Lit ''healthz''], \<lambda>_. Healthz),
      (''GET'', [Lit ''readyz''], \<lambda>_. Readyz),
      (''GET'', [Lit ''metrics''], \<lambda>_. Collectors),
      (''POST'', [Lit ''e'', Wild], \<lambda>xs. Ingest (hd xs)),
      (''POST'', [Lit ''sink'', Lit ''echo''], \<lambda>_. SinkEcho),
      (''POST'', [Lit ''api'', Lit ''auth'', Lit ''login''], \<lambda>_. Login),
      (''POST'', [Lit ''api'', Lit ''auth'', Lit ''logout''], \<lambda>_. Logout),
      (''GET'', [Lit ''api'', Lit ''connections''], \<lambda>_. ListConnections_r),
      (''POST'', [Lit ''api'', Lit ''connections''], \<lambda>_. CreateConnection_r),
      (''GET'', [Lit ''api'', Lit ''connections'', Wild], \<lambda>xs. GetConnection_r (hd xs)),
      (''PATCH'', [Lit ''api'', Lit ''connections'', Wild], \<lambda>xs. PatchConnection_r (hd xs)),
      (''GET'', [Lit ''api'', Lit ''connections'', Wild, Lit ''deliveries''], \<lambda>xs. ListDeliveries_r (hd xs)),
      (''GET'', [Lit ''api'', Lit ''metrics''], \<lambda>_. GetMetrics_r),
      (''GET'', [Lit ''api'', Lit ''issues''], \<lambda>_. ListIssues_r),
      (''GET'', [Lit ''api'', Lit ''issues'', Wild], \<lambda>xs. GetIssue_r (hd xs)),
      (''POST'', [Lit ''api'', Lit ''issues'', Wild, Lit ''replay''], \<lambda>xs. ReplayIssue_r (hd xs)),
      (''POST'', [Lit ''api'', Lit ''issues'', Lit ''replay-bulk''], \<lambda>_. ReplayBulk_r),
      (''GET'', [Lit ''api'', Lit ''alert-rules''], \<lambda>_. ListAlertRules_r),
      (''POST'', [Lit ''api'', Lit ''alert-rules''], \<lambda>_. CreateAlertRule_r),
      (''PATCH'', [Lit ''api'', Lit ''alert-rules'', Wild], \<lambda>xs. PatchAlertRule_r (hd xs)),
      (''DELETE'', [Lit ''api'', Lit ''alert-rules'', Wild], \<lambda>xs. DeleteAlertRule_r (hd xs)),
      (''GET'', [Lit ''api'', Lit ''alert-notifications''], \<lambda>_. ListNotifications_r),
      (''GET'', [Lit ''api'', Lit ''admin'', Lit ''notification-settings''], \<lambda>_. GetSettings_r),
      (''PUT'', [Lit ''api'', Lit ''admin'', Lit ''notification-settings''], \<lambda>_. PutSettings_r),
      (''GET'', [Lit ''api'', Lit ''sink''], \<lambda>_. GetSink_r),
      (''POST'', [Lit ''api'', Lit ''sink'', Lit ''break''], \<lambda>_. SinkBreak_r),
      (''POST'', [Lit ''api'', Lit ''sink'', Lit ''fix''], \<lambda>_. SinkFix_r),
      (''GET'', [Lit ''api'', Lit ''config''], \<lambda>_. GetConfig_r)]"

definition registerPlaygroundRoutes :: "bool \<Rightarrow> pattern list" where
  "registerPlaygroundRoutes demo =
     (if \<not> demo then []
      else [(''GET'', [Lit ''api'', Lit ''playground'', Lit ''bootstrap''], \<lambda>_. PlayBootstrap),
            (''GET'', [Lit ''api'', Lit ''playground'', Lit ''status''], \<lambda>_. PlayStatus),
            (''GET'', [Lit ''api'', Lit ''playground'', Lit ''stream''], \<lambda>_. PlayStream),
            (''POST'', [Lit ''api'', Lit ''playground'', Lit ''simulate''], \<lambda>_. PlaySimulate),
            (''POST'', [Lit ''api'', Lit ''playground'', Lit ''break''], \<lambda>_. PlayBreak),
            (''POST'', [Lit ''api'', Lit ''playground'', Lit ''fix''], \<lambda>_. PlayFix),
            (''POST'', [Lit ''api'', Lit ''playground'', Lit ''replay''], \<lambda>_. PlayReplay),
            (''POST'', [Lit ''playground'', Lit ''r'', Wild, Lit ''hook''], \<lambda>xs. PlayHook (hd xs))])"

definition routes :: "bool \<Rightarrow> pattern list" where
  "routes demo = server_routes @ registerPlaygroundRoutes demo"

fun match_segs :: "seg list \<Rightarrow> string list \<Rightarrow> string list option" where
  "match_segs [] [] = Some []"
| "match_segs (Lit l # ps) (s # ss) = (if l = s then match_segs ps ss else None)"
| "match_segs (Wild # ps) (s # ss) = (if s = [] then None else map_option (Cons s) (match_segs ps ss))"
| "match_segs _ _ = None"

text \<open>A pattern for \<^verbatim>\<open>GET\<close> also takes \<^verbatim>\<open>HEAD\<close>.\<close>

definition method_ok :: "string \<Rightarrow> string \<Rightarrow> bool" where
  "method_ok pat m \<longleftrightarrow> m = pat \<or> pat = ''GET'' \<and> m = ''HEAD''"

definition find_route :: "bool \<Rightarrow> string \<Rightarrow> string list \<Rightarrow> route option" where
  "find_route demo m path =
     (case filter (\<lambda>(pm, ps, _). method_ok pm m \<and> match_segs ps path \<noteq> None) (routes demo) of
        [] \<Rightarrow> None
      | (_, ps, f) # _ \<Rightarrow> map_option f (match_segs ps path))"

section \<open>Handlers on the state of the process\<close>

definition on_core :: "('b \<Rightarrow> answer) \<Rightarrow> (server \<Rightarrow> 'b reply \<times> server) \<Rightarrow> app \<Rightarrow> answer reply \<times> app" where
  "on_core f h s =
     (case h (plg_core (app_play s)) of
        (r, c) \<Rightarrow> (map_reply f r, s\<lparr>app_play := (app_play s)\<lparr>plg_core := c\<rparr>\<rparr>))"

definition on_play :: "('b \<Rightarrow> answer) \<Rightarrow> (play \<Rightarrow> 'b reply \<times> play) \<Rightarrow> app \<Rightarrow> answer reply \<times> app" where
  "on_play f h s = (case h (app_play s) of (r, p) \<Rightarrow> (map_reply f r, s\<lparr>app_play := p\<rparr>))"

definition on_sink :: "('b \<Rightarrow> answer) \<Rightarrow> (echoSink \<Rightarrow> 'b reply \<times> echoSink) \<Rightarrow> app \<Rightarrow> answer reply \<times> app" where
  "on_sink f h s = (case h (app_sink s) of (r, k) \<Rightarrow> (map_reply f r, s\<lparr>app_sink := k\<rparr>))"

text \<open>\<^verbatim>\<open>s.auth(next)\<close> for a handler on the whole state.\<close>

definition guarded ::
  "handler_env \<Rightarrow> (string \<times> string) list \<Rightarrow> (app \<Rightarrow> answer reply \<times> app) \<Rightarrow> app \<Rightarrow> answer reply \<times> app" where
  "guarded E cookies next_handler s =
     (case auth E cookies (\<lambda>c. (Reply 0 (), c)) (plg_core (app_play s)) of
        (Error c m, c') \<Rightarrow> (Error c m, s\<lparr>app_play := (app_play s)\<lparr>plg_core := c'\<rparr>\<rparr>)
      | (Reply _ _, c') \<Rightarrow> next_handler (s\<lparr>app_play := (app_play s)\<lparr>plg_core := c'\<rparr>\<rparr>))"

text \<open>A post of the simulator; each request it makes to this server has its own clock and nonces.\<close>

definition reply_text :: "string reply \<Rightarrow> int \<times> string" where
  "reply_text r = (case r of Error c m \<Rightarrow> (c, m @ [CHR 0x0A]) | Reply c b \<Rightarrow> (c, b))"

definition net_post :: "handler_env \<Rightarrow> choices \<Rightarrow> string \<Rightarrow> bytes \<Rightarrow> header \<Rightarrow> play \<Rightarrow> (int \<times> string) result \<times> play" where
  "net_post E ch url body headers s =
     (case cho_net ch url of
        Elsewhere x \<Rightarrow> (x, s)
      | Here path \<Rightarrow>
          (case cho_post ch s of
             (clk, rs) \<Rightarrow>
               (case ingest (server_env.truncate E) clk rs path \<lparr>bs_bytes = body, bs_fails = False\<rparr> (cho_added ch headers) (plg_core s) of
                  (r, c) \<Rightarrow> (Inr (reply_text r), s\<lparr>plg_core := c\<rparr>))))"

definition play_request_of :: "choices \<Rightarrow> http_request \<Rightarrow> play_request" where
  "play_request_of ch q =
     \<lparr>pr_headers = hr_headers q, pr_remote = hr_remote q, pr_cookies = hr_cookies q,
      pr_clock = cho_rate_clock ch, pr_ts = cho_ts ch\<rparr>"

text \<open>The routes behind \<^verbatim>\<open>s.auth\<close>.\<close>

fun console :: "api_env \<Rightarrow> choices \<Rightarrow> http_request \<Rightarrow> route \<Rightarrow> (app \<Rightarrow> answer reply \<times> app) option" where
  "console A ch q ListConnections_r = Some (on_core AConnections (listConnections (core_env A)))"
| "console A ch q CreateConnection_r =
     Some (on_core (\<lambda>(c, secret). ACreated c secret) (createConnection (core_env A) (cho_secret ch) (fst (cho_nonces ch)) (cho_path ch)
       (decode_create_connection (hr_body q))))"
| "console A ch q (GetConnection_r i) = Some (on_core AConnection (getConnection (core_env A) i))"
| "console A ch q (PatchConnection_r i) =
     Some (on_core AConnection (patchConnection (core_env A) (fst (cho_nonces ch)) i (decode_patch_connection (hr_body q))))"
| "console A ch q (ListDeliveries_r i) = Some (on_core ADeliveries (listDeliveries (core_env A) i))"
| "console A ch q GetMetrics_r = Some (on_core AMetrics (getMetrics (core_env A)))"
| "console A ch q ListIssues_r = Some (on_core AIssues (listIssues (hr_query q ''status'')))"
| "console A ch q (GetIssue_r i) = Some (on_core (\<lambda>(x, payload). AIssue x payload) (getIssue (core_env A) i))"
| "console A ch q (ReplayIssue_r i) = Some (on_core AText (replayIssue (core_env A) (cho_clk ch 0) i))"
| "console A ch q ReplayBulk_r = Some (on_core AStarted (replayBulk (core_env A) (cho_clk ch) (decode_replay_bulk (hr_body q))))"
| "console A ch q ListAlertRules_r = Some (on_core (\<lambda>(xs, n, m). ARules xs n m) listAlertRules)"
| "console A ch q CreateAlertRule_r = Some (on_core ARule (createAlertRule (core_env A) (decode_create_rule (hr_body q))))"
| "console A ch q (PatchAlertRule_r i) = Some (on_core ARule (patchAlertRule (core_env A) i (decode_patch_rule (hr_body q))))"
| "console A ch q (DeleteAlertRule_r i) = Some (on_core (\<lambda>_. ANothing) (deleteAlertRule (core_env A) i))"
| "console A ch q ListNotifications_r = Some (on_core (\<lambda>(xs, n). ANotifications xs n) (listAlertNotifications (hr_query q ''limit'')))"
| "console A ch q GetSettings_r = Some (on_core AView (getNotificationSettings (core_env A)))"
| "console A ch q PutSettings_r =
     Some (on_core AView (putNotificationSettings (core_env A) (cho_nonces ch) (decode_settings (hr_body q))))"
| "console A ch q GetSink_r = Some (on_sink (\<lambda>(u, b, xs). ASink u b xs) (getSink (cfg (core_env A))))"
| "console A ch q SinkBreak_r = Some (on_sink AFail sinkBreak)"
| "console A ch q SinkFix_r = Some (on_sink AFail sinkFix)"
| "console A ch q _ = None"

text \<open>The routes anyone may call.\<close>

fun public :: "api_env \<Rightarrow> choices \<Rightarrow> http_request \<Rightarrow> route \<Rightarrow> app \<Rightarrow> answer reply \<times> app" where
  "public A ch q Healthz = on_core AText healthz"
| "public A ch q Readyz = on_core AText readyz"
| "public A ch q Collectors = (\<lambda>s. (Reply 200 (ACollectors (srv_metrics (plg_core (app_play s)))), s))"
| "public A ch q (Ingest path) =
     on_core AText (ingest (server_env.truncate (core_env A)) (cho_clk ch) (cho_nonces ch) path (hr_body q) (hr_headers q))"
| "public A ch q SinkEcho = on_sink AText (sinkReceive (cfg (core_env A)) (cho_ts ch) (hr_headers q) (hr_body q))"
| "public A ch q Login = on_core (\<lambda>(c, email). ALogin c email) (login (core_env A) (cho_clk ch 0) (decode_login (hr_body q)))"
| "public A ch q Logout = on_core ALogout (logout (core_env A) (hr_cookies q))"
| "public A ch q GetConfig_r = on_core AConfig (getConfig (core_env A))"
| "public A ch q PlayBootstrap =
     on_play (\<lambda>(c, m). APlay c m) (playgroundBootstrap (core_env A)
       \<lparr>br_session = cho_session ch, br_secret = cho_secret ch, br_nonce = fst (cho_nonces ch), br_path = cho_path ch\<rparr>
       (play_request_of ch q))"
| "public A ch q PlayStatus = on_play APlayStatus (playgroundStatus (core_env A) (play_request_of ch q))"
| "public A ch q PlayStream = on_play AStream (playgroundStream (core_env A) (play_request_of ch q))"
| "public A ch q PlaySimulate =
     on_play (\<lambda>(n, xs). ASimulated n xs) (playgroundSimulate (core_env A) (cho_sim ch) (net_post (core_env A) ch)
       (play_request_of ch q) (decode_simulate (hr_body q)))"
| "public A ch q PlayBreak = on_play AText (playgroundSetFail (core_env A) True (play_request_of ch q))"
| "public A ch q PlayFix = on_play AText (playgroundSetFail (core_env A) False (play_request_of ch q))"
| "public A ch q PlayReplay = on_play AText (playgroundReplay (core_env A) (cho_clk ch 0) (play_request_of ch q))"
| "public A ch q (PlayHook sid) =
     on_play AText (playgroundReceiver (core_env A) (cho_ms ch) (cho_ts ch) (hr_headers q) (hr_body q) sid)"
| "public A ch q _ = (\<lambda>s. (not_found, s))"

definition dispatch :: "api_env \<Rightarrow> choices \<Rightarrow> http_request \<Rightarrow> route \<Rightarrow> app \<Rightarrow> answer reply \<times> app" where
  "dispatch A ch q rt =
     (case console A ch q rt of
        Some h \<Rightarrow> guarded (core_env A) (hr_cookies q) h
      | None \<Rightarrow> public A ch q rt)"

definition methods :: "string list" where
  "methods = [''GET'', ''POST'', ''PUT'', ''PATCH'', ''DELETE'']"

definition handle :: "api_env \<Rightarrow> choices \<Rightarrow> http_request \<Rightarrow> app \<Rightarrow> answer reply \<times> app" where
  "handle A ch q s =
     (let demo = DemoMode (cfg (core_env A))
      in case find_route demo (hr_method q) (hr_path q) of
           Some rt \<Rightarrow> dispatch A ch q rt s
         | None \<Rightarrow>
             (if list_ex (\<lambda>m. find_route demo m (hr_path q) \<noteq> None) methods then Error 405 ''Method Not Allowed'' else not_found, s))"

end
