(* ===== verification/NotificationClaims.thy ===== *)
theory NotificationClaims
  imports Notification
begin

text \<open>
  What the notifications promise: the SMTP session never offers the password in the clear and
  writes exactly the five headers of the message, and a template is rendered as a reference
  renderer reads it, whatever the order in which Go visits the variables.
\<close>

section \<open>Email\<close>

lemma smtp_try_fst: "fst (smtp_try w err act rest) = Inr () \<longleftrightarrow> err = None \<and> fst rest = Inr ()"
  by (cases err) (auto simp: smtp_try_def)

lemma smtp_try_snd: "snd (smtp_try w err act rest) = act # (if err = None then snd rest else [])"
  by (cases err) (auto simp: smtp_try_def)

lemmas smtp_simps = smtp_Send_def smtp_login_def smtp_deliver_def Let_def smtp_try_snd smtp_try_fst

text \<open>
  C31. The sender never offers the account's password in the clear: whenever it issues the
  authentication, a STARTTLS step has succeeded before, or the mail server is on the same host;
  and what it offers are the configured user name and password.
\<close>

theorem smtp_credentials:
  assumes "snd (smtp_Send n c recipient subject body) = before @ Auth u p # after"
  shows "u = smtp_username c \<and> p = smtp_password c
    \<and> (StartTLS \<in> set before \<and> net_starttls n = None \<or> smtp_host c \<in> {''localhost'', ''127.0.0.1''})"
  using assms
  by (auto simp: smtp_simps append_eq_Cons_conv Cons_eq_append_conv split: if_splits option.splits)

lemma Send_write: "Write m \<in> set (snd (smtp_Send n c recipient subject body)) \<Longrightarrow>
   m = buildMessage (smtp_from c) recipient subject body"
  by (auto simp: smtp_simps buildMessage_def sanitizeHeader_def split: if_splits option.splits)

lemma smtp_sent_iff:
  "fst (smtp_Send n c recipient subject body) = Inr () \<longleftrightarrow>
     smtp_host c \<noteq> [] \<and> net_dial n = None \<and> net_client n = None
   \<and> (if net_starttls_offered n then net_starttls n = None
      else smtp_username c = [] \<or> smtp_host c = ''localhost'' \<or> smtp_host c = ''127.0.0.1'')
   \<and> (smtp_username c = [] \<or> net_auth n = None)
   \<and> net_mail n = None \<and> net_rcpt n = None \<and> net_data n = None \<and> net_write n = None
   \<and> net_close n = None \<and> net_quit n = None"
  by (auto simp: smtp_simps split: option.splits)

definition demo_net :: smtp_net where
  "demo_net = \<lparr>net_dial = None, net_client = None, net_starttls_offered = True, net_starttls = None,
     net_auth = None, net_mail = None, net_rcpt = None, net_data = None, net_write = None,
     net_close = None, net_quit = None\<rparr>"

definition demo_smtp :: SMTPConfig where
  "demo_smtp = \<lparr>smtp_host = ''mail'', smtp_port = 587, smtp_username = ''u'', smtp_password = ''p'',
     smtp_from = ''f@g''\<rparr>"

theorem smtp_credentials_witness:
  "net_starttls_offered demo_net \<and>
   (StartTLS \<in> set [Dial ''mail'' 587, StartTLS] \<and> net_starttls demo_net = None
    \<or> smtp_host demo_smtp \<in> {''localhost'', ''127.0.0.1''})"
proof -
  have "snd (smtp_Send demo_net demo_smtp ''a@b'' ''s'' ''t'') =
      [Dial ''mail'' 587, StartTLS] @ Auth ''u'' ''p'' #
      [Mail ''f@g'', Rcpt ''a@b'', Data, Write (buildMessage ''f@g'' ''a@b'' ''s'' ''t''), EndData, Quit]"
    by code_simp
  from smtp_credentials [OF this] show ?thesis by (simp add: demo_net_def)
qed

text \<open>
  How a mail reader splits a message: lines end with a line feed, a carriage return before it
  is dropped, and the first empty line ends the headers.
\<close>

definition chomp :: "string \<Rightarrow> string" where
  "chomp l = (if l \<noteq> [] \<and> last l = CHR 0x0D then butlast l else l)"

fun read_headers :: "nat \<Rightarrow> string \<Rightarrow> string list \<times> string" where
  "read_headers 0 m = ([], m)"
| "read_headers (Suc n) m =
     (let l = chomp (takeWhile (\<lambda>c. c \<noteq> CHR 0x0A) m); rest = drop 1 (dropWhile (\<lambda>c. c \<noteq> CHR 0x0A) m)
      in if l = [] then ([], rest) else let (hs, body) = read_headers n rest in (l # hs, body))"

definition plain_line :: "string \<Rightarrow> bool" where
  "plain_line l \<longleftrightarrow> l \<noteq> [] \<and> CHR 0x0A \<notin> set l \<and> CHR 0x0D \<notin> set l"

lemma read_headers_lines:
  "list_all plain_line ls \<Longrightarrow>
   read_headers (Suc (length ls)) (concat (map (\<lambda>l. l @ crlf) ls) @ crlf @ body) = (ls, body)"
proof (induction ls)
  case Nil
  then show ?case by (simp add: chomp_def)
next
  case (Cons l ls)
  define rest where "rest = concat (map (\<lambda>l. l @ crlf) ls) @ crlf @ body"
  have l: "CHR 0x0A \<notin> set l" "CHR 0x0D \<notin> set l" "l \<noteq> []" using Cons.prems by (auto simp: plain_line_def)
  then have "takeWhile (\<lambda>c. c \<noteq> CHR 0x0A) (l @ crlf @ rest) = l @ [CHR 0x0D]"
    and "dropWhile (\<lambda>c. c \<noteq> CHR 0x0A) (l @ crlf @ rest) = CHR 0x0A # rest"
    by (simp_all add: takeWhile_append dropWhile_append)
  then have "read_headers (Suc (Suc (length ls))) (l @ crlf @ rest) =
      (let (hs, body) = read_headers (Suc (length ls)) rest in (l # hs, body))"
    using l by (subst read_headers.simps(2)) (simp add: chomp_def)
  with Cons show ?case by (simp add: rest_def)
qed

lemma set_sanitizeHeader: "set (sanitizeHeader s) = set s - {CHR 0x0D, CHR 0x0A}"
  by (auto simp: sanitizeHeader_def)

text \<open>
  C32. No recipient, sender or subject, whatever line breaks it contains, adds a header: a reader
  finds in the message that is written exactly the five headers of the sender, each with the
  value stripped of line breaks, and the rendered body, unchanged, as the body; and the
  addresses of the envelope are single lines.
\<close>

theorem email_headers:
  assumes "snd (smtp_Send n c recipient subject body) = acts"
  shows "(\<forall>m. Write m \<in> set acts \<longrightarrow> read_headers 6 m =
        ([''From: '' @ sanitizeHeader (smtp_from c), ''To: '' @ sanitizeHeader recipient,
          ''Subject: '' @ sanitizeHeader subject, ''MIME-Version: 1.0'',
          ''Content-Type: text/plain; charset=UTF-8''], body))
    \<and> (\<forall>a. Mail a \<in> set acts \<longrightarrow> a = sanitizeHeader (smtp_from c) \<and> set a \<inter> {CHR 0x0D, CHR 0x0A} = {})
    \<and> (\<forall>a. Rcpt a \<in> set acts \<longrightarrow> a = sanitizeHeader recipient \<and> set a \<inter> {CHR 0x0D, CHR 0x0A} = {})"
proof -
  let ?ls = "[''From: '' @ sanitizeHeader (smtp_from c), ''To: '' @ sanitizeHeader recipient,
          ''Subject: '' @ sanitizeHeader subject, ''MIME-Version: 1.0'',
          ''Content-Type: text/plain; charset=UTF-8'']"
  have "list_all plain_line ?ls" by (simp add: plain_line_def set_sanitizeHeader)
  from read_headers_lines [OF this, of body]
  have w: "read_headers 6 m = (?ls, body)" if "Write m \<in> set acts" for m
    using Send_write [of m n c recipient subject body] assms that
    by (simp add: buildMessage_def eval_nat_numeral del: read_headers.simps)
  have e: "a = sanitizeHeader (smtp_from c) \<and> set a \<inter> {CHR 0x0D, CHR 0x0A} = {}" if "Mail a \<in> set acts" for a
    using assms that by (auto simp: smtp_simps set_sanitizeHeader split: if_splits option.splits)
  have r: "a = sanitizeHeader recipient \<and> set a \<inter> {CHR 0x0D, CHR 0x0A} = {}" if "Rcpt a \<in> set acts" for a
    using assms that by (auto simp: smtp_simps set_sanitizeHeader split: if_splits option.splits)
  show ?thesis
    using w e r by blast
qed

theorem email_headers_witness:
  "read_headers 6 (buildMessage ''f@g'' ''a@b'' (''hi'' @ crlf @ ''Bcc: x@y'') ''t'') =
     ([''From: f@g'', ''To: a@b'', ''Subject: hiBcc: x@y'', ''MIME-Version: 1.0'',
       ''Content-Type: text/plain; charset=UTF-8''], ''t'')"
  using email_headers [OF refl, where n = demo_net and c = demo_smtp and recipient = "''a@b''" and subject = "''hi'' @ crlf @ ''Bcc: x@y''" and body = "''t''"]
  by (simp add: smtp_simps demo_net_def demo_smtp_def sanitizeHeader_def buildMessage_def)

section \<open>Templates\<close>

text \<open>
  A template as a reader sees it: literal text, and variables between double braces.  The
  segments are those of a well-formed template when no literal contains an opening brace and
  no key contains a brace.
\<close>

datatype segment = Lit string | Var string

fun seg_text :: "segment \<Rightarrow> string" where
  "seg_text (Lit l) = l"
| "seg_text (Var k) = placeholder k"

fun seg_ok :: "segment \<Rightarrow> bool" where
  "seg_ok (Lit l) \<longleftrightarrow> CHR ''{'' \<notin> set l"
| "seg_ok (Var k) \<longleftrightarrow> CHR ''{'' \<notin> set k \<and> CHR ''}'' \<notin> set k"

definition template_text :: "segment list \<Rightarrow> string" where
  "template_text segs = concat (map seg_text segs)"

fun fill :: "string \<Rightarrow> string \<Rightarrow> segment \<Rightarrow> segment" where
  "fill k v (Lit l) = Lit l"
| "fill k v (Var j) = (if j = k then Lit v else Var j)"

lemma template_text_Cons [simp]: "template_text (g # gs) = seg_text g @ template_text gs"
  by (simp add: template_text_def)

lemma template_text_Nil [simp]: "template_text [] = []"
  by (simp add: template_text_def)

lemma replace_all_skip:
  "CHR ''{'' \<notin> set l \<Longrightarrow> replace_all (l @ s) (placeholder k) v = l @ replace_all s (placeholder k) v"
proof (induction l)
  case (Cons c l)
  then have "\<not> has_prefix (c # l @ s) (placeholder k)" by (auto simp: has_prefix_iff placeholder_def)
  with Cons show ?case by (simp add: replace_all_miss)
qed simp

lemma brace_key_unique:
  assumes "CHR ''}'' \<notin> set j" "CHR ''}'' \<notin> set k" and "j @ ''}}'' @ s = k @ ''}}'' @ t"
  shows "j = k"
proof -
  have "takeWhile (\<lambda>c. c \<noteq> CHR ''}'') (j @ ''}}'' @ s) = j" using assms(1) by (subst takeWhile_append2) auto
  moreover have "takeWhile (\<lambda>c. c \<noteq> CHR ''}'') (k @ ''}}'' @ t) = k" using assms(2) by (subst takeWhile_append2) auto
  ultimately show ?thesis using assms(3) by simp
qed

lemma replace_all_other:
  assumes j: "seg_ok (Var j)" and k: "seg_ok (Var k)" and "j \<noteq> k"
  shows "replace_all (placeholder j @ s) (placeholder k) v = placeholder j @ replace_all s (placeholder k) v"
proof -
  have 1: "\<not> has_prefix (CHR ''{'' # CHR ''{'' # j @ ''}}'' @ s) (placeholder k)"
    using brace_key_unique [of j k] assms by (auto simp: has_prefix_iff placeholder_def)
  have 2: "\<not> has_prefix (CHR ''{'' # j @ ''}}'' @ s) (placeholder k)"
    using j by (cases j) (auto simp: has_prefix_iff placeholder_def)
  show ?thesis
    using j 1 2 replace_all_skip [of "j @ ''}}''" s k v]
    by (simp add: placeholder_def [of j] replace_all_miss)
qed

lemma replace_all_template:
  "list_all seg_ok segs \<Longrightarrow> seg_ok (Var k) \<Longrightarrow>
   replace_all (template_text segs) (placeholder k) v = template_text (map (fill k v) segs)"
proof (induction segs)
  case (Cons g segs)
  then show ?case
  proof (cases g)
    case (Lit l)
    with Cons show ?thesis by (simp add: replace_all_skip)
  next
    case (Var j)
    have "placeholder k \<noteq> []" by (simp add: placeholder_def)
    with Var Cons show ?thesis
      by (cases "j = k") (auto simp: replace_all_hit replace_all_other simp del: seg_ok.simps)
  qed
qed simp

lemma fill_ok: "seg_ok g \<Longrightarrow> CHR ''{'' \<notin> set v \<Longrightarrow> seg_ok (fill k v g)"
  by (cases g) auto

definition fill_all :: "(string \<times> string) list \<Rightarrow> segment \<Rightarrow> segment" where
  "fill_all vars g = fold (\<lambda>(k, v). fill k v) vars g"

lemma fill_all_Nil [simp]: "fill_all [] = (\<lambda>g. g)"
  by (rule ext) (simp add: fill_all_def)

lemma fill_all_Lit [simp]: "fill_all vars (Lit l) = Lit l"
  by (induction vars) (auto simp: fill_all_def)

lemma fill_all_Var:
  "distinct (map fst vars) \<Longrightarrow> fill_all vars (Var k) = (case map_of vars k of Some v \<Rightarrow> Lit v | None \<Rightarrow> Var k)"
proof (induction vars)
  case (Cons p vars)
  then show ?case by (cases p) (auto simp: fill_all_def fill_all_Lit [unfolded fill_all_def] split: option.splits)
qed (simp add: fill_all_def)

definition vars_ok :: "(string \<times> string) list \<Rightarrow> bool" where
  "vars_ok vars \<longleftrightarrow> distinct (map fst vars) \<and> list_all (\<lambda>(k, v). seg_ok (Var k) \<and> CHR ''{'' \<notin> set v) vars"

lemma fill_all_ok:
  "seg_ok g \<Longrightarrow> list_all (\<lambda>(k, v). seg_ok (Var k) \<and> CHR ''{'' \<notin> set v) vars \<Longrightarrow> seg_ok (fill_all vars g)"
  by (induction vars arbitrary: g) (auto simp: fill_all_def split_beta intro: fill_ok)

lemma fold_replace_template:
  "list_all seg_ok segs \<Longrightarrow> list_all (\<lambda>(k, v). seg_ok (Var k) \<and> CHR ''{'' \<notin> set v) vars \<Longrightarrow>
   fold (\<lambda>(key, val) r. replace_all r (placeholder key) val) vars (template_text segs)
     = template_text (map (fill_all vars) segs)"
proof (induction vars arbitrary: segs)
  case (Cons p vars)
  obtain k v where p: "p = (k, v)" by (cases p)
  with Cons.prems have "list_all seg_ok (map (fill k v) segs)"
    by (auto simp: list_all_iff intro: fill_ok)
  with Cons p show ?case
    by (simp add: replace_all_template fill_all_def comp_def del: seg_ok.simps)
qed simp

lemma index_skip:
  "CHR ''{'' \<notin> set l \<Longrightarrow> index (l @ s) ''{{'' = map_option (\<lambda>n. length l + n) (index s ''{{'')"
  by (cases "index s ''{{''"; induction l) (auto simp: has_prefix_def)

lemma index_skip_close:
  "CHR ''}'' \<notin> set l \<Longrightarrow> index (l @ ''}}'' @ s) ''}}'' = Some (length l)"
  by (induction l) (auto simp: has_prefix_def index.simps)

fun first_var :: "segment list \<Rightarrow> string option" where
  "first_var [] = None"
| "first_var (Lit l # gs) = first_var gs"
| "first_var (Var k # gs) = Some k"

lemma placeholder_scan:
  assumes "list_all seg_ok segs"
  shows "(case index (template_text segs) ''{{'' of
       None \<Rightarrow> first_var segs = None
     | Some start \<Rightarrow> (\<exists>k. first_var segs = Some k \<and> index (drop start (template_text segs)) ''}}'' = Some (length k + 2)
         \<and> take (length k) (drop (start + 2) (template_text segs)) = k))"
  using assms
proof (induction segs rule: first_var.induct)
  case (2 l gs)
  then show ?case by (auto simp: index_skip split: option.splits)
next
  case (3 k gs)
  then have "index (placeholder k @ template_text gs) ''}}'' = Some (length k + 2)"
    using index_skip_close [of "''{{'' @ k" "template_text gs"] by (simp add: placeholder_def)
  with 3 show ?case by (auto simp: placeholder_def has_prefix_def)
qed simp


text \<open>A reference renderer: the segments from left to right, each variable looked up once.\<close>

fun render_ref :: "(string \<times> string) list \<Rightarrow> segment list \<Rightarrow> string + string" where
  "render_ref vars [] = Inr []"
| "render_ref vars (Lit l # gs) = map_sum id (\<lambda>r. l @ r) (render_ref vars gs)"
| "render_ref vars (Var k # gs) =
     (case map_of vars k of
        None \<Rightarrow> Inl k
      | Some v \<Rightarrow> map_sum id (\<lambda>r. v @ r) (render_ref vars gs))"

lemma render_ref_fill:
  assumes "distinct (map fst vars)"
  shows "render_ref vars segs =
     (case first_var (map (fill_all vars) segs) of
        None \<Rightarrow> Inr (template_text (map (fill_all vars) segs)) | Some k \<Rightarrow> Inl k)"
  using assms
  by (induction vars segs rule: render_ref.induct) (auto simp: fill_all_Var split: option.splits)


text \<open>An order in which Go may visit the entries of a map.\<close>

definition iteration_of :: "(string \<times> string) list \<Rightarrow> (string \<times> string) list \<Rightarrow> bool" where
  "iteration_of vars vs \<longleftrightarrow> distinct (map fst vs) \<and> set vs = set vars"

lemma render_ref_order:
  assumes "vars_ok vars" "iteration_of vars vs"
  shows "render_ref vs segs = render_ref vars segs"
proof -
  have "map_of vs = map_of vars" using assms by (simp add: vars_ok_def iteration_of_def map_of_inject_set)
  then show ?thesis by (induction vs segs rule: render_ref.induct) (auto split: option.splits)
qed

text \<open>
  C16. On a template made of text without opening braces and of variables whose names have no brace, and
  when no value contains an opening brace, substitution agrees with the reference renderer:
  the text with every variable replaced by its value, in whatever order the map is visited, or
  the error that names the first variable without a value.
\<close>

theorem substitute_correct:
  assumes "list_all seg_ok segs" and "vars_ok vars" and "iteration_of vars (map_order R n vars)"
  shows "substitute R n (template_text segs) vars =
     (case render_ref vars segs of
        Inl key \<Rightarrow> Inl (ErrMissingVar (go_quote R key))
      | Inr r \<Rightarrow> Inr r)"
proof -
  define vs where "vs = map_order R n vars"
  define gs where "gs = map (fill_all vs) segs"
  have vs: "distinct (map fst vs)" "list_all (\<lambda>(k, v). seg_ok (Var k) \<and> CHR ''{'' \<notin> set v) vs"
    using assms by (auto simp: vs_def iteration_of_def vars_ok_def list_all_iff)
  have ok: "list_all seg_ok gs"
    using assms(1) fill_all_ok [OF _ vs(2)] by (simp add: gs_def list_all_iff)
  have ref: "render_ref vars segs = (case first_var gs of None \<Rightarrow> Inr (template_text gs) | Some k \<Rightarrow> Inl k)"
    using render_ref_order [OF assms(2,3), of segs, folded vs_def] render_ref_fill [OF vs(1), of segs]
    unfolding gs_def by simp
  have "fold (\<lambda>(key, val) r. replace_all r (placeholder key) val) vs (template_text segs) = template_text gs"
    unfolding gs_def by (rule fold_replace_template [OF assms(1) vs(2)])
  then show ?thesis
    using placeholder_scan [OF ok] ref
    by (auto simp: substitute_def vs_def [symmetric] split: option.splits)
qed

definition demo_render :: render_env where
  "demo_render = \<lparr>go_quote = (\<lambda>s. [CHR 0x22] @ s @ [CHR 0x22]), map_order = (\<lambda>k vs. if k = 0 then vs else rev vs)\<rparr>"

theorem substitute_correct_witness:
  "substitute demo_render 1 ''Rule {{name}}: {{value}} > {{limit}}'' [(''name'', ''r''), (''value'', ''7'')]
     = Inl (ErrMissingVar ([CHR 0x22] @ ''limit'' @ [CHR 0x22]))
   \<and> substitute demo_render 1 ''Rule {{name}}: {{value}}'' [(''name'', ''r''), (''value'', ''7'')] = Inr ''Rule r: 7''"
  using substitute_correct [of "[Lit ''Rule '', Var ''name'', Lit '': '', Var ''value'', Lit '' > '', Var ''limit'']"
      "[(''name'', ''r''), (''value'', ''7'')]" demo_render 1]
    substitute_correct [of "[Lit ''Rule '', Var ''name'', Lit '': '', Var ''value'']"
      "[(''name'', ''r''), (''value'', ''7'')]" demo_render 1]
  by (simp add: vars_ok_def iteration_of_def demo_render_def template_text_def placeholder_def insert_commute)

text \<open>
  With an opening brace in a value the order matters: a rule named like a placeholder is rendered or
  refused, depending on which entry of the map comes first.
\<close>

lemma brace_in_value:
  "substitute demo_render 0 ''Rule {{name}}'' [(''name'', ''{{limit}}''), (''limit'', ''5'')] = Inr ''Rule 5''"
  "substitute demo_render 1 ''Rule {{name}}'' [(''name'', ''{{limit}}''), (''limit'', ''5'')]
     = Inl (ErrMissingVar ([CHR 0x22] @ ''limit'' @ [CHR 0x22]))"
  by code_simp+

end
