(* ===== verification/Alerting.thy ===== *)
theory Alerting
  imports NotificationClaims Stats
begin

text \<open>
  \<^verbatim>\<open>internal/alerting\<close>: the evaluator of alert rules (\<^verbatim>\<open>evaluator.go\<close>) and the messages it keeps
  after a failed send (\<^verbatim>\<open>delivery_error.go\<close>).  The state is the database and the list of the
  sends undertaken so far, each with its result and what went over the wire.  Parameters: the
  mail servers and Slack (one behaviour per send; \<open>None\<close> when the evaluator has no such sender),
  and the printing of floating-point numbers of more than fifteen digits.
\<close>

section \<open>State\<close>

record alert_env =
  al_render :: render_env
  al_enc :: "encryptor option"
  al_cfg :: config
  al_notifier :: "(nat \<Rightarrow> smtp_net) option"
  al_slack :: "(nat \<Rightarrow> slack_post \<Rightarrow> slack_reply) option"
  al_p95 :: "int list \<Rightarrow> float64"
  al_trunc_hour :: "time \<Rightarrow> time"
  al_format_large :: "float64 \<Rightarrow> string"

record attempt =
  at_rule :: AlertRule
  at_value :: float64
  at_result :: "unit result"
  at_mail :: "smtp_action list"
  at_posts :: "slack_post list"

record evaluator =
  evr_db :: db
  evr_attempts :: "attempt list"

section \<open>The message\<close>

text \<open>
  \<^verbatim>\<open>strconv.FormatFloat\<close> of a number of tenths: the shortest decimal that reads back as the
  same number is the number of tenths itself, as long as it has at most fifteen digits.
\<close>

definition format_tenths :: "(float64 \<Rightarrow> string) \<Rightarrow> int \<Rightarrow> string" where
  "format_tenths large k =
     (if \<bar>k\<bar> < 10 ^ 15
      then (if k < 0 then ''-'' else []) @ itoa (\<bar>k\<bar> div 10)
           @ (if \<bar>k\<bar> mod 10 = 0 then [] else ''.'' @ itoa (\<bar>k\<bar> mod 10))
      else large (fdiv (float_of_int k) 10))"

text \<open>\<^verbatim>\<open>math.Round\<close> of a negative number that rounds to zero is negative zero.\<close>

definition formatMetric :: "(float64 \<Rightarrow> string) \<Rightarrow> string \<Rightarrow> float64 \<Rightarrow> string" where
  "formatMetric large unit v =
     (if unit = ''COUNT''
      then (if v < 0 \<and> math_round v = 0 then ''-0'' else itoa (math_round v))
      else (let k = math_round (fmul v 10)
            in if v < 0 \<and> k = 0 then ''-0'' else format_tenths large k))"

definition alertRequest :: "alert_env \<Rightarrow> AlertRule \<Rightarrow> float64 \<Rightarrow> notif_request result" where
  "alertRequest E rule current =
     (case TypeForRule (al_render E) (rule_type rule) of
        Inl e \<Rightarrow> Inl e
      | Inr typ \<Rightarrow>
          Inr \<lparr>nr_type = typ, nr_recipient = rule_notification_dest rule,
               nr_vars =
                 [(''resource_name'', rule_name rule),
                  (''limit'', formatMetric (al_format_large E) (rule_unit rule) (rule_threshold rule)),
                  (''current_value'', formatMetric (al_format_large E) (rule_unit rule) current)],
               nr_custom_subject = (case rule_subject_template rule of None \<Rightarrow> [] | Some t \<Rightarrow> t),
               nr_custom_body = (case rule_body_template rule of None \<Rightarrow> [] | Some t \<Rightarrow> t)\<rparr>)"

text \<open>\<open>n\<close> is the number of the send.\<close>

definition sendNotification ::
  "alert_env \<Rightarrow> AlertRule \<Rightarrow> float64 \<Rightarrow> nat \<Rightarrow> db
   \<Rightarrow> (unit result \<times> smtp_action list \<times> slack_post list) \<times> db" where
  "sendNotification E rule current n d =
     (case alertRequest E rule current of
        Inl e \<Rightarrow> ((Inl e, [], []), d)
      | Inr req \<Rightarrow>
          if rule_notification_type rule = ''email''
          then (case al_notifier E of
                  None \<Rightarrow> ((Inl (ErrText ''email notifier is not configured''), [], []), d)
                | Some net \<Rightarrow>
                    (case service_Send (al_render E) (al_enc E) (al_cfg E) (net n) req d of
                       ((r, acts), d') \<Rightarrow> ((r, acts, []), d')))
          else if rule_notification_type rule = ''slack_dm''
          then (case al_slack E of
                  None \<Rightarrow> ((Inl (ErrText ''slack is not configured''), [], []), d)
                | Some http \<Rightarrow>
                    (case RenderRequest (al_render E) req of
                       Inl e \<Rightarrow> ((Inl e, [], []), d)
                     | Inr (subject, body) \<Rightarrow>
                         (case resolving_PostDM (al_enc E) (al_cfg E) (http n)
                                 (rule_notification_dest rule) (DMText subject body) d of
                            ((r, posts), d') \<Rightarrow> ((r, [], posts), d'))))
          else ((Inl (ErrText (''unknown notification_type: '' @ rule_notification_type rule)), [], []), d))"

section \<open>What the console shows after a failed send\<close>

definition clip :: "string \<Rightarrow> nat \<Rightarrow> string" where
  "clip s0 n = (let s = trim_space s0 in if length s \<le> n then s else take n s @ [CHR 0xE2, CHR 0x80, CHR 0xA6])"

definition slackDeliveryError :: "string \<Rightarrow> string" where
  "slackDeliveryError raw =
     (if contains raw ''not configured'' then ''Set SLACK_BOT_TOKEN on the Tuma server to send Slack DMs.''
      else if contains raw ''invalid_auth'' \<or> contains raw ''token_revoked'' \<or> contains raw ''not_authed''
        \<or> contains raw ''account_inactive''
      then ''Slack rejected the bot token. Check SLACK_BOT_TOKEN and reinstall the app if it was revoked.''
      else if contains raw ''missing_scope''
      then ''The Slack app is missing chat:write or im:write. Add those scopes and reinstall the app.''
      else if contains raw ''channel_not_found'' \<or> contains raw ''user_not_found''
        \<or> contains raw ''invalid slack member''
      then ''Slack could not find that member. Check the member ID.''
      else if contains raw ''messages_tab_disabled'' \<or> contains raw ''cannot_dm_bot''
        \<or> contains raw ''ekm_access_denied'' \<or> contains raw ''access_denied'' \<or> contains raw ''restricted_action''
      then ''Slack blocked this DM. Allow messages from the Tuma bot for that member, or confirm the member ID.''
      else if raw = [] then ''Slack DM failed.''
      else ''Slack DM failed: '' @ clip raw 180)"

definition emailDeliveryError :: "string \<Rightarrow> string" where
  "emailDeliveryError raw =
     (if contains raw ''smtp host is not configured''
      then ''Set SMTP_HOST, SMTP_PORT, SMTP_USERNAME, SMTP_PASSWORD, and SMTP_FROM on the Tuma server to send email.''
      else if contains raw ''smtp auth'' then ''SMTP login failed. Check SMTP_USERNAME and SMTP_PASSWORD.''
      else if contains raw ''STARTTLS'' \<or> contains raw ''starttls''
      then ''The SMTP server refused TLS. Check SMTP_HOST and SMTP_PORT.''
      else if raw = [] then ''Email failed.''
      else ''Email failed: '' @ clip raw 180)"

definition deliveryErrorText :: "AlertRule \<Rightarrow> go_error \<Rightarrow> string" where
  "deliveryErrorText rule err =
     (let raw = error_string err
      in if rule_notification_type rule = ''slack_dm'' then slackDeliveryError raw
         else if rule_notification_type rule = ''email'' then emailDeliveryError raw
         else clip raw 200)"

section \<open>Evaluation\<close>

definition currentValue :: "AlertRule \<Rightarrow> PlatformMetrics \<Rightarrow> float64 query" where
  "currentValue rule m d =
     (if rule_type rule = ''OPEN_ISSUES'' then (Inr (float_of_int (int (pm_open_issues m))), d)
      else if rule_type rule = ''DELIVERY_SUCCESS''
      then (let total = pm_delivered_24h m + pm_failed_24h m
            in if total = 0 then (Inl errNoSamples, d)
               else (Inr (fmul (fdiv (float_of_int (int (pm_delivered_24h m))) (float_of_int (int total))) 100), d))
      else if rule_type rule = ''UNRESOLVED_TIME'' then OldestOpenIssueAge d
      else (Inl (ErrText (''unknown rule_type: '' @ rule_type rule)), d))"

definition isBreached :: "AlertRule \<Rightarrow> float64 \<Rightarrow> bool" where
  "isBreached rule current \<longleftrightarrow>
     (if rule_type rule = ''DELIVERY_SUCCESS'' then current < rule_threshold rule else rule_threshold rule < current)"

definition sameThreshold :: "float64 \<Rightarrow> float64 \<Rightarrow> bool" where
  "sameThreshold a b \<longleftrightarrow> \<bar>fsub a b\<bar> < f64 (1 / 1000)"

definition noteDeliveryError :: "AlertRule \<Rightarrow> go_error \<Rightarrow> db \<Rightarrow> db" where
  "noteDeliveryError rule sendErr d =
     (let msg = deliveryErrorText rule sendErr
      in if rule_delivery_error rule = Some msg then d
         else snd (SetAlertRuleDeliveryError (rule_id rule) (Some msg) d))"

definition clearDeliveryError :: "AlertRule \<Rightarrow> db \<Rightarrow> db" where
  "clearDeliveryError rule d =
     (if rule_delivery_error rule = None then d else snd (SetAlertRuleDeliveryError (rule_id rule) None d))"

definition clearFiring :: "AlertRule \<Rightarrow> db \<Rightarrow> db" where
  "clearFiring rule d =
     (if rule_firing_threshold rule = None then d else snd (SetAlertRuleFiring (rule_id rule) None d))"

text \<open>What follows a delivered alert: the log entry and the mark on the rule; their errors are only logged.\<close>

definition record_sent :: "AlertRule \<Rightarrow> float64 \<Rightarrow> db \<Rightarrow> db" where
  "record_sent rule current d =
     (let d1 = clearDeliveryError rule d;
          d2 = snd (RecordAlertNotification
                 \<lparr>an_id = 0, an_alert_rule_id = rule_id rule, an_rule_name = rule_name rule,
                  an_rule_type = rule_type rule, an_threshold = rule_threshold rule,
                  an_current_value = current, an_fired_at = 0\<rparr> d1)
      in snd (SetAlertRuleFiring (rule_id rule) (Some (rule_threshold rule)) d2))"

definition send_alert :: "alert_env \<Rightarrow> AlertRule \<Rightarrow> float64 \<Rightarrow> evaluator \<Rightarrow> evaluator" where
  "send_alert E rule current s =
     (case sendNotification E rule current (length (evr_attempts s)) (evr_db s) of
        ((r, acts, posts), d) \<Rightarrow>
          \<lparr>evr_db = (case r of Inl e \<Rightarrow> noteDeliveryError rule e d | Inr _ \<Rightarrow> record_sent rule current d),
           evr_attempts = evr_attempts s @
             [\<lparr>at_rule = rule, at_value = current, at_result = r, at_mail = acts, at_posts = posts\<rparr>]\<rparr>)"

text \<open>The body of the loop of \<^verbatim>\<open>evaluateOnce\<close>.\<close>

definition evaluate_rule :: "alert_env \<Rightarrow> PlatformMetrics \<Rightarrow> AlertRule \<Rightarrow> evaluator \<Rightarrow> evaluator" where
  "evaluate_rule E m rule s =
     (if \<not> rule_active rule then s\<lparr>evr_db := clearFiring rule (evr_db s)\<rparr>
      else case currentValue rule m (evr_db s) of
             (Inl _, d) \<Rightarrow> s\<lparr>evr_db := d\<rparr>
           | (Inr current, d) \<Rightarrow>
               if \<not> isBreached rule current then s\<lparr>evr_db := clearFiring rule d\<rparr>
               else (case rule_firing_threshold rule of
                       Some f \<Rightarrow>
                         if sameThreshold f (rule_threshold rule) then s\<lparr>evr_db := d\<rparr>
                         else send_alert E rule current (s\<lparr>evr_db := d\<rparr>)
                     | None \<Rightarrow> send_alert E rule current (s\<lparr>evr_db := d\<rparr>)))"

definition evaluateOnce :: "alert_env \<Rightarrow> evaluator \<Rightarrow> unit result \<times> evaluator" where
  "evaluateOnce E s =
     (case ListAlertRules (evr_db s) of
        (Inl e, d) \<Rightarrow> (Inl (Wrapped ''list rules'' e), s\<lparr>evr_db := d\<rparr>)
      | (Inr rules, d) \<Rightarrow>
          (case GetPlatformMetrics (al_p95 E) (al_trunc_hour E) d of
             (Inl e, d') \<Rightarrow> (Inl (Wrapped ''get metrics'' e), s\<lparr>evr_db := d'\<rparr>)
           | (Inr m, d') \<Rightarrow> (Inr (), fold (evaluate_rule E m) rules (s\<lparr>evr_db := d'\<rparr>))))"

section \<open>One evaluator\<close>

text \<open>
  \<^verbatim>\<open>HoldAlertEvaluation\<close>: the advisory lock belongs to the session of the worker that took it.
  \<open>fault\<close> is the error of acquiring a connection or of the query; a query whose reply is lost
  has lost its session, and the lock with it.
\<close>

definition HoldAlertEvaluation :: "nat \<Rightarrow> string option \<Rightarrow> nat option \<Rightarrow> bool result \<times> nat option" where
  "HoldAlertEvaluation w fault lock =
     (case fault of
        Some m \<Rightarrow> (Inl (ErrText m), lock)
      | None \<Rightarrow> (case lock of None \<Rightarrow> (Inr True, Some w) | Some _ \<Rightarrow> (Inr False, lock)))"

text \<open>The release function it returns unlocks what its own session holds.\<close>

definition release_evaluation :: "nat \<Rightarrow> nat option \<Rightarrow> nat option" where
  "release_evaluation w lock = (if lock = Some w then None else lock)"

end
