(* ===== verification/AlertingClaims.thy ===== *)
theory AlertingClaims
  imports Alerting
begin

text \<open>
  What the alert evaluator promises.  On a database whose statements run, an evaluation of a
  rule is a step of a two-phase machine (quiet, alerting), which is the contract of
  \<^verbatim>\<open>evaluator.go\<close>: an alert is delivered once per breach, a failed send is retried, a recovery
  re-arms the rule.
\<close>

section \<open>Statements of one evaluation\<close>

text \<open>A database on which statements run: no faults pending, alert tables well formed, and thresholds that
  are already values of NUMERIC(10, 2).\<close>

definition alerts_ready :: "db \<Rightarrow> bool" where
  "alerts_ready d \<longleftrightarrow> faults d = [] \<and> wf_alerts (tbl d)
     \<and> (\<forall>r \<in> set (alert_rules (tbl d)). numeric d 10 2 (rule_threshold r) = Some (rule_threshold r))"

text \<open>What one evaluation may change.\<close>

definition alert_frame :: "db \<Rightarrow> db \<Rightarrow> bool" where
  "alert_frame d d' \<longleftrightarrow> (\<exists>rs ns p. d' = d\<lparr>tbl := (tbl d)\<lparr>alert_rules := rs, alert_notifications := ns\<rparr>, uuid_pos := p\<rparr>)"

definition row :: "uuid \<Rightarrow> db \<Rightarrow> AlertRule option" where
  "row i d = find_by rule_id i (alert_rules (tbl d))"

definition ready_step :: "uuid \<Rightarrow> db \<Rightarrow> db \<Rightarrow> bool" where
  "ready_step i d d' \<longleftrightarrow> alerts_ready d' \<and> alert_frame d d' \<and> (\<forall>j. j \<noteq> i \<longrightarrow> row j d' = row j d)"

lemma alert_frame_refl: "alert_frame d d"
  unfolding alert_frame_def
  by (rule exI [of _ "alert_rules (tbl d)"], rule exI [of _ "alert_notifications (tbl d)"], rule exI [of _ "uuid_pos d"]) simp

lemma alert_frame_trans: "alert_frame d d1 \<Longrightarrow> alert_frame d1 d2 \<Longrightarrow> alert_frame d d2"
  unfolding alert_frame_def by clarsimp blast

lemma ready_step_refl: "alerts_ready d \<Longrightarrow> ready_step i d d"
  by (simp add: ready_step_def alert_frame_refl)

lemma ready_step_trans: "ready_step i d d1 \<Longrightarrow> ready_step i d1 d2 \<Longrightarrow> ready_step i d d2"
  by (auto simp: ready_step_def intro: alert_frame_trans)

lemma set_rule_step:
  assumes d: "alerts_ready d"
    and f: "\<And>r. rule_id (f r) = rule_id r" "\<And>r. rule_threshold (f r) = rule_threshold r"
  shows "ready_step i d (snd (set_rule_stmt i f d))"
    and "row i (snd (set_rule_stmt i f d)) = row i d \<or> row i (snd (set_rule_stmt i f d)) = map_option f (row i d)"
    and "(\<And>r. alert_rule_check r \<Longrightarrow> alert_rule_check (f r)) \<Longrightarrow> row i (snd (set_rule_stmt i f d)) = map_option f (row i d)"
proof -
  let ?rows = "update_by rule_id i f (alert_rules (tbl d))"
  let ?d = "set_tbl (\<lambda>t. t\<lparr>alert_rules := ?rows\<rparr>) d"
  have cases: "set_rule_stmt i f d = (Inr (), ?d) \<and> list_all alert_rule_check ?rows \<or> snd (set_rule_stmt i f d) = d"
    by (simp add: set_rule_stmt_def Let_def)
  have row: "row i ?d = map_option f (row i d)"
    unfolding row_def set_tbl_simps using find_by_update_same [of rule_id f] f(1) by simp
  have step: "ready_step i d ?d" if "list_all alert_rule_check ?rows"
    unfolding ready_step_def
  proof (intro conjI allI impI)
    show "alerts_ready ?d"
      using d that f unfolding alerts_ready_def wf_alerts_def
      by (auto simp: keys_update_by list_all_iff set_update_by)
    show "alert_frame d ?d"
      unfolding alert_frame_def
      by (rule exI [of _ ?rows], rule exI [of _ "alert_notifications (tbl d)"], rule exI [of _ "uuid_pos d"])
         (simp add: set_tbl_def)
    show "row j ?d = row j d" if "j \<noteq> i" for j
      unfolding row_def set_tbl_simps using find_by_update_other [of rule_id f] f(1) that by simp
  qed
  show "ready_step i d (snd (set_rule_stmt i f d))" using cases step ready_step_refl [OF d] by auto
  show "row i (snd (set_rule_stmt i f d)) = row i d \<or> row i (snd (set_rule_stmt i f d)) = map_option f (row i d)"
    using cases row by auto
  show "row i (snd (set_rule_stmt i f d)) = map_option f (row i d)"
    if "\<And>r. alert_rule_check r \<Longrightarrow> alert_rule_check (f r)"
  proof (cases "i \<in> set (keys rule_id (alert_rules (tbl d)))")
    case False
    then show ?thesis
      by (simp add: set_rule_stmt_def row_def find_by_None_iff [THEN iffD2])
  next
    case True
    have "list_all alert_rule_check ?rows"
      using d that unfolding list_all_iff alerts_ready_def wf_alerts_def by (intro ball_update_by) auto
    with True row show ?thesis by (simp add: set_rule_stmt_def Let_def)
  qed
qed


lemma SetAlertRuleFiring_step:
  assumes "alerts_ready d"
  shows "ready_step i d (snd (SetAlertRuleFiring i None d))"
    and "row i (snd (SetAlertRuleFiring i None d)) = map_option (\<lambda>r. r\<lparr>rule_firing_threshold := None\<rparr>) (row i d)"
    and "numeric d 10 2 th = Some th \<Longrightarrow> ready_step i d (snd (SetAlertRuleFiring i (Some th) d))"
    and "numeric d 10 2 th = Some th \<Longrightarrow>
      row i (snd (SetAlertRuleFiring i (Some th) d)) = map_option (\<lambda>r. r\<lparr>rule_firing_threshold := Some th\<rparr>) (row i d)"
  using assms set_rule_step [OF assms, where i = i and f = "\<lambda>r. r\<lparr>rule_firing_threshold := None\<rparr>"]
    set_rule_step [OF assms, where i = i and f = "\<lambda>r. r\<lparr>rule_firing_threshold := Some th\<rparr>"]
  by (simp_all add: SetAlertRuleFiring_def numeric_opt_def alerts_ready_def alert_rule_check_def)

lemma SetAlertRuleDeliveryError_step:
  assumes "alerts_ready d"
  shows "ready_step i d (snd (SetAlertRuleDeliveryError i m d))"
    and "row i (snd (SetAlertRuleDeliveryError i m d)) = row i d
      \<or> row i (snd (SetAlertRuleDeliveryError i m d)) = map_option (\<lambda>r. r\<lparr>rule_delivery_error := m\<rparr>) (row i d)"
  using assms set_rule_step [OF assms, where i = i and f = "\<lambda>r. r\<lparr>rule_delivery_error := m\<rparr>"]
  by (simp_all add: SetAlertRuleDeliveryError_def alerts_ready_def)

lemma add_notification_step:
  assumes "alerts_ready d" "an_id x \<notin> set (keys an_id (alert_notifications (tbl d)))"
    and "an_alert_rule_id x \<in> set (keys rule_id (alert_rules (tbl d)))"
  shows "ready_step i d (set_tbl (\<lambda>t. t\<lparr>alert_notifications := alert_notifications t @ [x]\<rparr>) d)"
    (is "ready_step i d ?d")
  unfolding ready_step_def
proof (intro conjI allI impI)
  show "alerts_ready ?d" using assms by (simp add: alerts_ready_def wf_alerts_def row_simps)
  show "alert_frame d ?d"
    unfolding alert_frame_def
    by (rule exI [of _ "alert_rules (tbl d)"], rule exI [of _ "alert_notifications (tbl d) @ [x]"],
        rule exI [of _ "uuid_pos d"]) (simp add: set_tbl_def)
qed (simp add: row_def)

lemma RecordAlertNotification_step:
  assumes "alerts_ready d"
  shows "ready_step i d (snd (RecordAlertNotification n d))"
    and "row j (snd (RecordAlertNotification n d)) = row j d"
proof -
  obtain d1 where g: "gen_random_uuid d = (uuid_src d (uuid_pos d), d1)" and d1: "d1 = d\<lparr>uuid_pos := Suc (uuid_pos d)\<rparr>"
    by (simp add: gen_random_uuid_def)
  have r1: "ready_step i d d1"
    using assms unfolding ready_step_def alert_frame_def row_def alerts_ready_def d1
    by simp (rule exI [of _ "alert_rules (tbl d)"], rule exI [of _ "alert_notifications (tbl d)"],
        simp, rule exI [of _ "Suc (uuid_pos d)"], simp)
  define x where "x th v = n\<lparr>an_id := uuid_src d (uuid_pos d), an_threshold := th, an_current_value := v,
    an_fired_at := db_now d\<rparr>" for th v
  consider (kept) "snd (RecordAlertNotification n d) = d1"
    | (logged) th v where "uuid_src d (uuid_pos d) \<notin> set (keys an_id (alert_notifications (tbl d)))"
      "an_alert_rule_id n \<in> set (keys rule_id (alert_rules (tbl d)))"
      "snd (RecordAlertNotification n d) = set_tbl (\<lambda>t. t\<lparr>alert_notifications := alert_notifications t @ [x th v]\<rparr>) d1"
  proof (cases "text_ok (an_rule_name n) \<and> text_ok (an_rule_type n)
      \<and> uuid_src d (uuid_pos d) \<notin> set (keys an_id (alert_notifications (tbl d)))
      \<and> an_alert_rule_id n \<in> set (keys rule_id (alert_rules (tbl d)))
      \<and> numeric d 10 2 (an_threshold n) \<noteq> None \<and> numeric d 10 2 (an_current_value n) \<noteq> None")
    case True
    then obtain th v where "numeric d 10 2 (an_threshold n) = Some th" "numeric d 10 2 (an_current_value n) = Some v"
      by auto
    with True assms show thesis
      by (intro logged [of th v]) (simp_all add: RecordAlertNotification_def alerts_ready_def g d1 x_def Let_def)
  next
    case False
    with assms show thesis
      by (intro kept) (auto simp: RecordAlertNotification_def alerts_ready_def g d1 Let_def split: option.splits)
  qed
  then have "ready_step i d (snd (RecordAlertNotification n d)) \<and> row j (snd (RecordAlertNotification n d)) = row j d"
  proof cases
    case kept
    with r1 show ?thesis by (simp add: row_def d1)
  next
    case logged
    have "alerts_ready d1" using r1 by (simp add: ready_step_def)
    from add_notification_step [OF this, of "x th v" i] logged
    have "ready_step i d1 (snd (RecordAlertNotification n d))" by (simp add: d1 x_def)
    with ready_step_trans [OF r1] have "ready_step i d (snd (RecordAlertNotification n d))" by blast
    with logged show ?thesis by (simp add: row_def d1)
  qed
  then show "ready_step i d (snd (RecordAlertNotification n d))" "row j (snd (RecordAlertNotification n d)) = row j d"
    by blast+
qed

lemma Load_settings_ready: "faults d = [] \<Longrightarrow> snd (Load_settings enc c d) = d"
  by (auto simp: Load_settings_def GetNotificationSettings_def select_def split: sum.splits)

lemma sendNotification_ready: "faults d = [] \<Longrightarrow> snd (sendNotification E r v n d) = d"
  using Load_settings_ready [of d "al_enc E" "al_cfg E"]
  by (auto simp: sendNotification_def service_Send_def resolving_Send_def resolving_PostDM_def
      split: sum.splits option.splits prod.splits)

lemma currentValue_ready: "faults d = [] \<Longrightarrow> snd (currentValue r m d) = d"
  by (simp add: currentValue_def Let_def OldestOpenIssueAge_def select_def)

datatype phase = Quiet | Alerting

definition phase_of :: "AlertRule \<Rightarrow> phase" where
  "phase_of r =
     (case rule_firing_threshold r of
        None \<Rightarrow> Quiet
      | Some f \<Rightarrow> if sameThreshold f (rule_threshold r) then Alerting else Quiet)"

datatype observation = Inactive | NoSamples | Normal | Breach float64

definition observe :: "PlatformMetrics \<Rightarrow> db \<Rightarrow> AlertRule \<Rightarrow> observation" where
  "observe m d r =
     (if \<not> rule_active r then Inactive
      else case fst (currentValue r m d) of
             Inl _ \<Rightarrow> NoSamples
           | Inr v \<Rightarrow> if isBreached r v then Breach v else Normal)"

text \<open>The contract of a rule: the next phase, and the value it undertakes to report, if any.\<close>

fun alert_spec :: "phase \<Rightarrow> observation \<Rightarrow> (float64 \<Rightarrow> bool) \<Rightarrow> phase \<times> float64 option" where
  "alert_spec p Inactive ok = (Quiet, None)"
| "alert_spec p NoSamples ok = (p, None)"
| "alert_spec p Normal ok = (Quiet, None)"
| "alert_spec Alerting (Breach v) ok = (Alerting, None)"
| "alert_spec Quiet (Breach v) ok = (if ok v then Alerting else Quiet, Some v)"

definition send_ok :: "alert_env \<Rightarrow> AlertRule \<Rightarrow> evaluator \<Rightarrow> float64 \<Rightarrow> bool" where
  "send_ok E r s v \<longleftrightarrow> fst (fst (sendNotification E r v (length (evr_attempts s)) (evr_db s))) = Inr ()"

definition same_config :: "AlertRule \<Rightarrow> AlertRule \<Rightarrow> bool" where
  "same_config r r' \<longleftrightarrow> (\<exists>f e. r' = r\<lparr>rule_firing_threshold := f, rule_delivery_error := e\<rparr>)"

definition made :: "alert_env \<Rightarrow> AlertRule \<Rightarrow> evaluator \<Rightarrow> float64 \<Rightarrow> attempt" where
  "made E r s v =
     (case sendNotification E r v (length (evr_attempts s)) (evr_db s) of
        ((res, acts, posts), _) \<Rightarrow>
          \<lparr>at_rule = r, at_value = v, at_result = res, at_mail = acts, at_posts = posts\<rparr>)"

lemma sameThreshold_refl [simp]: "sameThreshold x x"
  using f64_gt_0 [of "1 / 1000"] by (simp add: sameThreshold_def fsub_def)

lemma same_config_refl [simp]: "same_config r r"
  unfolding same_config_def by (rule exI [of _ "rule_firing_threshold r"], rule exI [of _ "rule_delivery_error r"]) simp

lemma same_config_upd [simp]:
  "same_config r (r\<lparr>rule_firing_threshold := f\<rparr>)"
  "same_config r (r\<lparr>rule_delivery_error := e\<rparr>)"
  "same_config r (r\<lparr>rule_firing_threshold := f, rule_delivery_error := e\<rparr>)"
  "same_config r (r\<lparr>rule_delivery_error := e, rule_firing_threshold := f\<rparr>)"
  unfolding same_config_def
  by (rule exI [of _ f], rule exI [of _ "rule_delivery_error r"], simp,
      rule exI [of _ "rule_firing_threshold r"], rule exI [of _ e], simp, blast,
      rule exI [of _ f], rule exI [of _ e], simp)

lemma phase_of_upd [simp]: "phase_of (r\<lparr>rule_delivery_error := e\<rparr>) = phase_of r"
  by (simp add: phase_of_def cong: option.case_cong)

lemma clearFiring_step:
  assumes "alerts_ready d" "row (rule_id r) d = Some r"
  shows "ready_step (rule_id r) d (clearFiring r d)"
    and "\<exists>r'. row (rule_id r) (clearFiring r d) = Some r' \<and> same_config r r' \<and> phase_of r' = Quiet"
proof -
  show "ready_step (rule_id r) d (clearFiring r d)"
    using SetAlertRuleFiring_step(1) [OF assms(1)] ready_step_refl [OF assms(1)] by (simp add: clearFiring_def)
  have "row (rule_id r) (clearFiring r d) = Some (r\<lparr>rule_firing_threshold := None\<rparr>)"
    using SetAlertRuleFiring_step(2) [OF assms(1), of "rule_id r"] assms(2)
    by (cases "rule_firing_threshold r") (auto simp: clearFiring_def intro: AlertRule.equality)
  then show "\<exists>r'. row (rule_id r) (clearFiring r d) = Some r' \<and> same_config r r' \<and> phase_of r' = Quiet"
    by (simp add: phase_of_def)
qed

lemma note_step:
  assumes "alerts_ready d" "row (rule_id r) d = Some r"
  shows "ready_step (rule_id r) d (noteDeliveryError r e d)"
    and "\<exists>r'. row (rule_id r) (noteDeliveryError r e d) = Some r' \<and> same_config r r' \<and> phase_of r' = phase_of r"
proof -
  show "ready_step (rule_id r) d (noteDeliveryError r e d)"
    using SetAlertRuleDeliveryError_step(1) [OF assms(1)] ready_step_refl [OF assms(1)]
    by (simp add: noteDeliveryError_def Let_def)
  have "row (rule_id r) (noteDeliveryError r e d) = Some r
      \<or> row (rule_id r) (noteDeliveryError r e d) = Some (r\<lparr>rule_delivery_error := Some (deliveryErrorText r e)\<rparr>)"
    using SetAlertRuleDeliveryError_step(2) [OF assms(1), of "rule_id r" "Some (deliveryErrorText r e)"] assms(2)
    by (auto simp: noteDeliveryError_def Let_def)
  then show "\<exists>r'. row (rule_id r) (noteDeliveryError r e d) = Some r' \<and> same_config r r' \<and> phase_of r' = phase_of r"
    by auto
qed

lemma record_sent_step:
  assumes "alerts_ready d" "row (rule_id r) d = Some r"
  shows "ready_step (rule_id r) d (record_sent r v d)"
    and "\<exists>r'. row (rule_id r) (record_sent r v d) = Some r' \<and> same_config r r' \<and> phase_of r' = Alerting"
proof -
  let ?i = "rule_id r"
  define d1 where "d1 = clearDeliveryError r d"
  define n where "n = \<lparr>an_id = 0, an_alert_rule_id = rule_id r, an_rule_name = rule_name r,
                  an_rule_type = rule_type r, an_threshold = rule_threshold r,
                  an_current_value = v, an_fired_at = 0\<rparr>"
  define d2 where "d2 = snd (RecordAlertNotification n d1)"
  have s1: "ready_step ?i d d1"
    using SetAlertRuleDeliveryError_step(1) [OF assms(1)] ready_step_refl [OF assms(1)]
    by (simp add: d1_def clearDeliveryError_def)
  have r1: "row ?i d1 = Some r \<or> row ?i d1 = Some (r\<lparr>rule_delivery_error := None\<rparr>)"
    using SetAlertRuleDeliveryError_step(2) [OF assms(1), of ?i None] assms(2)
    by (auto simp: d1_def clearDeliveryError_def)
  have a1: "alerts_ready d1" using s1 by (simp add: ready_step_def)
  have s2: "ready_step ?i d1 d2" and r2: "row ?i d2 = row ?i d1"
    using RecordAlertNotification_step [OF a1] by (auto simp: d2_def)
  have a2: "alerts_ready d2" using s2 by (simp add: ready_step_def)
  have "r \<in> set (alert_rules (tbl d))" using assms(2) by (auto simp: row_def dest: find_by_SomeD)
  then have num: "numeric d 10 2 (rule_threshold r) = Some (rule_threshold r)"
    using assms(1) by (simp add: alerts_ready_def)
  have "numeric d2 = numeric d"
    using s1 s2 by (auto simp: ready_step_def alert_frame_def)
  with num have num2: "numeric d2 10 2 (rule_threshold r) = Some (rule_threshold r)" by simp
  have eq: "record_sent r v d = snd (SetAlertRuleFiring ?i (Some (rule_threshold r)) d2)"
    by (simp add: record_sent_def Let_def d1_def d2_def n_def)
  show "ready_step ?i d (record_sent r v d)"
    unfolding eq by (intro ready_step_trans [OF s1] ready_step_trans [OF s2] SetAlertRuleFiring_step(3) [OF a2 num2])
  show "\<exists>r'. row ?i (record_sent r v d) = Some r' \<and> same_config r r' \<and> phase_of r' = Alerting"
    unfolding eq SetAlertRuleFiring_step(4) [OF a2 num2] r2
    using r1 by (auto simp: phase_of_def)
qed


lemma send_alert_eq:
  assumes "faults (evr_db s) = []"
  shows "evr_db (send_alert E r v s) =
      (if send_ok E r s v then record_sent r v (evr_db s)
       else noteDeliveryError r (projl (at_result (made E r s v))) (evr_db s))"
    and "evr_attempts (send_alert E r v s) = evr_attempts s @ [made E r s v]"
  using sendNotification_ready [OF assms, of E r v "length (evr_attempts s)"]
  by (auto simp: send_alert_def send_ok_def made_def split: prod.splits sum.splits)

lemma evaluate_rule_refines:
  assumes ready: "alerts_ready (evr_db s)" and row: "row (rule_id r) (evr_db s) = Some r"
    and spec: "alert_spec (phase_of r) (observe m (evr_db s) r) (send_ok E r s) = (p, sends)"
    and s': "s' = evaluate_rule E m r s"
  shows "ready_step (rule_id r) (evr_db s) (evr_db s')
    \<and> (\<exists>r'. row (rule_id r) (evr_db s') = Some r' \<and> same_config r r' \<and> phase_of r' = p)
    \<and> evr_attempts s' = evr_attempts s @ (case sends of None \<Rightarrow> [] | Some v \<Rightarrow> [made E r s v])"
proof -
  let ?d = "evr_db s"
  have nf: "faults ?d = []" using ready by (simp add: alerts_ready_def)
  obtain val where cv: "currentValue r m ?d = (val, ?d)"
    using currentValue_ready [OF nf, of r m] by (cases "currentValue r m ?d") simp
  note steps = clearFiring_step [OF ready row] note_step [OF ready row] record_sent_step [OF ready row]
    ready_step_refl [OF ready]
  show ?thesis
  proof (cases "observe m ?d r")
    case Inactive
    then have "\<not> rule_active r" by (auto simp: observe_def split: sum.splits if_splits)
    with spec steps(1,2) Inactive show ?thesis by (simp add: s' evaluate_rule_def)
  next
    case NoSamples
    then have "rule_active r" "\<exists>e. val = Inl e" by (auto simp: observe_def cv split: sum.splits if_splits)
    with spec steps row NoSamples show ?thesis by (auto simp: s' evaluate_rule_def cv)
  next
    case Normal
    then have "rule_active r" "\<exists>v. val = Inr v \<and> \<not> isBreached r v"
      by (auto simp: observe_def cv split: sum.splits if_splits)
    with spec steps Normal show ?thesis by (auto simp: s' evaluate_rule_def cv)
  next
    case (Breach v)
    then have b: "rule_active r" "val = Inr v" "isBreached r v"
      by (auto simp: observe_def cv split: sum.splits if_splits)
    show ?thesis
    proof (cases "phase_of r")
      case Alerting
      with b spec Breach steps row show ?thesis
        by (auto simp: s' evaluate_rule_def cv phase_of_def split: option.splits if_splits)
    next
      case Quiet
      then have "s' = send_alert E r v s"
        using b by (auto simp: s' evaluate_rule_def cv phase_of_def split: option.splits if_splits)
      with Quiet spec Breach steps send_alert_eq [OF nf, of E r v] show ?thesis by auto
    qed
  qed
qed


section \<open>A whole evaluation\<close>

definition metrics_at :: "alert_env \<Rightarrow> db \<Rightarrow> PlatformMetrics" where
  "metrics_at E d = projr (fst (GetPlatformMetrics (al_p95 E) (al_trunc_hour E) d))"

definition for_rule :: "uuid \<Rightarrow> attempt list \<Rightarrow> attempt list" where
  "for_rule i atts = filter (\<lambda>a. rule_id (at_rule a) = i) atts"

lemma GetPlatformMetrics_ready:
  "faults d = [] \<Longrightarrow> GetPlatformMetrics (al_p95 E) (al_trunc_hour E) d = (Inr (metrics_at E d), d)"
  by (simp add: metrics_at_def GetPlatformMetrics_def bind_def select_def OpenIssuesCount_def hourlyEventCounts_def
      hourlyDeliveryCounts_def ListConnections_def ListAllConnectionStats_def)

lemma evaluateOnce_ready:
  "alerts_ready (evr_db s) \<Longrightarrow> evaluateOnce E s =
     (Inr (), fold (evaluate_rule E (metrics_at E (evr_db s))) (sort_key rule_created_at (alert_rules (tbl (evr_db s)))) s)"
  by (simp add: evaluateOnce_def ListAlertRules_def select_def alerts_ready_def GetPlatformMetrics_ready)

lemma observe_frame: "alert_frame d d' \<Longrightarrow> faults d = [] \<Longrightarrow> observe m d' r = observe m d r"
proof -
  assume fr: "alert_frame d d'" and nf: "faults d = []"
  then have "OldestOpenIssueAge d' = (fst (OldestOpenIssueAge d), d')"
    by (auto simp: OldestOpenIssueAge_def select_def alert_frame_def open_issues_def split: list.splits)
  then have "fst (currentValue r m d') = fst (currentValue r m d)" by (simp add: currentValue_def Let_def)
  then show ?thesis by (simp add: observe_def)
qed

lemma at_rule_made [simp]: "at_rule (made E r s v) = r" "at_value (made E r s v) = v"
  by (simp_all add: made_def split: prod.splits)

lemma at_result_made: "at_result (made E r s v) = Inr () \<longleftrightarrow> send_ok E r s v"
  by (simp add: made_def send_ok_def split: prod.splits)

text \<open>The rules of a list that are evaluated leave every other rule as it is.\<close>

lemma evaluate_others:
  assumes "alerts_ready (evr_db s)" and "distinct (map rule_id rs)"
    and "\<forall>r \<in> set rs. row (rule_id r) (evr_db s) = Some r"
  shows "alerts_ready (evr_db (fold (evaluate_rule E m) rs s))
    \<and> alert_frame (evr_db s) (evr_db (fold (evaluate_rule E m) rs s))
    \<and> (\<forall>i. i \<notin> rule_id ` set rs \<longrightarrow> row i (evr_db (fold (evaluate_rule E m) rs s)) = row i (evr_db s)
        \<and> for_rule i (evr_attempts (fold (evaluate_rule E m) rs s)) = for_rule i (evr_attempts s))"
  using assms
proof (induction rs arbitrary: s)
  case Nil
  then show ?case by (simp add: alert_frame_refl)
next
  case (Cons r rs)
  let ?s = "evaluate_rule E m r s"
  obtain p sends where spec: "alert_spec (phase_of r) (observe m (evr_db s) r) (send_ok E r s) = (p, sends)"
    by fastforce
  have r: "row (rule_id r) (evr_db s) = Some r" using Cons.prems by simp
  note step = evaluate_rule_refines [OF Cons.prems(1) r spec refl]
  then have ready: "alerts_ready (evr_db ?s)" and fr: "alert_frame (evr_db s) (evr_db ?s)"
    and oth: "\<And>j. j \<noteq> rule_id r \<Longrightarrow> row j (evr_db ?s) = row j (evr_db s)"
    by (auto simp: ready_step_def)
  have att: "for_rule i (evr_attempts ?s) = for_rule i (evr_attempts s)" if "i \<noteq> rule_id r" for i
    using step that by (auto simp: for_rule_def split: option.splits)
  have rows: "\<forall>q \<in> set rs. row (rule_id q) (evr_db ?s) = Some q"
    using Cons.prems oth by (auto simp: image_iff)
  from Cons.IH [OF ready _ rows] Cons.prems(2) fr oth att show ?case
    by (auto intro: alert_frame_trans)
qed

lemma sorted_rules_split:
  assumes "alerts_ready d" and "row i d = Some r"
  obtains as bs where "sort_key rule_created_at (alert_rules (tbl d)) = as @ r # bs"
    "distinct (map rule_id (as @ r # bs))" "\<forall>q \<in> set (as @ r # bs). row (rule_id q) d = Some q" "rule_id r = i"
proof -
  let ?rs = "sort_key rule_created_at (alert_rules (tbl d))"
  have r: "r \<in> set (alert_rules (tbl d))" "rule_id r = i" using assms(2) by (auto simp: row_def dest: find_by_SomeD)
  then obtain as bs where split: "?rs = as @ r # bs" by (metis set_sort split_list)
  have d: "distinct (keys rule_id (alert_rules (tbl d)))" using assms(1) by (simp add: alerts_ready_def wf_alerts_def)
  then have "distinct (map rule_id ?rs)" unfolding keys_def by (simp add: distinct_map)
  moreover have "\<forall>q \<in> set ?rs. row (rule_id q) d = Some q" using d by (simp add: row_def find_by_Some_iff_distinct)
  ultimately show ?thesis using that split r(2) by simp
qed

text \<open>
  C10. Refinement: on a database whose statements run, one evaluation of all rules takes every
  rule through one step of its contract.  A rule that is inactive or back to normal becomes
  quiet, one without samples keeps its phase, a breached rule that is alerting stays so without
  another message, and a breached quiet rule undertakes exactly one send, of the value that was
  measured, and is alerting afterwards exactly when that send succeeded.  Nothing else about
  the rule changes but the message of a failed send.
\<close>

theorem evaluate_refines:
  assumes ready: "alerts_ready (evr_db s)" and row: "row i (evr_db s) = Some r"
    and run: "evaluateOnce E s = (res, s')"
  shows "res = Inr () \<and> alerts_ready (evr_db s')
    \<and> (\<exists>r' ok sends atts. row i (evr_db s') = Some r' \<and> same_config r r'
        \<and> alert_spec (phase_of r) (observe (metrics_at E (evr_db s)) (evr_db s) r) ok = (phase_of r', sends)
        \<and> for_rule i (evr_attempts s') = for_rule i (evr_attempts s) @ atts
        \<and> map at_value atts = (case sends of None \<Rightarrow> [] | Some v \<Rightarrow> [v])
        \<and> (\<forall>a \<in> set atts. at_rule a = r \<and> (at_result a = Inr () \<longleftrightarrow> ok (at_value a))))"
proof -
  let ?m = "metrics_at E (evr_db s)"
  obtain as bs where rs: "sort_key rule_created_at (alert_rules (tbl (evr_db s))) = as @ r # bs"
    and dist: "distinct (map rule_id (as @ r # bs))" and rows: "\<forall>q \<in> set (as @ r # bs). row (rule_id q) (evr_db s) = Some q"
    and i: "rule_id r = i"
    using sorted_rules_split [OF ready row] .
  define s1 where "s1 = fold (evaluate_rule E ?m) as s"
  define s2 where "s2 = evaluate_rule E ?m r s1"
  have s': "s' = fold (evaluate_rule E ?m) bs s2" and res: "res = Inr ()"
    using run by (simp_all add: evaluateOnce_ready [OF ready] rs s1_def s2_def)
  have a: "alerts_ready (evr_db s1)" "alert_frame (evr_db s) (evr_db s1)" "row i (evr_db s1) = Some r"
    "for_rule i (evr_attempts s1) = for_rule i (evr_attempts s)"
    and other: "\<And>j. j \<notin> rule_id ` set as \<Longrightarrow> row j (evr_db s1) = row j (evr_db s)"
    using evaluate_others [OF ready, of as E ?m] dist rows row i by (auto simp: s1_def)
  obtain p sends where spec: "alert_spec (phase_of r) (observe ?m (evr_db s1) r) (send_ok E r s1) = (p, sends)"
    by fastforce
  note step = evaluate_rule_refines [OF a(1) a(3) [folded i] spec s2_def, unfolded i]
  then obtain r' where r': "row i (evr_db s2) = Some r'" "same_config r r'" "phase_of r' = p" by blast
  have b: "\<forall>q \<in> set bs. row (rule_id q) (evr_db s2) = Some q"
  proof
    fix q assume "q \<in> set bs"
    then have "rule_id q \<in> rule_id ` set bs" "row (rule_id q) (evr_db s) = Some q" using rows by auto
    moreover from this(1) dist i have "rule_id q \<noteq> i" "rule_id q \<notin> rule_id ` set as" by auto
    ultimately show "row (rule_id q) (evr_db s2) = Some q" using other step by (simp add: ready_step_def)
  qed
  have "alerts_ready (evr_db s2)" using step by (simp add: ready_step_def)
  from evaluate_others [OF this _ b, of E ?m] dist i
  have c: "alerts_ready (evr_db s')" "row i (evr_db s') = row i (evr_db s2)"
    "for_rule i (evr_attempts s') = for_rule i (evr_attempts s2)"
    by (auto simp: s')
  have obs: "observe ?m (evr_db s1) r = observe ?m (evr_db s) r"
    using observe_frame [OF a(2)] ready by (simp add: alerts_ready_def)
  let ?atts = "case sends of None \<Rightarrow> [] | Some v \<Rightarrow> [made E r s1 v]"
  have "for_rule i (evr_attempts s2) = for_rule i (evr_attempts s) @ ?atts"
    using step a(4) i by (auto simp: for_rule_def split: option.splits)
  with c r' spec res show ?thesis
    unfolding obs
    by (intro conjI exI [of _ r'] exI [of _ "send_ok E r s1"] exI [of _ sends] exI [of _ ?atts])
       (auto simp: at_result_made split: option.splits)
qed


text \<open>The alerts of a rule that were delivered, and whether it is marked as reported.\<close>

definition delivered :: "uuid \<Rightarrow> evaluator \<Rightarrow> nat" where
  "delivered i s = length (filter (\<lambda>a. at_result a = Inr ()) (for_rule i (evr_attempts s)))"

definition alerting :: "uuid \<Rightarrow> evaluator \<Rightarrow> bool" where
  "alerting i s \<longleftrightarrow> (\<exists>r. row i (evr_db s) = Some r \<and> phase_of r = Alerting)"

section \<open>An example\<close>

definition demo_rule :: AlertRule where
  "demo_rule = \<lparr>rule_id = 1, rule_name = ''backlog'', rule_type = ''OPEN_ISSUES'', rule_threshold = 0,
     rule_unit = ''COUNT'', rule_active = True, rule_notification_type = ''slack_dm'',
     rule_notification_dest = ''U12345678'', rule_subject_template = None, rule_body_template = None,
     rule_firing_threshold = None, rule_delivery_error = None, rule_created_at = 0, rule_updated_at = 0\<rparr>"

definition demo_alert_db :: db where
  "demo_alert_db = \<lparr>tbl = empty_tables\<lparr>alert_rules := [demo_rule],
       issues := [\<lparr>iss_id = 4, iss_event_id = 7, iss_connection_id = 1, iss_reason = ''boom'', iss_attempts_exhausted = 3,
         iss_first_failed_at = 0, iss_status = ''open'', iss_resolved_at = None, iss_resolved_by = None\<rparr>]\<rparr>,
     db_now = 5, uuid_src = (\<lambda>n. n), uuid_pos = 100, numeric = (\<lambda>_ _ x. Some x), faults = []\<rparr>"

text \<open>Slack is down for the first send and back for the second.\<close>

definition demo_alert_env :: alert_env where
  "demo_alert_env = \<lparr>al_render = demo_render, al_enc = None, al_cfg = demo_smtp_cfg\<lparr>SlackBotToken := ''xoxb-1''\<rparr>,
     al_notifier = None, al_slack = Some (\<lambda>n p. if n = 0 then SlackReply 503 [] None (ErrText [])
       else SlackReply 200 (marshal (JObj [(''ok'', JBool True)])) None (ErrText [])),
     al_p95 = (\<lambda>_. 0), al_trunc_hour = (\<lambda>t. t), al_format_large = (\<lambda>_. [])\<rparr>"

definition demo_evaluator :: evaluator where
  "demo_evaluator = \<lparr>evr_db = demo_alert_db, evr_attempts = []\<rparr>"

definition demo_tick :: "evaluator \<Rightarrow> evaluator" where
  "demo_tick s = snd (evaluateOnce demo_alert_env s)"

lemma demo_alert_facts:
  "alerts_ready (evr_db demo_evaluator)" "row 1 (evr_db demo_evaluator) = Some demo_rule" "phase_of demo_rule = Quiet"
  "observe (metrics_at demo_alert_env (evr_db demo_evaluator)) (evr_db demo_evaluator) demo_rule = Breach 1"
proof -
  show "alerts_ready (evr_db demo_evaluator)"
    by (simp add: alerts_ready_def demo_evaluator_def demo_alert_db_def wf_alerts_def empty_tables_def keys_def
        alert_rule_check_def demo_rule_def opt_ok_def text_ok_def utf8_valid_ascii)
  show "row 1 (evr_db demo_evaluator) = Some demo_rule" "phase_of demo_rule = Quiet"
    by (simp_all add: row_def demo_evaluator_def demo_alert_db_def find_by_Cons demo_rule_def phase_of_def)
  show "observe (metrics_at demo_alert_env (evr_db demo_evaluator)) (evr_db demo_evaluator) demo_rule = Breach 1"
    by code_simp
qed

theorem evaluate_refines_witness:
  "\<exists>r' sends. row 1 (evr_db (demo_tick demo_evaluator)) = Some r' \<and> same_config demo_rule r'
     \<and> (\<exists>ok. alert_spec Quiet (Breach 1) ok = (phase_of r', sends)
        \<and> map at_value (for_rule 1 (evr_attempts (demo_tick demo_evaluator))) = (case sends of None \<Rightarrow> [] | Some v \<Rightarrow> [v]))"
proof -
  have "evaluateOnce demo_alert_env demo_evaluator =
      (fst (evaluateOnce demo_alert_env demo_evaluator), demo_tick demo_evaluator)"
    by (simp add: demo_tick_def)
  from evaluate_refines [OF demo_alert_facts(1,2) this, unfolded demo_alert_facts(3,4)]
  obtain r' ok sends atts where "row 1 (evr_db (demo_tick demo_evaluator)) = Some r'" "same_config demo_rule r'"
    "alert_spec Quiet (Breach 1) ok = (phase_of r', sends)"
    "for_rule 1 (evr_attempts (demo_tick demo_evaluator)) = for_rule 1 (evr_attempts demo_evaluator) @ atts"
    "map at_value atts = (case sends of None \<Rightarrow> [] | Some v \<Rightarrow> [v])"
    by blast
  moreover have "for_rule 1 (evr_attempts demo_evaluator) = []" by (simp add: for_rule_def demo_evaluator_def)
  ultimately show ?thesis by (intro exI [of _ r'] exI [of _ sends] exI [of _ ok] conjI) simp_all
qed

end
