(* ===== verification/ServerInv.thy ===== *)
theory ServerInv
  imports Server IngestClaims AlertingClaims DeliveryProps SecurityClaims
begin

text \<open>
  What every request keeps.  A property of the tables that the writing methods of the store
  keep is kept by every handler of the API server, whatever statements fail: the locale
  \<open>store_invariant\<close> names the methods, and its interpretations are the invariant of the database
  and that no event is stored in the clear.
\<close>

section \<open>Operations that keep a property of the tables\<close>

lemma truncate_simps [simp]: "store_enc (server_env.truncate E) = store_enc E"
  by (simp add: server_env.defs)

definition srv_keeps :: "(tables \<Rightarrow> bool) \<Rightarrow> (server \<Rightarrow> 'b \<times> server) \<Rightarrow> bool" where
  "srv_keeps P h \<longleftrightarrow> (\<forall>s. P (tbl (srv_db s)) \<longrightarrow> P (tbl (srv_db (snd (h s)))))"

lemma srv_keepsI: "(\<And>s. P (tbl (srv_db s)) \<Longrightarrow> P (tbl (srv_db (snd (h s))))) \<Longrightarrow> srv_keeps P h"
  by (simp add: srv_keeps_def)

lemma srv_keepsD: "srv_keeps P h \<Longrightarrow> h s = (r, s') \<Longrightarrow> P (tbl (srv_db s)) \<Longrightarrow> P (tbl (srv_db s'))"
  by (metis srv_keeps_def snd_conv)

lemma upd_db_simps [simp]:
  "srv_db (upd_db s d) = d" "srv_cache (upd_db s d) = srv_cache s" "srv_started (upd_db s d) = srv_started s"
  "srv_starts (upd_db s d) = srv_starts s" "srv_metrics (upd_db s d) = srv_metrics s"
  by (simp_all add: upd_db_def)

lemma count_ingest_db [simp]: "srv_db (count_ingest c m s) = srv_db s"
  by (simp add: count_ingest_def)

lemmas reply_splits = prod.splits sum.splits option.splits if_splits

lemma ExecuteWorkflow_db: "ExecuteWorkflow E w i s = (r, s') \<Longrightarrow> srv_db s' = srv_db s"
  by (auto simp: ExecuteWorkflow_def Let_def split: option.splits)

definition keeps_play :: "(tables \<Rightarrow> bool) \<Rightarrow> (play \<Rightarrow> 'b \<times> play) \<Rightarrow> bool" where
  "keeps_play P h \<longleftrightarrow> (\<forall>s. P (tbl (pdb s)) \<longrightarrow> P (tbl (pdb (snd (h s)))))"

lemma keeps_playI: "(\<And>s. P (tbl (pdb s)) \<Longrightarrow> P (tbl (pdb (snd (h s))))) \<Longrightarrow> keeps_play P h"
  by (simp add: keeps_play_def)

lemma keeps_playD: "keeps_play P h \<Longrightarrow> h s = (r, s') \<Longrightarrow> P (tbl (pdb s)) \<Longrightarrow> P (tbl (pdb s'))"
  by (metis keeps_play_def snd_conv)

lemma keeps_play_snd: "keeps_play P h \<Longrightarrow> P (tbl (pdb s)) \<Longrightarrow> P (tbl (pdb (snd (h s))))"
  by (simp add: keeps_play_def)

lemma pdb_simps [simp]:
  "pdb (set_pdb s d) = d" "pdb (s\<lparr>plg_hub := h\<rparr>) = pdb s" "pdb (s\<lparr>plg_limits := l\<rparr>) = pdb s"
  "pdb (s\<lparr>plg_streams := sl\<rparr>) = pdb s" "pdb (s\<lparr>plg_core := c\<rparr>) = srv_db c" "srv_db (plg_core s) = pdb s"
  by (simp_all add: pdb_def set_pdb_def)

definition adb :: "app \<Rightarrow> db" where
  "adb s = pdb (app_play s)"

definition keeps_app :: "(tables \<Rightarrow> bool) \<Rightarrow> (app \<Rightarrow> 'b \<times> app) \<Rightarrow> bool" where
  "keeps_app P h \<longleftrightarrow> (\<forall>s. P (tbl (adb s)) \<longrightarrow> P (tbl (adb (snd (h s)))))"

lemma on_core_keeps: "srv_keeps P h \<Longrightarrow> keeps_app P (on_core f h)"
  by (auto simp: keeps_app_def on_core_def adb_def split: prod.splits dest: srv_keepsD)

lemma on_play_keeps: "keeps_play P h \<Longrightarrow> keeps_app P (on_play f h)"
  by (auto simp: keeps_app_def on_play_def adb_def split: prod.splits dest: keeps_playD)

lemma on_sink_keeps: "keeps_app P (on_sink f h)"
  by (auto simp: keeps_app_def on_sink_def adb_def split: prod.splits)

lemma same_keeps: "keeps_app P (\<lambda>s. (f s, s))" "keeps_app P (Pair x)"
  by (simp_all add: keeps_app_def)

section \<open>The handlers\<close>

lemma currentValue_tbl: "currentValue rule m d = (r, d') \<Longrightarrow> tbl d' = tbl d"
  by (auto simp: currentValue_def split: if_splits option.splits dest: preserves_step [OF OldestOpenIssueAge_keeps [where P = "\<lambda>t. t = tbl d"] refl])

lemma sendNotification_tbl: "sendNotification E rule v n d = (r, d') \<Longrightarrow> tbl d' = tbl d"
  by (auto simp: sendNotification_def service_Send_def resolving_Send_def resolving_PostDM_def split: reply_splits
      dest: preserves_step [OF Load_settings_keeps [where P = "\<lambda>t. t = tbl d"] refl])

locale store_invariant =
  fixes enc :: "encryptor option" and P :: "tables \<Rightarrow> bool"
  assumes CreateConnection_law: "\<And>c. preserves P (CreateConnection c)"
    and UpdateConnection_law: "\<And>i n u a f b r. preserves P (UpdateConnection i n u a f b r)"
    and UpdateConnectionSecret_law: "\<And>i s. preserves P (UpdateConnectionSecret i s)"
    and UpdateConnectionSourceType_law: "\<And>i s. preserves P (UpdateConnectionSourceType i s)"
    and InsertEvent_law: "\<And>rs e. preserves P (InsertEvent enc rs e)"
    and SetEventWorkflowID_law: "\<And>i w. preserves P (SetEventWorkflowID i w)"
    and CreateSession_law: "\<And>x. preserves P (CreateSession x)"
    and DeleteSession_law: "\<And>i. preserves P (DeleteSession i)"
    and CreateAlertRule_law: "\<And>ar. preserves P (CreateAlertRule ar)"
    and UpdateAlertRule_law: "\<And>i a t s b. preserves P (UpdateAlertRule i a t s b)"
    and DeleteAlertRule_law: "\<And>i. preserves P (DeleteAlertRule i)"
    and SetAlertRuleFiring_law: "\<And>i th. preserves P (SetAlertRuleFiring i th)"
    and SetAlertRuleDeliveryError_law: "\<And>i m. preserves P (SetAlertRuleDeliveryError i m)"
    and RecordAlertNotification_law: "\<And>an. preserves P (RecordAlertNotification an)"
    and TouchPlaygroundSession_law: "\<And>i. preserves P (TouchPlaygroundSession i)"
    and SetPlaygroundFailDestination_law: "\<And>i b. preserves P (SetPlaygroundFailDestination i b)"
    and DeletePlaygroundSessionsOlderThan_law: "\<And>t. preserves P (DeletePlaygroundSessionsOlderThan t)"
    and EvictOldestPlaygroundSessions_law: "\<And>n. preserves P (EvictOldestPlaygroundSessions n)"
    and CreatePlaygroundSession_law: "\<And>p i e u. preserves P (CreatePlaygroundSession p i e u)"
    and SaveNotificationSettings_law: "\<And>ns. preserves P (SaveNotificationSettings ns)"
begin

lemma keeps_case:
  assumes "preserves P q" "P (tbl d)"
    and "\<And>r d'. P (tbl d') \<Longrightarrow> P (tbl (srv_db (snd (f r d'))))"
  shows "P (tbl (srv_db (snd (case q d of (r, d') \<Rightarrow> f r d'))))"
  using assms by (auto split: prod.splits dest: preserves_step)

lemma pdb_case:
  assumes "preserves P q" "P (tbl d)"
    and "\<And>r d'. P (tbl d') \<Longrightarrow> P (tbl (pdb (snd (f r d'))))"
  shows "P (tbl (pdb (snd (case q d of (r, d') \<Rightarrow> f r d'))))"
  using assms by (auto split: prod.splits dest: preserves_step)

lemma play_case:
  assumes "keeps_play P h" "P (tbl (pdb s))"
    and "\<And>r s'. P (tbl (pdb s')) \<Longrightarrow> P (tbl (pdb (snd (f r s'))))"
  shows "P (tbl (pdb (snd (case h s of (r, s') \<Rightarrow> f r s'))))"
  using assms by (auto split: prod.splits dest: keeps_playD)

lemma startReplay_case:
  assumes "P (tbl (srv_db c))" and "\<And>r c'. P (tbl (srv_db c')) \<Longrightarrow> P (tbl (pdb (snd (f r c'))))"
  shows "P (tbl (pdb (snd (case startReplay E now i c of (r, c') \<Rightarrow> f r c'))))"
  using assms by (auto simp: startReplay_def split: prod.splits dest!: ExecuteWorkflow_db)

lemma session_handlers_keep:
  "srv_keeps P (login E now req)" "srv_keeps P (logout E cookies)"
  by (rule srv_keepsI,
      auto simp: login_def logout_def split: reply_splits
        dest: GetUserByEmail_keeps [THEN preserves_step] CreateSession_law [THEN preserves_step]
        intro: preservesD [OF DeleteSession_law])+

lemma auth_keeps: "srv_keeps P h \<Longrightarrow> srv_keeps P (auth E cookies h)"
  by (rule srv_keepsI)
     (auto simp: auth_def srv_keeps_def split: reply_splits dest: GetSession_keeps [THEN preserves_step])

lemma start_delivery_keeps: "P (tbl (srv_db s)) \<Longrightarrow> P (tbl (srv_db (start_delivery E i s)))"
  by (auto simp: start_delivery_def Let_def split: prod.splits sum.splits
      dest!: ExecuteWorkflow_db intro: preservesD [OF SetEventWorkflowID_law])

lemma ingest_accept_keeps: "store_enc E = enc \<Longrightarrow> srv_keeps P (ingest_accept E rs conn a h b)"
  by (rule srv_keepsI)
     (auto simp: ingest_accept_def Let_def split: reply_splits dest: InsertEvent_law [THEN preserves_step]
       intro!: start_delivery_keeps)

lemma ingest_keeps:
  assumes "store_enc E = enc"
  shows "srv_keeps P (ingest E clk rs path stream h)"
proof (rule srv_keepsI)
  fix s :: server assume inv: "P (tbl (srv_db s))"
  obtain r s' where i: "ingest E clk rs path stream h s = (r, s')" by fastforce
  have "P (tbl (srv_db s'))"
  proof (rule ingest_cases [OF i])
    fix conn secret a s1
    assume g: "getCachedConnection E clk path s = (Inr (Some conn, secret), s1)"
      and acc: "ingest_accept E rs conn a h (bs_bytes stream) s1 = (r, s')"
    show ?thesis by (rule srv_keepsD [OF ingest_accept_keeps [OF assms] acc]) (use inv getCachedConnection_frame [OF g] in simp)
  qed (use inv in auto)
  with i show "P (tbl (srv_db (snd (ingest E clk rs path stream h s))))" by simp
qed

lemma replay_ids_keeps: "P (tbl (srv_db s)) \<Longrightarrow> P (tbl (srv_db (snd (replay_ids E now ids n s))))"
proof (induction ids arbitrary: n s)
  case (Cons idStr ids)
  from Cons.prems show ?case
    by (auto split: reply_splits simp: startReplay_def intro!: Cons.IH
        dest!: ExecuteWorkflow_db dest: GetIssue_keeps [THEN preserves_step])
qed simp

lemma read_handlers_keep:
  "srv_keeps P (getConnection E i)" "srv_keeps P (listDeliveries E i)"
  "srv_keeps P (listIssues st)" "srv_keeps P (getIssue E i)" "srv_keeps P (getMetrics E)"
  "srv_keeps P healthz" "srv_keeps P readyz" "srv_keeps P (getConfig E)" "srv_keeps P (getNotificationSettings E)"
  "srv_keeps P listAlertRules" "srv_keeps P (listAlertNotifications q)"
  by (rule srv_keepsI,
      auto simp: getConnection_def listDeliveries_def listIssues_def getIssue_def getMetrics_def
        healthz_def readyz_def getConfig_def getNotificationSettings_def listAlertRules_def listAlertNotifications_def
        notificationSettings_def split: reply_splits
        dest: GetConnection_keeps [THEN preserves_step] GetConnectionStats_keeps [THEN preserves_step]
          ListDeliveriesForConnection_keeps [THEN preserves_step] ListIssues_keeps [THEN preserves_step]
          GetIssue_keeps [THEN preserves_step] GetEvent_keeps [THEN preserves_step] GetPlatformMetrics_keeps [THEN preserves_step]
          Ping_keeps [THEN preserves_step] Load_settings_keeps [THEN preserves_step]
          alert_reads_keep(1) [THEN preserves_step] alert_reads_keep(4) [THEN preserves_step])+

lemma listConnections_keeps: "srv_keeps P (listConnections E)"
  by (rule srv_keepsI)
     (auto simp: listConnections_def connectionStatsMap_def split: reply_splits
       dest: ListConnections_keeps [THEN preserves_step] stats_keep(1) [THEN preserves_step])

lemma createConnection_keeps: "srv_keeps P (createConnection E b r u q)"
  by (rule srv_keepsI)
     (auto simp: createConnection_def Let_def split: reply_splits dest: CreateConnection_law [THEN preserves_step])

lemma patch_secret_keeps: "patch_secret E r i q d = (x, d') \<Longrightarrow> P (tbl d) \<Longrightarrow> P (tbl d')"
  by (auto simp: patch_secret_def Let_def split: reply_splits dest: UpdateConnectionSecret_law [THEN preserves_step])

lemma patchConnection_keeps: "srv_keeps P (patchConnection E r i q)"
  by (rule srv_keepsI)
     (auto simp: patchConnection_def split: reply_splits
       dest: UpdateConnection_law [THEN preserves_step] patch_secret_keeps)

lemma replay_handlers_keep: "srv_keeps P (replayIssue E now i)" "srv_keeps P (replayBulk E clk ids)"
  by (rule srv_keepsI, auto simp: replayIssue_def replayBulk_def startReplay_def split: reply_splits
       dest!: ExecuteWorkflow_db dest: GetIssue_keeps [THEN preserves_step])
     (rule srv_keepsI, auto simp: replayBulk_def split: reply_splits, metis replay_ids_keeps snd_conv)

lemma check_threshold_keeps: "check_threshold i th d = (x, d') \<Longrightarrow> P (tbl d) \<Longrightarrow> P (tbl d')"
  by (auto simp: check_threshold_def split: reply_splits dest: alert_reads_keep(3) [THEN preserves_step])

lemma rule_handlers_keep:
  "srv_keeps P (createAlertRule E q)" "srv_keeps P (patchAlertRule E i p)" "srv_keeps P (deleteAlertRule E i)"
  by (rule srv_keepsI,
      auto simp: createAlertRule_def patchAlertRule_def deleteAlertRule_def notificationSettings_def Let_def split: reply_splits
        dest: Load_settings_keeps [THEN preserves_step] CreateAlertRule_law [THEN preserves_step] check_threshold_keeps
          UpdateAlertRule_law [THEN preserves_step] DeleteAlertRule_law [THEN preserves_step])+

lemma putNotificationSettings_keeps: "srv_keeps P (putNotificationSettings E rs q)"
  by (rule srv_keepsI)
     (auto simp: putNotificationSettings_def notificationSettings_def Let_def split: option.splits sum.splits
       intro!: keeps_case [OF alert_reads_keep(10)] keeps_case [OF SaveNotificationSettings_law] keeps_case [OF Load_settings_keeps])

lemmas console_keeps = session_handlers_keep ingest_keeps read_handlers_keep listConnections_keeps createConnection_keeps
  patchConnection_keeps replay_handlers_keep rule_handlers_keep putNotificationSettings_keeps

lemma touch_keeps: "P (tbl (pdb s)) \<Longrightarrow> P (tbl (pdb (touch ps s)))"
  by (simp add: touch_def preservesD [OF TouchPlaygroundSession_law])

lemma limited_keeps: "keeps_play P h \<Longrightarrow> keeps_play P (limited w n b r h)"
  by (rule keeps_playI) (auto simp: limited_def Let_def keeps_play_def split: prod.splits)

lemma session_keeps: "keeps_play P (playgroundSessionFromRequest E r)"
  by (rule keeps_playI)
     (auto simp: playgroundSessionFromRequest_def split: reply_splits dest: alert_reads_keep(5) [THEN preserves_step])

lemma evict_for_one_keeps: "P (tbl d) \<Longrightarrow> P (tbl (evict_for_one E d))"
  by (auto simp: evict_for_one_def split: reply_splits dest: alert_reads_keep(6) [THEN preserves_step]
      intro!: preservesD [OF EvictOldestPlaygroundSessions_law])

lemma bootstrap_new_keeps: "keeps_play P (bootstrap_new E b)"
  by (rule keeps_playI)
     (auto simp: bootstrap_new_def Let_def evict_for_one_keeps split: sum.splits
       intro!: pdb_case [OF CreatePlaygroundSession_law])

lemma bootstrap_keeps: "keeps_play P (playgroundBootstrap E b r)"
  unfolding playgroundBootstrap_def
  by (intro limited_keeps keeps_playI)
     (auto simp: Let_def intro!: play_case [OF session_keeps] pdb_case [OF GetConnection_keeps] touch_keeps
       keeps_play_snd [OF bootstrap_new_keeps] split: option.splits sum.splits)

lemma status_keeps: "keeps_play P (playgroundStatus E r)"
  unfolding playgroundStatus_def
  by (rule keeps_playI)
     (auto simp: Let_def intro!: play_case [OF session_keeps] pdb_case [OF GetConnection_keeps] touch_keeps
       pdb_case [OF alert_reads_keep(9)] pdb_case [OF alert_reads_keep(8)] pdb_case [OF GetConnectionStats_keeps]
       pdb_case [OF ListDeliveriesForConnection_keeps] split: option.splits sum.splits)

lemma stream_keeps: "keeps_play P (playgroundStream E r)"
  unfolding playgroundStream_def
  by (rule keeps_playI)
     (auto simp: Let_def intro!: touch_keeps split: reply_splits bool.splits dest: keeps_playD [OF session_keeps])

lemma net_post_keeps: "store_enc E = enc \<Longrightarrow> keeps_play P (net_post E ch url body h)"
  by (rule keeps_playI)
     (auto simp: net_post_def split: target.splits prod.splits simp: truncate_simps dest: srv_keepsD [OF ingest_keeps, rotated])

lemma send_loop_keeps:
  fixes s :: play
  assumes "\<And>u b h. keeps_play P (post u b h)"
  shows "P (tbl (pdb s)) \<Longrightarrow> P (tbl (pdb (snd (send_loop S post url secret provider count dup i out s))))"
proof (induction "nat (count - int i)" arbitrary: i out s)
  case 0
  then show ?case by (simp add: send_loop.simps)
next
  case (Suc n)
  then have n: "n = nat (count - int (Suc i))" by simp
  show ?case
    using Suc.prems
    by (subst send_loop.simps)
       (auto simp: Let_def split: sum.splits prod.splits intro!: Suc.hyps(1) [OF n] dest: keeps_playD [OF assms])
qed

lemma SendEvents_keeps: "(\<And>u b h. keeps_play P (post u b h)) \<Longrightarrow> keeps_play P (SendEvents S post base path secret provider count dup)"
  by (rule keeps_playI) (simp add: SendEvents_def send_loop_keeps)

lemma switch_provider_keeps: "keeps_play P (switch_provider c p)"
  by (rule keeps_playI)
     (auto simp: switch_provider_def Let_def split: reply_splits dest: UpdateConnectionSourceType_law [THEN preserves_step])

lemma simulate_keeps: "(\<And>u b h. keeps_play P (post u b h)) \<Longrightarrow> keeps_play P (playgroundSimulate E S post r q)"
  unfolding playgroundSimulate_def
  by (intro limited_keeps keeps_playI)
     (auto simp: Let_def intro!: play_case [OF session_keeps] pdb_case [OF GetConnection_keeps] touch_keeps
       play_case [OF switch_provider_keeps] play_case [OF SendEvents_keeps]
       split: option.splits sum.splits bool.splits)

lemma set_fail_keeps: "keeps_play P (playgroundSetFail E b r)"
  unfolding playgroundSetFail_def
  by (intro limited_keeps keeps_playI)
     (auto simp: Let_def intro!: play_case [OF session_keeps] pdb_case [OF SetPlaygroundFailDestination_law]
       split: option.splits sum.splits)

lemma replay_keeps: "keeps_play P (playgroundReplay E now r)"
  unfolding playgroundReplay_def
  by (intro limited_keeps keeps_playI)
     (auto intro!: play_case [OF session_keeps] pdb_case [OF alert_reads_keep(7)] startReplay_case
       split: option.splits sum.splits)

lemma receiver_keeps: "keeps_play P (playgroundReceiver E ms ts h b i)"
  unfolding playgroundReceiver_def
  by (rule keeps_playI)
     (auto simp: Let_def intro!: pdb_case [OF alert_reads_keep(5)] split: option.splits sum.splits)

lemma GC_keeps: "P (tbl d) \<Longrightarrow> P (tbl (playgroundGC E now d))"
  by (auto simp: playgroundGC_def split: reply_splits dest: alert_reads_keep(6) [THEN preserves_step]
      DeletePlaygroundSessionsOlderThan_law [THEN preserves_step] intro!: preservesD [OF EvictOldestPlaygroundSessions_law])

lemmas play_keeps = bootstrap_keeps status_keeps stream_keeps simulate_keeps [OF net_post_keeps] set_fail_keeps replay_keeps receiver_keeps

lemma guarded_keeps:
  assumes "keeps_app P h"
  shows "keeps_app P (guarded E cookies h)"
proof -
  have "srv_keeps P (auth E cookies (\<lambda>c. (Reply 0 (), c)))" by (rule auth_keeps) (simp add: srv_keeps_def)
  with assms show ?thesis
    by (auto simp: keeps_app_def guarded_def adb_def split: prod.splits reply.splits dest: srv_keepsD)
qed

lemma console_keeps_app: "console A ch q rt = Some h \<Longrightarrow> keeps_app P h"
  by (cases rt) (auto intro!: on_core_keeps on_sink_keeps console_keeps)

lemma public_keeps_app: "store_enc (core_env A) = enc \<Longrightarrow> keeps_app P (public A ch q rt)"
  by (cases rt) (auto intro!: on_core_keeps on_sink_keeps on_play_keeps console_keeps play_keeps same_keeps simp: truncate_simps)

lemma handle_keeps:
  assumes "store_enc (core_env A) = enc"
  shows "keeps_app P (handle A ch q)"
proof -
  have "keeps_app P (dispatch A ch q rt)" for rt
    by (auto simp: dispatch_def split: option.splits intro: guarded_keeps console_keeps_app public_keeps_app [OF assms])
  then show ?thesis by (auto simp: keeps_app_def handle_def Let_def split: option.splits)
qed

lemma evaluate_rule_keeps: "P (tbl (evr_db s)) \<Longrightarrow> P (tbl (evr_db (evaluate_rule E m rule s)))"
  by (auto simp: evaluate_rule_def send_alert_def record_sent_def Let_def clearFiring_def clearDeliveryError_def noteDeliveryError_def
      split: reply_splits dest!: currentValue_tbl sendNotification_tbl
      intro!: preservesD [OF SetAlertRuleFiring_law] preservesD [OF SetAlertRuleDeliveryError_law] preservesD [OF RecordAlertNotification_law])

lemma evaluateOnce_keeps:
  assumes "P (tbl (evr_db s))"
  shows "P (tbl (evr_db (snd (evaluateOnce E s))))"
proof -
  have f: "P (tbl (evr_db u)) \<Longrightarrow> P (tbl (evr_db (fold (evaluate_rule E m) rules u)))" for rules m and u :: evaluator
    by (induction rules arbitrary: u) (auto intro: evaluate_rule_keeps)
  obtain r d where l: "ListAlertRules (evr_db s) = (r, d)" by fastforce
  obtain r' d' where m: "GetPlatformMetrics (al_p95 E) (al_trunc_hour E) d = (r', d')" by fastforce
  have "P (tbl d)" by (rule preserves_step [where P = P, OF alert_reads_keep(1) assms l])
  moreover from this have "P (tbl d')" by (rule preserves_step [where P = P, OF GetPlatformMetrics_keeps _ m])
  ultimately show ?thesis by (auto simp: evaluateOnce_def l m split: sum.splits intro!: f)
qed

end

section \<open>The invariant of the database\<close>

interpretation db_inv: store_invariant enc app_inv for enc
  by unfold_locales
    (rule CreateConnection_keeps UpdateConnection_keeps UpdateConnectionSecret_keeps UpdateConnectionSourceType_keeps
      InsertEvent_keeps SetEventWorkflowID_keeps CreateSession_keeps DeleteSession_keeps CreateAlertRule_keeps
      UpdateAlertRule_keeps DeleteAlertRule_keeps SetAlertRuleFiring_keeps SetAlertRuleDeliveryError_keeps
      RecordAlertNotification_keeps TouchPlaygroundSession_keeps SetPlaygroundFailDestination_keeps
      DeletePlaygroundSessionsOlderThan_keeps EvictOldestPlaygroundSessions_keeps CreatePlaygroundSession_keeps
      SaveNotificationSettings_keeps)+

section \<open>Properties of the stored events\<close>

text \<open>
  Only two methods of the store that the servers call write events.  A property of the events
  that both keep is kept by every request.
\<close>

lemma keep_events_alerts:
  "preserves (\<lambda>t. Q (events t)) (insert_rule_stmt ar)" "preserves (\<lambda>t. Q (events t)) (update_rule_stmt i ar)"
  unfolding insert_rule_stmt_def update_rule_stmt_def
  by (rule preserves_pool, auto simp: Let_def split_beta split: option.splits)+

lemma keep_events_CreateConnection: "preserves (\<lambda>t. Q (events t)) (CreateConnection c)"
  unfolding CreateConnection_def by (rule preserves_pool) (auto simp: Let_def split_beta split: option.splits)

lemma keep_events_update_connection_stmt: "preserves (\<lambda>t. Q (events t)) (update_connection_stmt i c)"
  unfolding update_connection_stmt_def by (rule preserves_pool) (auto simp: Let_def split_beta split: option.splits)

lemma UpdateConnection_preserves:
  "(\<And>i c. preserves P (update_connection_stmt i c)) \<Longrightarrow> preserves P (UpdateConnection i n u a f b r)"
  by (rule preservesI)
     (auto simp: UpdateConnection_def Let_def split: reply_splits dest: preserves_step [OF GetConnection_keeps] preserves_step)

lemmas keep_events_UpdateConnection = UpdateConnection_preserves [OF keep_events_update_connection_stmt]

lemma keep_events_UpdateConnectionSecret: "preserves (\<lambda>t. Q (events t)) (UpdateConnectionSecret i s)"
  unfolding UpdateConnectionSecret_def by (rule preserves_pool) (auto simp: Let_def)

lemma keep_events_UpdateConnectionSourceType: "preserves (\<lambda>t. Q (events t)) (UpdateConnectionSourceType i s)"
  unfolding UpdateConnectionSourceType_def by (rule preserves_pool) (auto simp: Let_def)

lemma keep_events_CreateSession: "preserves (\<lambda>t. Q (events t)) (CreateSession x)"
  unfolding CreateSession_def by (rule preserves_pool) (auto simp: Let_def split_beta)

lemma keep_events_DeleteSession: "preserves (\<lambda>t. Q (events t)) (DeleteSession i)"
  unfolding DeleteSession_def by (rule preserves_pool) auto

lemma CreateAlertRule_preserves:
  assumes "preserves P (insert_rule_stmt ar)"
  shows "preserves P (CreateAlertRule ar)"
proof -
  have "preserves P (pool (Pair (Inr () :: unit result)))" by (rule preserves_pool) simp
  then show ?thesis
    unfolding CreateAlertRule_def
    by (intro preserves_transaction preservesI)
       (auto simp: create_rule_body_def split: reply_splits
         dest: preserves_step preserves_step [OF alert_reads_keep(2)] intro: preservesD [OF assms])
qed

lemmas keep_events_CreateAlertRule = CreateAlertRule_preserves [OF keep_events_alerts(1)]

lemma UpdateAlertRule_preserves:
  "(\<And>i r. preserves P (update_rule_stmt i r)) \<Longrightarrow> preserves P (UpdateAlertRule i a t s b)"
  by (rule preservesI)
     (auto simp: UpdateAlertRule_def Let_def split: reply_splits dest: preserves_step [OF alert_reads_keep(3)] preserves_step)

lemmas keep_events_UpdateAlertRule = UpdateAlertRule_preserves [OF keep_events_alerts(2)]

lemma keep_events_DeleteAlertRule: "preserves (\<lambda>t. Q (events t)) (DeleteAlertRule i)"
  unfolding DeleteAlertRule_def by (rule preserves_pool) auto

lemma keep_events_SetAlertRuleFiring: "preserves (\<lambda>t. Q (events t)) (SetAlertRuleFiring i th)"
  unfolding SetAlertRuleFiring_def by (rule preserves_pool) (auto simp: set_rule_stmt_def Let_def split: option.splits)

lemma keep_events_SetAlertRuleDeliveryError: "preserves (\<lambda>t. Q (events t)) (SetAlertRuleDeliveryError i m)"
  unfolding SetAlertRuleDeliveryError_def by (rule preserves_pool) (auto simp: set_rule_stmt_def Let_def)

lemma keep_events_RecordAlertNotification: "preserves (\<lambda>t. Q (events t)) (RecordAlertNotification an)"
  unfolding RecordAlertNotification_def by (rule preserves_pool) (auto simp: Let_def split_beta split: option.splits)

lemma keep_events_TouchPlaygroundSession: "preserves (\<lambda>t. Q (events t)) (TouchPlaygroundSession i)"
  unfolding TouchPlaygroundSession_def by (rule preserves_pool) auto

lemma keep_events_SetPlaygroundFailDestination: "preserves (\<lambda>t. Q (events t)) (SetPlaygroundFailDestination i b)"
  unfolding SetPlaygroundFailDestination_def by (rule preserves_pool) auto

lemma keep_events_DeletePlaygroundSessionsOlderThan: "preserves (\<lambda>t. Q (events t)) (DeletePlaygroundSessionsOlderThan t)"
  unfolding DeletePlaygroundSessionsOlderThan_def by (rule preserves_pool) auto

lemma keep_events_EvictOldestPlaygroundSessions: "preserves (\<lambda>t. Q (events t)) (EvictOldestPlaygroundSessions n)"
  unfolding EvictOldestPlaygroundSessions_def by (rule preserves_pool) (auto simp: Let_def)

lemma keep_events_insert_session_stmt: "preserves (\<lambda>t. Q (events t)) (insert_session_stmt s c)"
  unfolding insert_session_stmt_def by (rule preserves_pool) (auto simp: Let_def)

lemma CreatePlaygroundSession_preserves:
  assumes "\<And>c. preserves P (CreateConnection c)" "\<And>i c. preserves P (insert_session_stmt i c)"
  shows "preserves P (CreatePlaygroundSession p i x u)"
  unfolding CreatePlaygroundSession_def
  by (intro preserves_transaction preservesI)
     (auto simp: create_session_body_def split: reply_splits dest: preserves_step [OF assms(1)] preserves_step [OF assms(2)])

lemma keep_events_CreatePlaygroundSession: "preserves (\<lambda>t. Q (events t)) (CreatePlaygroundSession p i x u)"
  by (rule CreatePlaygroundSession_preserves) (rule keep_events_CreateConnection keep_events_insert_session_stmt)+

lemma keep_events_SaveNotificationSettings: "preserves (\<lambda>t. Q (events t)) (SaveNotificationSettings ns)"
  unfolding SaveNotificationSettings_def by (rule preserves_pool) auto

locale events_invariant =
  fixes enc :: "encryptor option" and Q :: "event_row list \<Rightarrow> bool"
  assumes InsertEvent_Q: "\<And>rs e. preserves (\<lambda>t. Q (events t)) (InsertEvent enc rs e)"
    and SetEventWorkflowID_Q: "\<And>i w. preserves (\<lambda>t. Q (events t)) (SetEventWorkflowID i w)"

sublocale events_invariant \<subseteq> store_invariant enc "\<lambda>t. Q (events t)"
  by unfold_locales
    (rule InsertEvent_Q SetEventWorkflowID_Q keep_events_CreateConnection keep_events_UpdateConnection keep_events_UpdateConnectionSecret
      keep_events_UpdateConnectionSourceType keep_events_CreateSession keep_events_DeleteSession
      keep_events_CreateAlertRule keep_events_UpdateAlertRule keep_events_DeleteAlertRule
      keep_events_SetAlertRuleFiring keep_events_SetAlertRuleDeliveryError keep_events_RecordAlertNotification
      keep_events_TouchPlaygroundSession keep_events_SetPlaygroundFailDestination
      keep_events_DeletePlaygroundSessionsOlderThan keep_events_EvictOldestPlaygroundSessions
      keep_events_CreatePlaygroundSession keep_events_SaveNotificationSettings)+

section \<open>No event in the clear\<close>

text \<open>Every row is marked as sealed, and opens with the key.\<close>

definition sealed_row :: "encryptor \<Rightarrow> event_row \<Rightarrow> bool" where
  "sealed_row e r \<longleftrightarrow> erow_encrypted r \<and> (\<exists>ev. opened e r = Inr (Some ev))"

abbreviation sealed_events :: "encryptor \<Rightarrow> tables \<Rightarrow> bool" where
  "sealed_events e t \<equiv> \<forall>r \<in> set (events t). sealed_row e r"

lemma sealed_insert:
  assumes "sealEventFields (Some e) rs h p = Inr (h', p')"
  shows "preserves (sealed_events e) (insert_event_stmt c i h' p')"
proof -
  have "sealed_row e \<lparr>erow_id = k, erow_connection_id = c, erow_provider_event_id = i, erow_raw_headers = h',
      erow_raw_payload = p', erow_encrypted = True, erow_received_at = t, erow_workflow_id = None\<rparr>" for k t
    using open_seal [OF assms] by (simp add: sealed_row_def opened_def scanEvent_def)
  then show ?thesis
    unfolding insert_event_stmt_def
    by (intro preserves_pool) (auto simp: Let_def split_beta)
qed

lemma sealed_workflow: "sealed_row e r \<Longrightarrow> sealed_row e (r\<lparr>erow_workflow_id := w\<rparr>)"
  by (auto simp: sealed_row_def opened_def scanEvent_def split: sum.splits prod.splits)

lemma InsertEvent_seals:
  assumes "\<And>h p. sealEventFields enc rs (ev_raw_headers ev) (ev_raw_payload ev) = Inr (h, p) \<Longrightarrow>
    preserves P (insert_event_stmt (ev_connection_id ev) (ev_provider_event_id ev) h p)"
  shows "preserves P (InsertEvent enc rs ev)"
  by (rule preservesI)
     (auto simp: InsertEvent_def split: reply_splits
       dest: preserves_step [OF assms] preserves_step [OF GetEventByProviderID_keeps])

lemma sealed_InsertEvent: "preserves (sealed_events e) (InsertEvent (Some e) rs ev)"
  by (rule InsertEvent_seals) (rule sealed_insert)

lemma sealed_SetEventWorkflowID: "preserves (sealed_events e) (SetEventWorkflowID i w)"
  unfolding SetEventWorkflowID_def
  by (rule preserves_pool) (auto simp: set_update_by intro: sealed_workflow)

lemma sealed_PurgeExpiredEvents: "preserves (sealed_events e) PurgeExpiredEvents"
  unfolding PurgeExpiredEvents_def by (rule preserves_pool) (auto simp: delete_events_def Let_def)

interpretation sealed: events_invariant "Some e" "\<lambda>evs. \<forall>r \<in> set evs. sealed_row e r" for e
  by unfold_locales (rule sealed_InsertEvent sealed_SetEventWorkflowID)+

end
