(* ===== verification/Startup.thy ===== *)
theory Startup
  imports Server
begin

text \<open>
  \<^verbatim>\<open>cmd/tuma/main.go\<close>: what happens before the process serves.  The arguments, the environment,
  the migrations, the random source, bcrypt and the Temporal server are parameters.
  How the API process serves and ends is in \<open>Lifecycle\<close>, the evaluators of the workers in
  \<open>Workers\<close>; the tracing is not modelled.
\<close>

section \<open>Helpers\<close>

datatype level = LevelDebug | LevelInfo | LevelWarn | LevelError

definition parseLevel :: "string \<Rightarrow> level" where
  "parseLevel s =
     (if s = ''debug'' then LevelDebug else if s = ''warn'' then LevelWarn else if s = ''error'' then LevelError else LevelInfo)"

definition envOr :: "(string \<Rightarrow> string) \<Rightarrow> string \<Rightarrow> string \<Rightarrow> string" where
  "envOr getenv key fallback = (if getenv key \<noteq> [] then getenv key else fallback)"

datatype migrated = MigrateFailed go_error | NoChange | Migrated

text \<open>
  The surroundings of the process.  \<open>be_random n\<close> are \<open>n\<close> bytes of the random source, \<open>be_seal k\<close>
  the nonces for the \<open>k\<close>-th legacy event.
\<close>

record boot_env =
  be_args :: "string list"
  be_getenv :: "string \<Rightarrow> string"
  be_migrate_new :: "string \<Rightarrow> string \<Rightarrow> go_error option"
  be_migrate_up :: "db \<Rightarrow> migrated \<times> db"
  be_pool_err :: "string \<Rightarrow> go_error option"
  be_seal :: "nat \<Rightarrow> 96 word result \<times> 96 word result"
  be_random :: "nat \<Rightarrow> bytes result"
  be_bcrypt :: "string \<Rightarrow> string result"
  be_otel_err :: "go_error option"

definition randomPassword :: "boot_env \<Rightarrow> nat \<Rightarrow> string result" where
  "randomPassword B byteLen = (case be_random B byteLen of Inl e \<Rightarrow> Inl e | Inr b \<Rightarrow> Inr (hex_encode b))"

definition runMigrations :: "boot_env \<Rightarrow> string \<Rightarrow> db \<Rightarrow> go_error option \<times> db" where
  "runMigrations B dbURL d =
     (let source = envOr (be_getenv B) ''MIGRATIONS_PATH'' ''file://migrations''
      in case be_migrate_new B source dbURL of
           Some e \<Rightarrow> (Some e, d)
         | None \<Rightarrow>
             (case be_migrate_up B d of
                (MigrateFailed e, d') \<Rightarrow> (Some e, d')
              | (_, d') \<Rightarrow> (None, d')))"

section \<open>The first administrator\<close>

text \<open>The value is what is shown on the terminal: the generated credentials, if any.\<close>

definition bootstrapAdmin :: "boot_env \<Rightarrow> (string \<times> string) option query" where
  "bootstrapAdmin B d0 =
     (case CountUsers d0 of
        (Inl e, d) \<Rightarrow> (Inl e, d)
      | (Inr n, d) \<Rightarrow>
          if 0 < n then (Inr None, d)
          else
            let email = envOr (be_getenv B) ''TUMA_ADMIN_EMAIL'' ''admin@localhost'';
                given = be_getenv B ''TUMA_ADMIN_PASSWORD'';
                generated = (given = [])
            in case (if generated then randomPassword B 24 else Inr given) of
                 Inl e \<Rightarrow> (Inl e, d)
               | Inr pass \<Rightarrow>
                   (case be_bcrypt B pass of
                      Inl e \<Rightarrow> (Inl e, d)
                    | Inr hash \<Rightarrow>
                        (case CreateUser \<lparr>user_id = 0, user_email = email, user_password_hash = hash, user_created_at = 0\<rparr> d of
                           (Inl e, d') \<Rightarrow> (Inl e, d')
                         | (Inr _, d') \<Rightarrow> (Inr (if generated then Some (email, pass) else None), d'))))"

section \<open>Connecting to Temporal\<close>

text \<open>
  What the \<open>i\<close>-th dial answers and how long it takes, and by how much the sleep after it
  overruns: \<^verbatim>\<open>time.Sleep\<close> never returns early.
\<close>

record dial_world =
  dw_result :: "nat \<Rightarrow> unit result"
  dw_took :: "nat \<Rightarrow> nat"
  dw_overslept :: "nat \<Rightarrow> nat"

definition next_backoff :: "time \<Rightarrow> time" where
  "next_backoff b = (if b < 15 * Second then 2 * b else b)"

text \<open>The loop: the result, the number of dials and the time at the end.\<close>

partial_function (option) dial_loop ::
  "dial_world \<Rightarrow> time \<Rightarrow> time \<Rightarrow> nat \<Rightarrow> time \<Rightarrow> (unit result \<times> nat \<times> time) option" where
  "dial_loop W deadline b i now =
     (let t = now + int (dw_took W i)
      in case dw_result W i of
           Inr c \<Rightarrow> Some (Inr c, Suc i, t)
         | Inl e \<Rightarrow>
             if deadline < t then Some (Inl e, Suc i, t)
             else dial_loop W deadline (next_backoff b) (Suc i) (t + b + int (dw_overslept W i)))"

definition dialTemporal :: "dial_world \<Rightarrow> time \<Rightarrow> (unit result \<times> nat \<times> time) option" where
  "dialTemporal W t0 = dial_loop W (t0 + 3 * Minute) Second 0 t0"

section \<open>The start of the process\<close>

text \<open>
  How the start ends: an exit with its message, or serving.  An API process is its
  configuration, the two encryptors and its state; a worker is its configuration, its state
  and the evaluator of the alert rules.
\<close>

datatype process =
    Exit string
  | API config encryptor encryptor app
  | Worker config encryptor encryptor worker

definition runAPI :: "db \<Rightarrow> app" where
  "runAPI d0 =
     (case OpenIssuesCount d0 of
        (Inr n, d) \<Rightarrow> NewServer d (SetDLQDepth (int n) new_metrics)
      | (Inl _, d) \<Rightarrow> NewServer d new_metrics)"

definition runWorker :: "config \<Rightarrow> db \<Rightarrow> worker" where
  "runWorker c d =
     \<lparr>w_db = d, w_metrics = new_metrics, w_sems = NewConnectionSemaphores (PerConnConcurrency c),
      w_sent = [], w_sleeps = [], w_uuids = 0, w_acts = 0\<rparr>"

text \<open>\<^verbatim>\<open>main\<close> from the store on.\<close>

definition start_serving ::
  "boot_env \<Rightarrow> dial_world \<Rightarrow> time \<Rightarrow> string \<Rightarrow> config \<Rightarrow> encryptor \<Rightarrow> encryptor \<Rightarrow> db \<Rightarrow> process \<times> db" where
  "start_serving B W t0 mode c enc payloadEnc d1 =
     (case (if mode = ''api'' then BackfillPayloadEncryption (Some payloadEnc) (be_seal B) d1 else ((0, None), d1)) of
        ((_, Some _), d2) \<Rightarrow> (Exit ''payload encryption backfill failed'', d2)
      | ((_, None), d2) \<Rightarrow>
          (case bootstrapAdmin B d2 of
             (Inl _, d3) \<Rightarrow> (Exit ''bootstrap failed'', d3)
           | (Inr _, d3) \<Rightarrow>
               if be_otel_err B \<noteq> None then (Exit ''otel interceptor failed'', d3)
               else (case dialTemporal W t0 of
                  Some (Inr _, _) \<Rightarrow>
                    if mode = ''api'' then (let s = runAPI d3 in (API c enc payloadEnc s, srv_db (plg_core (app_play s))))
                    else if mode = ''worker'' then (Worker c enc payloadEnc (runWorker c d3), d3)
                    else (Exit (''unknown serve mode: '' @ mode), d3)
                | _ \<Rightarrow> (Exit ''temporal client failed'', d3))))"

definition main :: "boot_env \<Rightarrow> dial_world \<Rightarrow> time \<Rightarrow> db \<Rightarrow> process \<times> db" where
  "main B W t0 d0 =
     (if length (be_args B) < 3 \<or> be_args B ! 1 \<noteq> ''serve'' then (Exit ''usage: tuma serve api|worker'', d0)
      else case Load (be_getenv B) of
        Inl e \<Rightarrow> (Exit (''config: '' @ error_string e), d0)
      | Inr c \<Rightarrow>
          (let mode = be_args B ! 2
           in case (if mode = ''api'' then runMigrations B (DatabaseURL c) d0 else (None, d0)) of
                (Some _, d1) \<Rightarrow> (Exit ''migrations failed'', d1)
              | (None, d1) \<Rightarrow>
                  if be_pool_err B (DatabaseURL c) \<noteq> None then (Exit ''db connect failed'', d1)
                  else (case NewEncryptor (EncryptionKey c) of
                     Inl _ \<Rightarrow> (Exit ''encryptor init failed'', d1)
                   | Inr enc \<Rightarrow>
                       (case NewEncryptor (PayloadKey c) of
                          Inl _ \<Rightarrow> (Exit ''payload encryptor init failed'', d1)
                        | Inr payloadEnc \<Rightarrow> start_serving B W t0 mode c enc payloadEnc d1))))"

text \<open>One round of the retention loop; its error is only logged.\<close>

definition runRetention :: "db \<Rightarrow> db" where
  "runRetention d = snd (PurgeExpiredEvents d)"

section \<open>Connecting ends\<close>

text \<open>What the loop returns from the \<open>i\<close>-th dial on: the answer of its last dial, all before it failed.\<close>

definition dial_done :: "dial_world \<Rightarrow> time \<Rightarrow> nat \<Rightarrow> unit result \<times> nat \<times> time \<Rightarrow> bool" where
  "dial_done W deadline i = (\<lambda>(r, n, t).
     i < n \<and> r = dw_result W (n - 1) \<and> (\<forall>k. i \<le> k \<longrightarrow> k < n - 1 \<longrightarrow> isl (dw_result W k)) \<and> (isl r \<longrightarrow> deadline < t))"

lemma dial_step:
  assumes "\<And>now'. now + b \<le> now' \<Longrightarrow>
      \<exists>r n t. dial_loop W deadline (next_backoff b) (Suc i) now' = Some (r, n, t) \<and> n \<le> m \<and> dial_done W deadline (Suc i) (r, n, t)"
    and "Suc i \<le> m"
  shows "\<exists>r n t. dial_loop W deadline b i now = Some (r, n, t) \<and> n \<le> m \<and> dial_done W deadline i (r, n, t)"
proof (cases "isl (dw_result W i) \<and> now + int (dw_took W i) \<le> deadline")
  case True
  let ?now = "now + int (dw_took W i) + b + int (dw_overslept W i)"
  obtain r n t where l: "dial_loop W deadline (next_backoff b) (Suc i) ?now = Some (r, n, t)" "n \<le> m"
    and d: "dial_done W deadline (Suc i) (r, n, t)"
    using assms(1) [of ?now] by auto
  have "dial_loop W deadline b i now = Some (r, n, t)"
    using True l(1) by (subst dial_loop.simps) (auto simp: Let_def split: sum.splits)
  moreover have "dial_done W deadline i (r, n, t)"
    using True d by (auto simp: dial_done_def) (metis Suc_leI le_neq_implies_less)+
  ultimately show ?thesis using l(2) by blast
next
  case False
  then show ?thesis
    using assms(2) by (subst dial_loop.simps) (auto simp: Let_def dial_done_def split: sum.splits)
qed

lemma dial_last:
  assumes "deadline < now"
  shows "\<exists>r n t. dial_loop W deadline b i now = Some (r, n, t) \<and> n \<le> Suc i \<and> dial_done W deadline i (r, n, t)"
  using assms by (subst dial_loop.simps) (auto simp: Let_def dial_done_def split: sum.splits)

text \<open>From the fifth dial on the loop sleeps sixteen seconds at a time.\<close>

lemma dial_steady:
  "deadline < now + int k * (16 * Second) \<Longrightarrow>
   \<exists>r n t. dial_loop W deadline (16 * Second) i now = Some (r, n, t) \<and> n \<le> Suc (i + k) \<and> dial_done W deadline i (r, n, t)"
proof (induction k arbitrary: i now)
  case 0
  then show ?case using dial_last [of deadline now] by simp
next
  case (Suc k)
  show ?case
  proof (rule dial_step)
    fix now' assume "now + 16 * Second \<le> now'"
    then have "deadline < now' + int k * (16 * Second)" using Suc.prems by simp
    from Suc.IH [OF this, of "Suc i"]
    show "\<exists>r n t. dial_loop W deadline (next_backoff (16 * Second)) (Suc i) now' = Some (r, n, t)
        \<and> n \<le> Suc (i + Suc k) \<and> dial_done W deadline (Suc i) (r, n, t)"
      by (simp add: next_backoff_def)
  qed simp
qed

text \<open>
  C17. Connecting to Temporal ends after at most sixteen dials, whatever the server answers and
  however long each dial and sleep takes.  It succeeds with the first dial that succeeds; it
  gives up only after more than three minutes.
\<close>

theorem dial_returns:
  "\<exists>r n t. dialTemporal W t0 = Some (r, n, t) \<and> 1 \<le> n \<and> n \<le> 16 \<and> r = dw_result W (n - 1)
     \<and> (\<forall>k < n - 1. isl (dw_result W k)) \<and> (isl r \<longrightarrow> t0 + 3 * Minute < t)"
proof -
  let ?D = "t0 + 3 * Minute"
  have 4: "\<exists>r n t. dial_loop W ?D (16 * Second) 4 now = Some (r, n, t) \<and> n \<le> 16 \<and> dial_done W ?D 4 (r, n, t)"
    if "t0 + 15 * Second \<le> now" for now
    using dial_steady [of ?D now 11 W 4] that by simp
  have 3: "\<exists>r n t. dial_loop W ?D (8 * Second) 3 now = Some (r, n, t) \<and> n \<le> 16 \<and> dial_done W ?D 3 (r, n, t)"
    if "t0 + 7 * Second \<le> now" for now
    by (rule dial_step) (use 4 that in \<open>simp_all add: next_backoff_def\<close>)
  have 2: "\<exists>r n t. dial_loop W ?D (4 * Second) 2 now = Some (r, n, t) \<and> n \<le> 16 \<and> dial_done W ?D 2 (r, n, t)"
    if "t0 + 3 * Second \<le> now" for now
    by (rule dial_step) (use 3 that in \<open>simp_all add: next_backoff_def numeral_3_eq_3\<close>)
  have 1: "\<exists>r n t. dial_loop W ?D (2 * Second) 1 now = Some (r, n, t) \<and> n \<le> 16 \<and> dial_done W ?D 1 (r, n, t)"
    if "t0 + Second \<le> now" for now
    by (rule dial_step) (use 2 that in \<open>simp_all add: next_backoff_def numeral_2_eq_2\<close>)
  have "\<exists>r n t. dial_loop W ?D Second 0 t0 = Some (r, n, t) \<and> n \<le> 16 \<and> dial_done W ?D 0 (r, n, t)"
    by (rule dial_step) (use 1 in \<open>simp_all add: next_backoff_def\<close>)
  then show ?thesis by (auto simp: dialTemporal_def dial_done_def)
qed

theorem dial_returns_witness:
  "\<exists>n t. dialTemporal \<lparr>dw_result = (\<lambda>_. Inl (ErrText ''refused'')), dw_took = (\<lambda>_. 5), dw_overslept = (\<lambda>_. 0)\<rparr> 0
      = Some (Inl (ErrText ''refused''), n, t) \<and> n \<le> 16 \<and> 180 * Second < t"
  using dial_returns [of "\<lparr>dw_result = (\<lambda>_. Inl (ErrText ''refused'')), dw_took = (\<lambda>_. 5), dw_overslept = (\<lambda>_. 0)\<rparr>" 0]
  by auto

end
