(* ===== verification/StartupClaims.thy ===== *)
theory StartupClaims
  imports ServerInv Startup
begin

text \<open>
  What holds when the process starts to serve: connecting to Temporal ends, the keys are those of
  the environment, every stored event is sealed, and there is an administrator.
\<close>

section \<open>The administrator\<close>

lemma bootstrapAdmin_keeps: "preserves app_inv (bootstrapAdmin B)"
  by (rule preservesI)
     (auto simp: bootstrapAdmin_def Let_def split: reply_splits
       dest: CountUsers_keeps [THEN preserves_step] CreateUser_keeps [THEN preserves_step])

text \<open>The user table after a bootstrap that reports success.\<close>

definition admin_created :: "boot_env \<Rightarrow> (string \<times> string) option \<Rightarrow> User \<Rightarrow> bool" where
  "admin_created B shown u \<longleftrightarrow>
     user_email u = envOr (be_getenv B) ''TUMA_ADMIN_EMAIL'' ''admin@localhost''
     \<and> (\<exists>pass. be_bcrypt B pass = Inr (user_password_hash u)
          \<and> (case shown of
               Some (email, p) \<Rightarrow> be_getenv B ''TUMA_ADMIN_PASSWORD'' = [] \<and> email = user_email u \<and> p = pass
             | None \<Rightarrow> pass = be_getenv B ''TUMA_ADMIN_PASSWORD'' \<and> pass \<noteq> []))"

lemma CreateUser_InrD:
  assumes "CreateUser u d = (Inr v, d')"
  shows "\<exists>i t. v = u\<lparr>user_id := i, user_created_at := t\<rparr> \<and> tbl d' = (tbl d)\<lparr>users := users (tbl d) @ [v]\<rparr>"
  using pool_InrD [OF assms [unfolded CreateUser_def]]
  by (auto simp: Let_def split_beta split: if_splits)

lemma CountUsers_InrD: "CountUsers d = (Inr n, d') \<Longrightarrow> n = length (users (tbl d)) \<and> tbl d' = tbl d"
  by (auto simp: CountUsers_def dest!: select_InrD)

lemma bootstrapAdmin_InrD:
  assumes "bootstrapAdmin B d = (Inr shown, d')"
  shows "users (tbl d) \<noteq> [] \<and> shown = None \<and> tbl d' = tbl d
     \<or> users (tbl d) = [] \<and> (\<exists>u. admin_created B shown u \<and> tbl d' = (tbl d)\<lparr>users := [u]\<rparr>)"
proof -
  obtain n d1 where c: "CountUsers d = (Inr n, d1)"
    using assms by (auto simp: bootstrapAdmin_def split: prod.splits sum.splits)
  note c' = CountUsers_InrD [OF c]
  show ?thesis
  proof (cases "n = 0")
    case False
    with assms c c' show ?thesis by (auto simp: bootstrapAdmin_def)
  next
    case True
    obtain pass hash v where p: "(if be_getenv B ''TUMA_ADMIN_PASSWORD'' = [] then randomPassword B 24
          else Inr (be_getenv B ''TUMA_ADMIN_PASSWORD'')) = Inr pass" "be_bcrypt B pass = Inr hash"
      and v: "CreateUser \<lparr>user_id = 0, user_email = envOr (be_getenv B) ''TUMA_ADMIN_EMAIL'' ''admin@localhost'',
            user_password_hash = hash, user_created_at = 0\<rparr> d1 = (Inr v, d')"
      and sh: "shown = (if be_getenv B ''TUMA_ADMIN_PASSWORD'' = []
          then Some (envOr (be_getenv B) ''TUMA_ADMIN_EMAIL'' ''admin@localhost'', pass) else None)"
      using assms c True by (auto simp: bootstrapAdmin_def Let_def split: prod.splits sum.splits)
    have "admin_created B shown v" "tbl d' = (tbl d)\<lparr>users := [v]\<rparr>"
      using CreateUser_InrD [OF v] p sh c' True by (auto simp: admin_created_def split: if_splits)
    with c' True show ?thesis by auto
  qed
qed

section \<open>Serving\<close>

lemma NewServer_db [simp]: "adb (NewServer d m) = d"
  by (simp add: NewServer_def adb_def pdb_def del: pdb_simps(6))

lemma runAPI_tbl: "tbl (adb (runAPI d)) = tbl d"
proof -
  obtain r d' where c: "OpenIssuesCount d = (r, d')" by fastforce
  have "tbl d' = tbl d" by (rule preserves_step [OF OpenIssuesCount_keeps [where P = "\<lambda>t. t = tbl d"] refl c])
  with c show ?thesis by (auto simp: runAPI_def split: sum.splits)
qed

lemma sealed_eventsI:
  assumes "map (opened e) (events t') = map (opened e) (events t)" and "list_all erow_encrypted (events t')"
    and "\<forall>r \<in> set (events t). \<exists>ev. opened e r = Inr (Some ev)"
  shows "sealed_events e t'"
proof -
  have "opened e ` set (events t') = opened e ` set (events t)"
    using arg_cong [OF assms(1), of set] by simp
  with assms(2,3) show ?thesis
    by (auto simp: sealed_row_def list_all_iff) (metis (no_types, lifting) image_iff)
qed

lemma Backfill_preserves:
  assumes st: "\<And>i h p. preserves P (encrypt_row_stmt i h p)"
  shows "preserves P (BackfillPayloadEncryption enc rs)"
proof -
  have "P (tbl d) \<Longrightarrow> P (tbl (snd (backfill_rows e rs k rows n d)))" for e k rows n and d :: db
  proof (induction e rs k rows n d rule: backfill_rows.induct)
    case (2 e rs k i h p rows n d)
    then show ?case by (auto split: sum.splits prod.splits dest: preserves_step [OF st])
  qed simp
  then have "preserves P (backfill_rows e rs k rows n)" for e k rows n by (rule preservesI)
  then show ?thesis
    by (intro preservesI)
       (auto simp: BackfillPayloadEncryption_def split: option.splits sum.splits prod.splits
         intro: preservesD dest: preserves_step [OF preserves_select])
qed

lemma BackfillPayloadEncryption_users: "preserves (\<lambda>t. users t = u) (BackfillPayloadEncryption enc rs)"
  by (rule Backfill_preserves) (unfold encrypt_row_stmt_def, rule preserves_pool, simp)

lemma start_serving_API:
  assumes "start_serving B W t0 mode c enc pe d1 = (API c' enc' pe' s, d)"
  obtains n d2 shown d3 where "mode = ''api''" "c' = c" "enc' = enc" "pe' = pe"
    "BackfillPayloadEncryption (Some pe) (be_seal B) d1 = ((n, None), d2)"
    "bootstrapAdmin B d2 = (Inr shown, d3)" "s = runAPI d3" "d = adb s"
proof -
  have m: "mode = ''api''"
    using assms by (auto simp: start_serving_def Let_def split: prod.splits option.splits sum.splits if_splits)
  obtain n err d2 where bf: "BackfillPayloadEncryption (Some pe) (be_seal B) d1 = ((n, err), d2)" by (metis surj_pair)
  obtain r d3 where ba: "bootstrapAdmin B d2 = (r, d3)" by fastforce
  from assms m bf ba have "err = None" "isl r \<Longrightarrow> False" "c' = c" "enc' = enc" "pe' = pe" "s = runAPI d3" "d = adb s"
    by (auto simp: start_serving_def Let_def adb_def split: option.splits sum.splits if_splits prod.splits)
  with m bf ba that show ?thesis by (cases r) auto
qed

lemma NewEncryptor_key: "NewEncryptor k = Inr e \<Longrightarrow> gcm_key e = k"
  by (auto simp: NewEncryptor_def split: if_splits)

lemma main_API:
  assumes "main B W t0 d0 = (API c enc pe s, d)"
  shows "Load (be_getenv B) = Inr c \<and> NewEncryptor (EncryptionKey c) = Inr enc \<and> NewEncryptor (PayloadKey c) = Inr pe
     \<and> (\<exists>d1. runMigrations B (DatabaseURL c) d0 = (None, d1)
          \<and> start_serving B W t0 ''api'' c enc pe d1 = (API c enc pe s, d))"
proof -
  have api: "mode = ''api''" "c1 = c" "e1 = enc" "p1 = pe"
    if "start_serving B W t0 mode c1 e1 p1 x = (API c enc pe s, d)" for mode c1 e1 p1 x
    by (rule start_serving_API [OF that]; simp)+
  show ?thesis
    using assms
    by (auto simp: main_def Let_def split: reply_splits dest: api)
qed

lemma startup_serving:
  assumes "main B W t0 d0 = (API c enc pe s, d)" and "runMigrations B (DatabaseURL c) d0 = (None, d1)"
    and "app_inv (tbl d1)" and "\<forall>r \<in> set (events (tbl d1)). \<exists>ev. opened pe r = Inr (Some ev)"
  shows "gcm_key enc = be_getenv B ''TUMA_ENCRYPTION_KEY''
     \<and> gcm_key pe = (if be_getenv B ''TUMA_PAYLOAD_KEY'' \<noteq> [] then be_getenv B ''TUMA_PAYLOAD_KEY'' else be_getenv B ''TUMA_ENCRYPTION_KEY'')
     \<and> length (gcm_key enc) = 32 \<and> length (gcm_key pe) = 32
     \<and> app_inv (tbl (adb s)) \<and> sealed_events pe (tbl (adb s))
     \<and> map (opened pe) (events (tbl (adb s))) = map (opened pe) (events (tbl d1))
     \<and> users (tbl (adb s)) \<noteq> []
     \<and> (users (tbl d1) = [] \<longrightarrow> (\<exists>shown u. users (tbl (adb s)) = [u] \<and> admin_created B shown u))"
proof -
  note m = main_API [OF assms(1)]
  have key: "gcm_key enc = be_getenv B ''TUMA_ENCRYPTION_KEY''" "length (gcm_key enc) = 32" "length (gcm_key pe) = 32"
    "gcm_key pe = (if be_getenv B ''TUMA_PAYLOAD_KEY'' \<noteq> [] then be_getenv B ''TUMA_PAYLOAD_KEY'' else be_getenv B ''TUMA_ENCRYPTION_KEY'')"
    using m Load_keys [of "be_getenv B" c] by (auto simp: env_or_def Let_def dest!: NewEncryptor_key)
  from m assms(2) have "start_serving B W t0 ''api'' c enc pe d1 = (API c enc pe s, d)" by auto
  then obtain n d2 shown d3 where bf: "BackfillPayloadEncryption (Some pe) (be_seal B) d1 = ((n, None), d2)"
    and ba: "bootstrapAdmin B d2 = (Inr shown, d3)" and s: "s = runAPI d3"
    by (rule start_serving_API) simp
  have inv2: "app_inv (tbl d2)" by (rule preserves_step [OF BackfillPayloadEncryption_keeps assms(3) bf])
  have inv3: "app_inv (tbl d3)" by (rule preserves_step [OF bootstrapAdmin_keeps inv2 ba])
  have bf': "map (opened pe) (events (tbl d2)) = map (opened pe) (events (tbl d1))"
      "list_all erow_encrypted (events (tbl d2))"
    using backfill_opened [of d1 pe "be_seal B"] assms(3) bf by (simp_all add: Let_def app_inv_def)
  have us: "users (tbl d2) = users (tbl d1)" by (rule preserves_step [OF BackfillPayloadEncryption_users refl bf])
  have ev: "events (tbl d3) = events (tbl d2)" using bootstrapAdmin_InrD [OF ba] by auto
  have "sealed_events pe (tbl d3)"
    by (rule sealed_eventsI [OF _ _ assms(4)]) (use bf' ev in simp_all)
  with key inv3 bf' ev us show ?thesis
    using bootstrapAdmin_InrD [OF ba] by (auto simp: s runAPI_tbl)
qed

definition demo_getenv :: "string \<Rightarrow> string" where
  "demo_getenv k =
     (if k = ''TUMA_ENCRYPTION_KEY'' then replicate 32 (CHR ''k'')
      else if k = ''TUMA_ADMIN_PASSWORD'' then ''pw'' else [])"

definition demo_boot :: boot_env where
  "demo_boot = \<lparr>be_args = [''tuma'', ''serve'', ''api''], be_getenv = demo_getenv, be_migrate_new = (\<lambda>_ _. None),
     be_migrate_up = (\<lambda>d. (Migrated, d)), be_pool_err = (\<lambda>_. None), be_seal = (\<lambda>_. (Inr 1, Inr 2)),
     be_random = (\<lambda>n. Inr (replicate n (CHR ''r''))), be_bcrypt = (\<lambda>p. Inr (''$2a$'' @ p)), be_otel_err = None\<rparr>"

text \<open>The Temporal server answers at the second dial.\<close>

definition demo_dial :: dial_world where
  "demo_dial = \<lparr>dw_result = (\<lambda>i. if i = 0 then Inl (ErrText ''refused'') else Inr ()), dw_took = (\<lambda>_. 5), dw_overslept = (\<lambda>_. 1)\<rparr>"

definition demo_fresh :: db where
  "demo_fresh = \<lparr>tbl = empty_tables, db_now = 0, uuid_src = (\<lambda>n. n), uuid_pos = 1, numeric = (\<lambda>_ _ x. Some x), faults = []\<rparr>"

lemma demo_Load: "\<exists>c. Load demo_getenv = Inr c \<and> EncryptionKey c = replicate 32 (CHR ''k'') \<and> PayloadKey c = replicate 32 (CHR ''k'')"
  by (simp add: Load_def demo_getenv_def env_or_def Let_def)

lemma demo_dial: "\<exists>n t. dialTemporal demo_dial 0 = Some (Inr (), n, t)"
  unfolding dialTemporal_def
  by (subst dial_loop.simps, subst dial_loop.simps) (simp add: demo_dial_def Let_def)

lemma demo_main: "\<exists>c enc pe s d. main demo_boot demo_dial 0 demo_fresh = (API c enc pe s, d)
    \<and> runMigrations demo_boot (DatabaseURL c) demo_fresh = (None, demo_fresh)"
proof -
  obtain c where c: "Load demo_getenv = Inr c" "EncryptionKey c = replicate 32 (CHR ''k'')" "PayloadKey c = replicate 32 (CHR ''k'')"
    using demo_Load by blast
  obtain n t where t: "dialTemporal demo_dial 0 = Some (Inr (), n, t)" using demo_dial by blast
  have mg: "runMigrations demo_boot (DatabaseURL c) demo_fresh = (None, demo_fresh)"
    by (simp add: runMigrations_def demo_boot_def Let_def)
  have tx: "text_ok ''admin@localhost''" "text_ok ''$2a$pw''" by code_simp+
  have ad: "\<exists>d. bootstrapAdmin demo_boot demo_fresh = (Inr None, d)"
    by (simp add: bootstrapAdmin_def CountUsers_def select_def CreateUser_def demo_fresh_def demo_boot_def demo_getenv_def
        empty_tables_def envOr_def Let_def split_beta keys_def tx)
  then obtain d where "bootstrapAdmin demo_boot demo_fresh = (Inr None, d)" by blast
  moreover have "BackfillPayloadEncryption e (be_seal demo_boot) demo_fresh = ((0, None), demo_fresh)" for e
    by (cases e) (simp_all add: BackfillPayloadEncryption_def demo_fresh_def select_def empty_tables_def)
  ultimately show ?thesis
    using c t mg
    by (intro exI [of _ c]) (simp add: main_def start_serving_def NewEncryptor_def demo_boot_def Let_def)
qed

end
