(* ===== verification/System.thy ===== *)
theory System
  imports StartupClaims AlertingClaims DeliveryClaims
begin

text \<open>
  The API process and the worker over one database, as sequences of steps: requests, the
  activities of the delivery workflows, evaluations of the alert rules, the retention purge
  and the collector of idle playground sessions, in any order.  Between steps time passes and
  the fates of the coming statements are drawn.
\<close>

section \<open>The system\<close>

record system =
  sys_app :: app
  sys_worker :: worker
  sys_attempts :: "attempt list"

record sys_env =
  se_api :: api_env
  se_worker :: env
  se_alerts :: alert_env

definition set_adb :: "db \<Rightarrow> app \<Rightarrow> app" where
  "set_adb d s = s\<lparr>app_play := set_pdb (app_play s) d\<rparr>"

datatype sys_step =
    Request choices http_request
  | StreamTurn bool stream_handle
  | StreamEnd stream_handle
  | Act_LoadEventMeta uuid
  | Act_Deliver uuid int
  | Act_RecordDelivered uuid
  | Act_RecordIssue uuid int
  | Evaluate
  | Purge
  | Collect time
  | Meanwhile time "fault list"

text \<open>An activity of the worker, on the shared database.\<close>

definition in_worker :: "env \<Rightarrow> (worker \<Rightarrow> 'a result \<times> worker) \<Rightarrow> system \<Rightarrow> system" where
  "in_worker W act s =
     (let w = snd (ExecuteActivity W act ((sys_worker s)\<lparr>w_db := adb (sys_app s)\<rparr>))
      in s\<lparr>sys_worker := w, sys_app := set_adb (w_db w) (sys_app s)\<rparr>)"

fun sys_run :: "sys_env \<Rightarrow> sys_step \<Rightarrow> system \<Rightarrow> system" where
  "sys_run S (Request ch q) s = s\<lparr>sys_app := snd (handle (se_api S) ch q (sys_app s))\<rparr>"
| "sys_run S (StreamTurn sim h) s =
     s\<lparr>sys_app := (sys_app s)\<lparr>app_play := snd (stream_next sim h (app_play (sys_app s)))\<rparr>\<rparr>"
| "sys_run S (StreamEnd h) s = s\<lparr>sys_app := (sys_app s)\<lparr>app_play := close_stream h (app_play (sys_app s))\<rparr>\<rparr>"
| "sys_run S (Act_LoadEventMeta i) s = in_worker (se_worker S) (LoadEventMeta (se_worker S) i) s"
| "sys_run S (Act_Deliver i a) s = in_worker (se_worker S) (DeliverActivity (se_worker S) i a) s"
| "sys_run S (Act_RecordDelivered i) s = in_worker (se_worker S) (RecordDelivered i) s"
| "sys_run S (Act_RecordIssue i a) s = in_worker (se_worker S) (RecordIssue (se_worker S) i a) s"
| "sys_run S Evaluate s =
     (let e = snd (evaluateOnce (se_alerts S) \<lparr>evr_db = adb (sys_app s), evr_attempts = sys_attempts s\<rparr>)
      in s\<lparr>sys_app := set_adb (evr_db e) (sys_app s), sys_attempts := evr_attempts e\<rparr>)"
| "sys_run S Purge s = s\<lparr>sys_app := set_adb (runRetention (adb (sys_app s))) (sys_app s)\<rparr>"
| "sys_run S (Collect now) s = s\<lparr>sys_app := set_adb (playgroundGC (core_env (se_api S)) now (adb (sys_app s))) (sys_app s)\<rparr>"
| "sys_run S (Meanwhile now fs) s = s\<lparr>sys_app := set_adb ((adb (sys_app s))\<lparr>db_now := now, faults := fs\<rparr>) (sys_app s)\<rparr>"

section \<open>Every step keeps the invariant\<close>

lemma adb_simps [simp]:
  "adb (set_adb d s) = d" "adb (s\<lparr>app_play := p\<rparr>) = pdb p"
  by (simp_all add: adb_def set_adb_def)

lemma in_worker_tables:
  assumes "app_inv (tbl (adb (sys_app s)))" and "\<And>w0. keeps_run W i w0 act"
  shows "app_inv (tbl (adb (sys_app (in_worker W act s))))
     \<and> events (tbl (adb (sys_app (in_worker W act s)))) = events (tbl (adb (sys_app s)))"
proof -
  let ?w0 = "(sys_worker s)\<lparr>w_db := adb (sys_app s)\<rparr>"
  have "run_ok W i ?w0 ?w0" by (rule run_ok_refl) (use assms(1) in simp)
  then have "run_ok W i ?w0 (snd (ExecuteActivity W act ?w0))"
    using ExecuteActivity_keeps [OF assms(2)] by (simp add: keeps_run_def)
  then show ?thesis by (auto simp: in_worker_def Let_def run_ok_def same_events_def)
qed

lemma stream_next_pdb [simp]: "pdb (snd (stream_next sim h p)) = pdb p"
  by (auto simp: stream_next_def Let_def split: option.splits list.splits prod.splits)

lemma close_stream_pdb [simp]: "pdb (close_stream h p) = pdb p"
  by (simp add: close_stream_def Let_def)

lemmas activity_tables =
  in_worker_tables [OF _ LoadEventMeta_keeps] in_worker_tables [OF _ DeliverActivity_keeps]
  in_worker_tables [OF _ RecordDelivered_keeps] in_worker_tables [OF _ RecordIssue_keeps]

lemma sys_run_inv:
  assumes inv: "app_inv (tbl (adb (sys_app s)))"
  shows "app_inv (tbl (adb (sys_app (sys_run S x s))))"
proof (cases x)
  case (Request ch q)
  then show ?thesis using db_inv.handle_keeps [OF refl, of "se_api S" ch q] inv by (simp add: keeps_app_def)
next
  case Evaluate
  then show ?thesis
    using db_inv.evaluateOnce_keeps [of "\<lparr>evr_db = adb (sys_app s), evr_attempts = sys_attempts s\<rparr>" "se_alerts S"] inv
    by (simp add: Let_def)
next
  case Purge
  then show ?thesis using preservesD [OF PurgeExpiredEvents_keeps inv] by (simp add: runRetention_def)
next
  case (Collect now)
  then show ?thesis using db_inv.GC_keeps [OF inv] by simp
qed (use inv activity_tables [OF inv] in \<open>simp_all, simp_all add: adb_def\<close>)

text \<open>Between purges every step keeps what the requests keep of the events.\<close>

context events_invariant
begin

lemma sys_run_events:
  assumes "store_enc (core_env (se_api S)) = enc" and "app_inv (tbl (adb (sys_app s)))"
    and Q: "Q (events (tbl (adb (sys_app s))))" and "x \<noteq> Purge"
  shows "Q (events (tbl (adb (sys_app (sys_run S x s)))))"
proof (cases x)
  case (Request ch q)
  then show ?thesis using handle_keeps [OF assms(1), of ch q] Q by (simp add: keeps_app_def)
next
  case Evaluate
  then show ?thesis
    using evaluateOnce_keeps [of "\<lparr>evr_db = adb (sys_app s), evr_attempts = sys_attempts s\<rparr>" "se_alerts S"] Q
    by (simp add: Let_def)
next
  case (Collect now)
  then show ?thesis using GC_keeps [OF Q] by simp
qed (use Q \<open>x \<noteq> Purge\<close> activity_tables [OF assms(2)] in \<open>simp_all, simp_all add: adb_def\<close>)

lemma sys_runs_events:
  assumes "store_enc (core_env (se_api S)) = enc" and "app_inv (tbl (adb (sys_app s)))"
    and "Q (events (tbl (adb (sys_app s))))" and "Purge \<notin> set xs"
  shows "app_inv (tbl (adb (sys_app (fold (sys_run S) xs s)))) \<and> Q (events (tbl (adb (sys_app (fold (sys_run S) xs s)))))"
  using assms(2-4)
proof (induction xs arbitrary: s)
  case (Cons x xs)
  then have "x \<noteq> Purge" "Purge \<notin> set xs" by auto
  from Cons.IH [OF sys_run_inv [OF Cons.prems(1)] sys_run_events [OF assms(1) Cons.prems(1,2) this(1)] this(2)]
  show ?case by simp
qed simp

end

section \<open>Payloads at rest\<close>

definition sys_inv :: "encryptor \<Rightarrow> system \<Rightarrow> bool" where
  "sys_inv e s \<longleftrightarrow> app_inv (tbl (adb (sys_app s))) \<and> sealed_events e (tbl (adb (sys_app s)))"

interpretation whole: inv_machine "sys_run S" "\<lambda>s. store_enc (core_env (se_api S)) = Some e \<longrightarrow> sys_inv e s" for S e
proof unfold_locales
  fix s x
  assume h: "store_enc (core_env (se_api S)) = Some e \<longrightarrow> sys_inv e s"
  show "store_enc (core_env (se_api S)) = Some e \<longrightarrow> sys_inv e (sys_run S x s)"
  proof
    assume e: "store_enc (core_env (se_api S)) = Some e"
    with h have i: "app_inv (tbl (adb (sys_app s)))" "sealed_events e (tbl (adb (sys_app s)))"
      by (simp_all add: sys_inv_def)
    have "sealed_events e (tbl (adb (sys_app (sys_run S x s))))"
    proof (cases "x = Purge")
      case True
      with preservesD [OF sealed_PurgeExpiredEvents, of "adb (sys_app s)" e] i(2) show ?thesis by (simp add: runRetention_def)
    next
      case False
      then show ?thesis by (rule sealed.sys_run_events [OF e i])
    qed
    with sys_run_inv [OF i(1)] show "sys_inv e (sys_run S x s)" by (simp add: sys_inv_def)
  qed
qed

section \<open>From the webhook to the destination\<close>

definition holds_event :: "encryptor \<Rightarrow> uuid \<Rightarrow> uuid \<times> string \<Rightarrow> bytes \<Rightarrow> event_row list \<Rightarrow> bool" where
  "holds_event e i k p evs \<longleftrightarrow>
     (\<exists>r \<in> set evs. erow_id r = i \<and> event_key r = k \<and> (\<exists>ev. opened e r = Inr (Some ev) \<and> ev_raw_payload ev = p))"

lemma opened_workflow:
  "opened e r = Inr (Some ev) \<Longrightarrow> opened e (r\<lparr>erow_workflow_id := w\<rparr>) = Inr (Some (ev\<lparr>ev_workflow_id := w\<rparr>))"
  by (auto simp: opened_def scanEvent_def split: sum.splits prod.splits)

interpretation kept: events_invariant enc "holds_event e i k p" for enc e i k p
proof unfold_locales
  show "preserves (\<lambda>t. holds_event e i k p (events t)) (InsertEvent enc rs ev)" for rs ev
    by (rule InsertEvent_seals, unfold insert_event_stmt_def, rule preserves_pool)
       (auto simp: Let_def split_beta holds_event_def)
  show "preserves (\<lambda>t. holds_event e i k p (events t)) (SetEventWorkflowID j w)" for j w
    unfolding SetEventWorkflowID_def
  proof (rule preserves_pool)
    fix d :: db assume "holds_event e i k p (events (tbl d))"
    then obtain r ev where r: "r \<in> set (events (tbl d))" "erow_id r = i" "event_key r = k"
      "opened e r = Inr (Some ev)" "ev_raw_payload ev = p" by (auto simp: holds_event_def)
    let ?r = "if erow_id r = j then r\<lparr>erow_workflow_id := Some w\<rparr> else r"
    have "?r \<in> set (update_by erow_id j (\<lambda>r. r\<lparr>erow_workflow_id := Some w\<rparr>) (events (tbl d)))"
      using r(1) by (auto simp: update_by_def)
    moreover have "erow_id ?r = i" "event_key ?r = k" "\<exists>ev. opened e ?r = Inr (Some ev) \<and> ev_raw_payload ev = p"
      using r opened_workflow [OF r(4), of "Some w"] by auto
    ultimately show "holds_event e i k p (events (tbl (snd (if text_ok w
        then (Inr (), set_tbl (\<lambda>t. t\<lparr>events := update_by erow_id j (\<lambda>r. r\<lparr>erow_workflow_id := Some w\<rparr>) (events t)\<rparr>) d)
        else (Inl violation, d)))))"
      using r by (auto simp: holds_event_def)
  qed
qed

text \<open>What ingestion stores for the delivery it starts.\<close>

lemma ingest_started:
  assumes "ingest E clk rs path stream headers s = (r, s')" and "srv_started s' = srv_started s @ [(wfID, i)]"
    and "store_enc E = Some e"
  shows "\<exists>k. holds_event e i k (bs_bytes stream) (events (tbl (srv_db s')))"
proof (rule ingest_cases [OF assms(1)])
  fix conn secret a s1
  assume g: "getCachedConnection E clk path s = (Inr (Some conn, secret), s1)"
    and acc: "ingest_accept E rs conn a headers (bs_bytes stream) s1 = (r, s')"
  show ?thesis
  proof (rule accept_cases [OF acc])
    fix j t h b s2
    let ?r = "stored_row E conn a headers (bs_bytes stream) j t h b"
    assume seal: "sealEventFields (store_enc E) rs (header_json headers) (bs_bytes stream) = Inr (h, b)"
      and s2: "tbl (srv_db s2) = (tbl (srv_db s1))\<lparr>events := events (tbl (srv_db s1)) @ [?r]\<rparr>"
        "srv_started s2 = srv_started s1"
      and s': "s' = start_delivery E j s2"
    have j: "j = i"
      using assms(2) s2(2) getCachedConnection_frame [OF g] by (auto simp: s' start_delivery_started split: option.splits)
    obtain ev where ev: "scanEvent (store_enc E) (Some ?r) = Inr (Some ev)" "ev_raw_payload ev = bs_bytes stream"
      using stored_row_opens [OF seal] by blast
    have "holds_event e i (event_key ?r) (bs_bytes stream) (events (tbl (srv_db s2)))"
      unfolding holds_event_def s2 using ev assms(3) j by (auto simp: opened_def stored_row_def)
    moreover have "preserves (\<lambda>t. holds_event e i (event_key ?r) (bs_bytes stream) (events t)) (SetEventWorkflowID j w)" for w
      by (rule kept.SetEventWorkflowID_Q)
    ultimately have "holds_event e i (event_key ?r) (bs_bytes stream) (events (tbl (srv_db s')))"
      unfolding s' start_delivery_def Let_def
      by (auto split: prod.splits sum.splits dest!: ExecuteWorkflow_db intro: preservesD)
    then show ?thesis by blast
  qed (use assms(2) getCachedConnection_frame [OF g] in auto)
qed (use assms(2) in auto)

lemma find_ingest: "find_route demo ''POST'' [''e'', path] = (if path = [] then None else Some (Ingest path))"
  by (simp add: find_route_def routes_def server_routes_def registerPlaygroundRoutes_def method_ok_def)

text \<open>A call that delivers \<open>p\<close>: a POST of \<open>p\<close>, and after it only POSTs of \<open>p\<close> and, after redirects, GETs without a body.\<close>

definition carries :: "bytes \<Rightarrow> http_call \<Rightarrow> bool" where
  "carries p call \<longleftrightarrow>
     call_hops call \<noteq> [] \<and> req_method (fst (hd (call_hops call))) = ''POST'' \<and> req_body (fst (hd (call_hops call))) = p
     \<and> (\<forall>h \<in> set (call_hops call). req_method (fst h) = ''POST'' \<and> req_body (fst h) = p
          \<or> req_method (fst h) = ''GET'' \<and> req_body (fst h) = [])"

lemma faithful_body:
  assumes "faithful W i t call" and "holds_event e i k p (events t)" and "payload_enc W = Some e" and "app_inv t"
  shows "carries p call"
proof -
  obtain r ev where r: "r \<in> set (events t)" "erow_id r = i" "opened e r = Inr (Some ev)" "ev_raw_payload ev = p"
    using assms(2) by (auto simp: holds_event_def)
  have "distinct (keys erow_id (events t))" using assms(4) by (simp add: app_inv_def wf_defs)
  with r(1,2) have f: "find_by erow_id i (events t) = Some r" by (simp add: find_by_Some_iff_distinct)
  obtain req n where q: "event_post W i t req" "call_ok (net W n) req call" using assms(1) by (auto simp: faithful_def)
  then have "req_method req = ''POST''" "req_body req = p" using assms(3) r(3,4) f by (auto simp: event_post_def opened_def)
  with q(2) show ?thesis by (auto simp: carries_def call_ok_def hop_ok_def)
qed

section \<open>Examples\<close>

definition demo_henv :: handler_env where
  "demo_henv = \<lparr>cfg = demo_config, encryptor_of = \<lparr>gcm_key = replicate 32 (CHR ''k'')\<rparr>,
     store_enc = Some \<lparr>gcm_key = replicate 32 (CHR ''k'')\<rparr>,
     ustr = (\<lambda>i. replicate i (CHR ''x'')), parse_uuid = (\<lambda>s. Some (length s)), nfkd_of = (\<lambda>s. s),
     start_err = (\<lambda>_ _. None), bcrypt_ok = (\<lambda>h p. h = p), rfc3339 = (\<lambda>_. ''t''), mail_address = Some, pg_p95 = (\<lambda>_. 0),
     pg_trunc_hour = (\<lambda>t. t)\<rparr>"

definition demo_api :: api_env where
  "demo_api = \<lparr>core_env = demo_henv\<rparr>"

definition demo_choices :: choices where
  "demo_choices = \<lparr>cho_clk = (\<lambda>_. 5), cho_rate_clock = (5, 5), cho_ts = ''t'', cho_ms = 1, cho_secret = ''r'',
     cho_nonces = (Inr 1, Inr 2), cho_path = 3, cho_session = 4,
     cho_sim = \<lparr>sim_nfkd = (\<lambda>s. s), sim_created = (\<lambda>_. 5), sim_ts = (\<lambda>_. 5), sim_random = (\<lambda>_. [])\<rparr>,
     cho_net = (\<lambda>_. Elsewhere (Inl (ErrText ''down''))), cho_added = (\<lambda>h. h), cho_post = (\<lambda>_. ((\<lambda>_. 5), (Inr 3, Inr 4)))\<rparr>"

definition demo_senv_all :: sys_env where
  "demo_senv_all = \<lparr>se_api = demo_api,
     se_worker = (demo_env [200])\<lparr>payload_enc := Some \<lparr>gcm_key = replicate 32 (CHR ''k'')\<rparr>\<rparr>, se_alerts = demo_alert_env\<rparr>"

definition demo_app :: app where
  "demo_app = (NewServer (srv_db demo_server) new_metrics)\<lparr>app_play := (app_play (NewServer (srv_db demo_server) new_metrics))
     \<lparr>plg_core := demo_server\<rparr>\<rparr>"

definition demo_webhook :: http_request where
  "demo_webhook = \<lparr>hr_method = ''POST'', hr_path = [''e'', ''ab12cd34''], hr_query = (\<lambda>_. []), hr_cookies = [],
     hr_headers = [(''X-Tuma-Event-Id'', [''evt_2''])], hr_remote = [], hr_body = \<lparr>bs_bytes = ''hello'', bs_fails = False\<rparr>\<rparr>"

lemma demo_started:
  "srv_started (snd (ingest (server_env.truncate demo_henv) (\<lambda>_. 5) (Inr 1, Inr 2) ''ab12cd34''
      \<lparr>bs_bytes = ''hello'', bs_fails = False\<rparr> [(''X-Tuma-Event-Id'', [''evt_2''])] demo_server))
     = [(WorkflowID (\<lambda>i. replicate i (CHR ''x'')) 100, 100)]"
proof -
  have id: "internal_ExtractEventID [(''X-Tuma-Event-Id'', [''evt_2''])] ''hello'' = ''evt_2''" by code_simp
  have tx: "text_ok ''evt_2''" by code_simp
  let ?E = "server_env.truncate demo_henv" and ?hs = "[(''X-Tuma-Event-Id'', [''evt_2''])]"
  have g: "getCachedConnection ?E (\<lambda>_. 5) ''ab12cd34'' demo_server = (Inr (Some demo_conn, []), demo_server)"
    by (simp add: getCachedConnection_def demo_server_def Let_def)
  obtain h b where seal: "sealEventFields (store_enc ?E) (Inr 1, Inr 2) (header_json ?hs) ''hello'' = Inr (h, b)"
    by (auto simp: sealEventFields_def EncryptBytes_def Let_def demo_henv_def)
  obtain d where ins: "insert_event_stmt (conn_id demo_conn) ''evt_2'' h b (srv_db demo_server) = (Inr (100, 5), d)"
    by (simp add: insert_event_stmt_def tx demo_server_def demo_conn_def empty_tables_def keys_def split_beta Let_def)
  have "InsertEvent (store_enc ?E) (Inr 1, Inr 2) (new_event demo_conn ''evt_2'' (header_json ?hs) ''hello'') (srv_db demo_server)
      = (Inr \<lparr>ier_event = Some ((new_event demo_conn ''evt_2'' (header_json ?hs) ''hello'')\<lparr>ev_id := 100, ev_received_at := 5\<rparr>),
              ier_inserted = True\<rparr>, d)"
    using seal ins by (simp add: InsertEvent_def new_event_def)
  moreover have "start_err ?E = (\<lambda>_ _. None)" "ustr ?E = (\<lambda>i. replicate i (CHR ''x''))" "MaxBodyBytes (cfg ?E) = 1024"
    by (simp_all add: server_env.defs demo_henv_def demo_config_def)
  moreover have "srv_started demo_server = []" by (simp add: demo_server_def)
  ultimately show ?thesis
    by (simp add: ingest_def readBodyLimit_def g demo_adapter ingest_accept_def Let_def id start_delivery_started count_ingest_def internal_Verify_def
      new_event_def)
qed

lemma demo_app_inv: "app_inv (tbl (adb demo_app))"
proof -
  have "connection_check demo_conn" by code_simp
  from app_inv_insert_connection [OF app_inv_empty this] show ?thesis
    by (simp add: demo_app_def adb_def demo_server_def empty_tables_def keys_def)
qed


end
