(* ===== verification/PlaygroundClaims.thy ===== *)
theory PlaygroundClaims
  imports System "HOL-Library.Multiset"
begin

text \<open>The number of playground sessions while the database works: one bootstrap after the other, and bootstraps that overlap.\<close>

section \<open>Evicting\<close>

lemma evict_oldest:
  assumes "distinct (keys ps_id (playground_sessions t))"
  shows "length (filter (\<lambda>p. ps_id p \<notin> set (oldest_sessions n t)) (playground_sessions t)) = length (playground_sessions t) - n"
proof -
  let ?xs = "playground_sessions t" and ?gone = "set (oldest_sessions n t)"
  define ys where "ys = sort_key ps_last_seen_at ?xs"
  have m: "mset ys = mset ?xs" by (simp add: ys_def)
  then have len: "length ys = length ?xs" by (metis size_mset)
  have "distinct (map ps_id ys)"
    using assms m by (metis keys_def distinct_count_atmost_1 mset_map set_mset_mset)
  then have d: "distinct (map ps_id (take n ys @ drop n ys))" by simp
  have gone: "?gone = ps_id ` set (take n ys)" by (simp add: oldest_sessions_def ys_def)
  have "filter (\<lambda>p. ps_id p \<notin> ?gone) (take n ys @ drop n ys) = drop n ys"
    using d unfolding gone map_append distinct_append filter_append by (auto simp: filter_empty_conv filter_id_conv)
  then have "length (filter (\<lambda>p. ps_id p \<notin> ?gone) ys) = length ys - n" by simp
  moreover have "length (filter (\<lambda>p. ps_id p \<notin> ?gone) ys) = length (filter (\<lambda>p. ps_id p \<notin> ?gone) ?xs)"
    using m by (metis mset_filter size_mset)
  ultimately show ?thesis using len by simp
qed

abbreviation sessions_of :: "db \<Rightarrow> PlaygroundSession list" where
  "sessions_of d \<equiv> playground_sessions (tbl d)"

lemma count_sessions: "faults d = [] \<Longrightarrow> CountPlaygroundSessions d = (Inr (length (sessions_of d)), d)"
  by (simp add: CountPlaygroundSessions_def select_def)

lemma create_session_room:
  assumes "faults d = []"
  shows "length (sessions_of (snd (CreatePlaygroundSession p i e u d))) \<le> Suc (length (sessions_of d))"
    and "faults (snd (CreatePlaygroundSession p i e u d)) = []"
    and "distinct (keys ps_id (sessions_of d)) \<Longrightarrow> distinct (keys ps_id (sessions_of (snd (CreatePlaygroundSession p i e u d))))"
proof -
  let ?c = "playground_connection p e u" and ?r = "snd (CreatePlaygroundSession p i e u d)"
  obtain r d1 where c: "CreateConnection ?c d = (r, d1)" by fastforce
  have d1: "faults d1 = []" "sessions_of d1 = sessions_of d"
    using c assms by (auto simp: CreateConnection_def Let_def split_beta split: option.splits if_splits)
  then have "faults (snd (create_session_body i ?c d)) = []
     \<and> (sessions_of (snd (create_session_body i ?c d)) = sessions_of d
        \<or> (\<exists>x. sessions_of (snd (create_session_body i ?c d)) = sessions_of d @ [x] \<and> ps_id x \<notin> set (keys ps_id (sessions_of d))))"
    by (auto simp: create_session_body_def c insert_session_stmt_def Let_def split: sum.splits)
  with assms have "faults ?r = [] \<and> (sessions_of ?r = sessions_of d
        \<or> (\<exists>x. sessions_of ?r = sessions_of d @ [x] \<and> ps_id x \<notin> set (keys ps_id (sessions_of d))))"
    by (auto simp: CreatePlaygroundSession_def transaction_def split: prod.splits sum.splits)
  then show "length (sessions_of ?r) \<le> Suc (length (sessions_of d))" "faults ?r = []"
    "distinct (keys ps_id (sessions_of d)) \<Longrightarrow> distinct (keys ps_id (sessions_of ?r))"
    by (auto simp: keys_def)
qed

lemma GetSession_frame: "faults (pdb s) = [] \<Longrightarrow> playgroundSessionFromRequest E r s = (x, s') \<Longrightarrow> pdb s' = pdb s"
  by (auto simp: playgroundSessionFromRequest_def GetPlaygroundSession_def select_def split: option.splits)

lemma touch_frame: "faults (pdb s) = [] \<Longrightarrow> faults (pdb (touch ps s)) = [] \<and> length (sessions_of (pdb (touch ps s))) = length (sessions_of (pdb s))
    \<and> keys ps_id (sessions_of (pdb (touch ps s))) = keys ps_id (sessions_of (pdb s))"
  by (simp add: touch_def TouchPlaygroundSession_def keys_update_by) (simp add: update_by_def)

lemma evict_for_one_room:
  assumes "faults d = []" "distinct (keys ps_id (sessions_of d))" "1 \<le> PlaygroundMaxSessions (cfg E)"
  shows "faults (evict_for_one E d) = []
     \<and> int (Suc (length (sessions_of (evict_for_one E d)))) \<le> max (PlaygroundMaxSessions (cfg E)) (int (length (sessions_of d)))"
  using assms evict_oldest [OF assms(2), of 1]
  by (auto simp: evict_for_one_def count_sessions EvictOldestPlaygroundSessions_def Let_def)

lemma bootstrap_new_capped:
  assumes "faults (pdb s) = []" "distinct (keys ps_id (sessions_of (pdb s)))" "1 \<le> PlaygroundMaxSessions (cfg E)"
  shows "int (length (sessions_of (pdb (snd (bootstrap_new E b s))))) \<le> max (PlaygroundMaxSessions (cfg E)) (int (length (sessions_of (pdb s))))"
proof -
  let ?d = "evict_for_one E (pdb s)"
  note room = evict_for_one_room [OF assms]
  have "int (length (sessions_of (snd (CreatePlaygroundSession p i e u ?d)))) \<le> max (PlaygroundMaxSessions (cfg E)) (int (length (sessions_of (pdb s))))" for p i e u
    using create_session_room(1) [of ?d p i e u] room by linarith
  with room show ?thesis
    by (auto simp: bootstrap_new_def Let_def split: sum.splits prod.splits) (metis snd_conv)+
qed

lemma limited_bound:
  assumes "\<And>rl. P (pdb (snd (h (s\<lparr>plg_limits := rl\<rparr>))))" and "P (pdb s)"
  shows "P (pdb (snd (limited w n b r h s)))"
  using assms by (auto simp: limited_def Let_def split: prod.splits)

lemma bootstrap_capped:
  assumes f: "faults (pdb s) = []" and d: "distinct (keys ps_id (sessions_of (pdb s)))" and m: "1 \<le> PlaygroundMaxSessions (cfg E)"
  shows "int (length (sessions_of (pdb (snd (playgroundBootstrap E b r s))))) \<le> max (PlaygroundMaxSessions (cfg E)) (int (length (sessions_of (pdb s))))"
  unfolding playgroundBootstrap_def
proof (rule limited_bound [where P = "\<lambda>d. int (length (sessions_of d)) \<le> max (PlaygroundMaxSessions (cfg E)) (int (length (sessions_of (pdb s))))"],
    goal_cases)
  case (1 rl)
  obtain x s1 where x: "playgroundSessionFromRequest E r (s\<lparr>plg_limits := rl\<rparr>) = (x, s1)" by fastforce
  have s1: "pdb s1 = pdb s" using GetSession_frame [OF _ x] f by simp
  note new = bootstrap_new_capped [OF _ _ m]
  show ?case
  proof (cases x)
    case None
    then show ?thesis using new [of s1 b] f d by (simp add: x s1)
  next
    case (Some ps)
    let ?s = "touch ps s1"
    have t: "faults (pdb ?s) = []" "length (sessions_of (pdb ?s)) = length (sessions_of (pdb s))"
      "distinct (keys ps_id (sessions_of (pdb ?s)))"
      using touch_frame [of s1 ps] f d by (simp_all add: s1)
    have "GetConnection (ps_connection_id ps) (pdb ?s) = (Inr (find_by conn_id (ps_connection_id ps) (connections (tbl (pdb ?s)))), pdb ?s)"
      using t(1) by (simp add: GetConnection_def select_def)
    then show ?thesis
      using t new [of "set_pdb ?s (pdb ?s)" b] by (simp add: x Some Let_def split: option.splits)
  qed
qed simp

section \<open>Overlapping bootstraps\<close>

text \<open>
  The handler holds no lock: it counts, evicts and creates in three statements, and other requests
  and the collector run between them.  A handler is at one of these statements; overlapping
  handlers take turns.  A \<^verbatim>\<open>DELETE\<close> that waited for another one to remove the row it had chosen
  removes nothing.
\<close>

datatype boot_phase = Counting | Evicting | Creating

record boots =
  bt_db :: db
  bt_running :: "boot_phase list"
  bt_missed :: nat

datatype boot_event =
    Boot
  | BootTurn nat bootstrap_random
  | BootMisses nat
  | GcDeletes time
  | GcEvicts nat
  | OtherStatements db

definition boot_turn :: "handler_env \<Rightarrow> bootstrap_random \<Rightarrow> boot_phase \<Rightarrow> db \<Rightarrow> boot_phase option \<times> db" where
  "boot_turn E b ph d =
     (case ph of
        Counting \<Rightarrow>
          (case CountPlaygroundSessions d of
             (Inl _, d') \<Rightarrow> (Some Creating, d')
           | (Inr n, d') \<Rightarrow> (Some (if PlaygroundMaxSessions (cfg E) \<le> int n then Evicting else Creating), d'))
      | Evicting \<Rightarrow> (Some Creating, snd (EvictOldestPlaygroundSessions 1 d))
      | Creating \<Rightarrow>
          (None, case Encrypt (encryptor_of E) (br_nonce b) (randomSecret (br_secret b)) of
                   Inl _ \<Rightarrow> d
                 | Inr enc \<Rightarrow>
                     snd (CreatePlaygroundSession (GenerateInboundPath (ustr E) (br_path b)) (br_session b) enc
                       (trim_suffix (PlaygroundInternalBase (cfg E)) ''/'' @ ''/playground/r/'' @ ustr E (br_session b) @ ''/hook'') d)))"

definition next_phase :: "nat \<Rightarrow> boot_phase option \<Rightarrow> boot_phase list \<Rightarrow> boot_phase list" where
  "next_phase j ph xs = take j xs @ (case ph of None \<Rightarrow> [] | Some p \<Rightarrow> [p]) @ drop (Suc j) xs"

fun boot_run :: "handler_env \<Rightarrow> boot_event \<Rightarrow> boots \<Rightarrow> boots" where
  "boot_run E Boot s = s\<lparr>bt_running := bt_running s @ [Counting]\<rparr>"
| "boot_run E (BootTurn j b) s =
     (if j < length (bt_running s)
      then (case boot_turn E b (bt_running s ! j) (bt_db s) of
              (ph, d) \<Rightarrow> s\<lparr>bt_db := d, bt_running := next_phase j ph (bt_running s)\<rparr>)
      else s)"
| "boot_run E (BootMisses j) s =
     (if j < length (bt_running s) \<and> bt_running s ! j = Evicting
      then s\<lparr>bt_running := next_phase j (Some Creating) (bt_running s), bt_missed := Suc (bt_missed s)\<rparr>
      else s)"
| "boot_run E (GcDeletes cutoff) s = s\<lparr>bt_db := snd (DeletePlaygroundSessionsOlderThan cutoff (bt_db s))\<rparr>"
| "boot_run E (GcEvicts n) s = s\<lparr>bt_db := snd (EvictOldestPlaygroundSessions n (bt_db s))\<rparr>"
| "boot_run E (OtherStatements d) s =
     (if faults d = [] \<and> keys ps_id (sessions_of d) = keys ps_id (sessions_of (bt_db s)) then s\<lparr>bt_db := d\<rparr> else s)"

text \<open>A handler that nothing overlaps with is the handler as a whole.\<close>

lemma bootstrap_new_turns:
  "pdb (snd (bootstrap_new E b s)) =
     bt_db (fold (boot_run E) [Boot, BootTurn 0 b, BootTurn 0 b, BootTurn 0 b] \<lparr>bt_db = pdb s, bt_running = [], bt_missed = 0\<rparr>)"
proof -
  define cr where "cr d = snd (boot_turn E b Creating d)" for d
  have "pdb (snd (bootstrap_new E b s)) = cr (evict_for_one E (pdb s))"
    by (simp add: bootstrap_new_def cr_def boot_turn_def Let_def split: sum.split prod.split)
  moreover have create: "boot_turn E b Creating d = (None, cr d)" for d by (simp add: cr_def boot_turn_def)
  obtain x d where c: "CountPlaygroundSessions (pdb s) = (x, d)" by fastforce
  have "bt_db (fold (boot_run E) [Boot, BootTurn 0 b, BootTurn 0 b, BootTurn 0 b] \<lparr>bt_db = pdb s, bt_running = [], bt_missed = 0\<rparr>)
      = cr (evict_for_one E (pdb s))"
  proof (cases "\<exists>n. x = Inr n \<and> PlaygroundMaxSessions (cfg E) \<le> int n")
    case True
    then have t: "boot_turn E b Counting (pdb s) = (Some Evicting, d)" "evict_for_one E (pdb s) = snd (EvictOldestPlaygroundSessions 1 d)"
      using c by (auto simp: boot_turn_def evict_for_one_def)
    have "boot_turn E b Evicting d = (Some Creating, snd (EvictOldestPlaygroundSessions 1 d))" by (simp add: boot_turn_def)
    with t show ?thesis by (simp add: next_phase_def create)
  next
    case False
    then have "boot_turn E b Counting (pdb s) = (Some Creating, d)" "evict_for_one E (pdb s) = d"
      using c by (auto simp: boot_turn_def evict_for_one_def split: sum.splits)
    then show ?thesis by (simp add: next_phase_def create)
  qed
  ultimately show ?thesis by simp
qed

definition room_kept :: "int \<Rightarrow> boots \<Rightarrow> bool" where
  "room_kept B s \<longleftrightarrow>
     faults (bt_db s) = [] \<and> distinct (keys ps_id (sessions_of (bt_db s)))
     \<and> int (length (sessions_of (bt_db s)) + count_list (bt_running s) Creating) \<le> B + int (bt_missed s)"

lemma count_list_le: "count_list xs x \<le> length xs"
  by (induction xs) auto

lemma next_phase_count:
  assumes "j < length xs"
  shows "count_list (next_phase j ph xs) Creating + of_bool (xs ! j = Creating) = count_list xs Creating + of_bool (ph = Some Creating)"
    and "count_list (next_phase j ph xs) Creating < length xs + of_bool (ph = Some Creating)"
proof -
  have xs: "xs = take j xs @ xs ! j # drop (Suc j) xs" using assms by (rule id_take_nth_drop)
  have c: "count_list xs Creating = count_list (take j xs) Creating + of_bool (xs ! j = Creating) + count_list (drop (Suc j) xs) Creating"
    by (subst xs) simp
  then show "count_list (next_phase j ph xs) Creating + of_bool (xs ! j = Creating) = count_list xs Creating + of_bool (ph = Some Creating)"
    by (auto simp: next_phase_def split: option.splits)
  show "count_list (next_phase j ph xs) Creating < length xs + of_bool (ph = Some Creating)"
    using assms count_list_le [of "take j xs" Creating] count_list_le [of "drop (Suc j) xs" Creating]
    by (auto simp: next_phase_def split: option.splits)
qed

lemma boot_turn_room:
  assumes "faults d = []" "distinct (keys ps_id (sessions_of d))" and t: "boot_turn E b ph d = (ph', d')"
  shows "faults d' = [] \<and> distinct (keys ps_id (sessions_of d'))"
    and "ph = Counting \<Longrightarrow> d' = d \<and> (ph' = Some Creating \<longrightarrow> int (length (sessions_of d)) < PlaygroundMaxSessions (cfg E)) \<and> ph' \<noteq> None"
    and "ph = Evicting \<Longrightarrow> length (sessions_of d') = length (sessions_of d) - 1 \<and> ph' = Some Creating"
    and "ph = Creating \<Longrightarrow> length (sessions_of d') \<le> Suc (length (sessions_of d)) \<and> ph' = None"
proof -
  have ev: "faults (snd (EvictOldestPlaygroundSessions 1 d)) = [] \<and> distinct (keys ps_id (sessions_of (snd (EvictOldestPlaygroundSessions 1 d))))
      \<and> length (sessions_of (snd (EvictOldestPlaygroundSessions 1 d))) = length (sessions_of d) - 1"
    using evict_oldest [OF assms(2), of 1] assms(1,2) by (simp add: EvictOldestPlaygroundSessions_def Let_def distinct_keys_filter)
  then show "faults d' = [] \<and> distinct (keys ps_id (sessions_of d'))"
    using t assms create_session_room(2,3)
    by (auto simp: boot_turn_def count_sessions split: boot_phase.splits sum.splits)
  show "ph = Evicting \<Longrightarrow> length (sessions_of d') = length (sessions_of d) - 1 \<and> ph' = Some Creating"
    using ev t by (auto simp: boot_turn_def)
  show "ph = Counting \<Longrightarrow> d' = d \<and> (ph' = Some Creating \<longrightarrow> int (length (sessions_of d)) < PlaygroundMaxSessions (cfg E)) \<and> ph' \<noteq> None"
    using t assms(1) by (auto simp: boot_turn_def count_sessions split: if_splits)
  show "ph = Creating \<Longrightarrow> length (sessions_of d') \<le> Suc (length (sessions_of d)) \<and> ph' = None"
    using t create_session_room(1) [OF assms(1)] by (auto simp: boot_turn_def split: sum.splits)
qed

lemma boot_run_room:
  assumes r: "room_kept B s" and m: "1 \<le> PlaygroundMaxSessions (cfg E)" and B: "PlaygroundMaxSessions (cfg E) + int k - 1 \<le> B"
    and k: "length (bt_running s) \<le> k"
  shows "room_kept B (boot_run E e s)"
proof (cases e)
  case (BootTurn j b)
  show ?thesis
  proof (cases "j < length (bt_running s)")
    case True
    obtain ph d where t: "boot_turn E b (bt_running s ! j) (bt_db s) = (ph, d)" by fastforce
    note c = next_phase_count [OF True, of ph]
    note bt = boot_turn_room [OF _ _ t]
    have "int (length (sessions_of d) + count_list (next_phase j ph (bt_running s)) Creating) \<le> B + int (bt_missed s)"
    proof (cases "bt_running s ! j")
      case Counting
      with r bt(2) have d: "d = bt_db s" "ph = Some Creating \<Longrightarrow> int (length (sessions_of d)) < PlaygroundMaxSessions (cfg E)"
        by (auto simp: room_kept_def)
      show ?thesis
      proof (cases "ph = Some Creating")
        case True
        with d c(2) k B show ?thesis by simp
      next
        case False
        with d(1) c(1) Counting r show ?thesis by (simp add: room_kept_def)
      qed
    next
      case Evicting
      with r bt(3) have d: "length (sessions_of d) = length (sessions_of (bt_db s)) - 1" "ph = Some Creating"
        by (auto simp: room_kept_def)
      show ?thesis
      proof (cases "length (sessions_of (bt_db s))")
        case 0
        with d c(2) k B m show ?thesis by simp
      next
        case (Suc n)
        with d c(1) Evicting r show ?thesis by (simp add: room_kept_def)
      qed
    next
      case Creating
      with r bt(4) have "length (sessions_of d) \<le> Suc (length (sessions_of (bt_db s)))" "ph = None"
        by (auto simp: room_kept_def)
      with c(1) Creating r show ?thesis by (simp add: room_kept_def)
    qed
    with r bt(1) BootTurn True t show ?thesis by (simp add: room_kept_def)
  qed (use r BootTurn in simp)
next
  case (BootMisses j)
  with r next_phase_count(1) [of j "bt_running s" "Some Creating"] show ?thesis by (auto simp: room_kept_def)
next
  case (GcDeletes c)
  then show ?thesis
    using r by (auto simp: room_kept_def DeletePlaygroundSessionsOlderThan_def distinct_keys_filter
        intro: order_trans [OF add_right_mono [OF of_nat_mono [OF length_filter_le]]])
next
  case (GcEvicts n)
  then show ?thesis
    using r by (auto simp: room_kept_def EvictOldestPlaygroundSessions_def Let_def distinct_keys_filter
        intro: order_trans [OF add_right_mono [OF of_nat_mono [OF length_filter_le]]])
next
  case (OtherStatements d)
  then show ?thesis using r by (auto simp: room_kept_def keys_def dest: arg_cong [where f = length])
qed (use r in \<open>simp add: room_kept_def\<close>)

text \<open>At most \<open>k\<close> handlers are under way at any time.\<close>

definition at_once :: "handler_env \<Rightarrow> nat \<Rightarrow> boot_event list \<Rightarrow> boots \<Rightarrow> bool" where
  "at_once E k es s \<longleftrightarrow> (\<forall>n \<le> length es. length (bt_running (fold (boot_run E) (take n es) s)) \<le> k)"

lemma at_once_Cons: "at_once E k (e # es) s \<longleftrightarrow> length (bt_running s) \<le> k \<and> at_once E k es (boot_run E e s)"
proof -
  have "(\<forall>n \<le> Suc m. P n) \<longleftrightarrow> P 0 \<and> (\<forall>n \<le> m. P (Suc n))" for m and P :: "nat \<Rightarrow> bool"
    by (metis Suc_le_mono not0_implies_Suc zero_le)
  then show ?thesis by (simp add: at_once_def)
qed

lemma boot_runs_room:
  "room_kept B s \<Longrightarrow> at_once E k es s \<Longrightarrow> 1 \<le> PlaygroundMaxSessions (cfg E) \<Longrightarrow> PlaygroundMaxSessions (cfg E) + int k - 1 \<le> B \<Longrightarrow>
   room_kept B (fold (boot_run E) es s)"
  by (induction es arbitrary: s) (auto simp: at_once_Cons intro: boot_run_room)

text \<open>
  C34. While the database works, a bootstrap that overlaps with no other never takes the number of
  playground sessions over the configured limit.  When at most \<open>k\<close> bootstraps overlap, whatever the
  order of their statements and of the collector's, the number exceeds the limit by at most
  \<open>k - 1\<close>, and by one more for every eviction that found its session already removed.  The collector
  brings the number back under the limit and leaves no session idle for longer than allowed.  It
  removes sessions only: their connections stay, and their inbound paths go on accepting.
\<close>

theorem playground_capped:
  assumes "faults (pdb s) = []" and "app_inv (tbl (pdb s))" and "1 \<le> PlaygroundMaxSessions (cfg E)"
    and "u0 = \<lparr>bt_db = pdb s, bt_running = [], bt_missed = 0\<rparr>" and "at_once E k es u0" and "u = fold (boot_run E) es u0"
  shows "int (length (sessions_of (pdb (snd (playgroundBootstrap E b r s)))))
        \<le> max (PlaygroundMaxSessions (cfg E)) (int (length (sessions_of (pdb s))))
     \<and> int (length (sessions_of (bt_db u)))
        \<le> max (PlaygroundMaxSessions (cfg E) + int k - 1) (int (length (sessions_of (pdb s)))) + int (bt_missed u)
     \<and> (let d = playgroundGC E now (pdb s)
        in int (length (sessions_of d)) \<le> PlaygroundMaxSessions (cfg E)
           \<and> (\<forall>p \<in> set (sessions_of d). now - PlaygroundSessionTTL (cfg E) \<le> ps_last_seen_at p)
           \<and> connections (tbl d) = connections (tbl (pdb s)))"
proof -
  let ?max = "PlaygroundMaxSessions (cfg E)"
  have d: "distinct (keys ps_id (sessions_of (pdb s)))" using assms(2) by (simp add: app_inv_def wf_defs)
  let ?kept = "filter (\<lambda>p. \<not> ps_last_seen_at p < now - PlaygroundSessionTTL (cfg E)) (sessions_of (pdb s))"
  define d1 where "d1 = set_tbl (\<lambda>t. t\<lparr>playground_sessions := ?kept\<rparr>) (pdb s)"
  have d1: "faults d1 = []" "sessions_of d1 = ?kept" "connections (tbl d1) = connections (tbl (pdb s))"
    using assms(1) by (simp_all add: d1_def)
  have del: "snd (DeletePlaygroundSessionsOlderThan (now - PlaygroundSessionTTL (cfg E)) (pdb s)) = d1"
      "\<exists>n. fst (DeletePlaygroundSessionsOlderThan (now - PlaygroundSessionTTL (cfg E)) (pdb s)) = Inr n"
    using assms(1) by (simp_all add: DeletePlaygroundSessionsOlderThan_def d1_def set_tbl_def)
  have gc: "playgroundGC E now (pdb s) =
      (if ?max < int (length ?kept) then snd (EvictOldestPlaygroundSessions (nat (int (length ?kept) - ?max)) d1) else d1)"
    using del d1 by (auto simp: playgroundGC_def count_sessions split: prod.splits)
  have "distinct (keys ps_id (sessions_of d1))" using d by (simp add: d1(2) distinct_keys_filter)
  note ev = evict_oldest [OF this, of "nat (int (length ?kept) - ?max)"]
  have "int (length (sessions_of (playgroundGC E now (pdb s)))) \<le> ?max"
    using ev d1 assms(3) by (auto simp: gc EvictOldestPlaygroundSessions_def Let_def)
  moreover have "set (sessions_of (playgroundGC E now (pdb s))) \<subseteq> set ?kept"
      "connections (tbl (playgroundGC E now (pdb s))) = connections (tbl (pdb s))"
    using d1 by (auto simp: gc EvictOldestPlaygroundSessions_def Let_def)
  moreover have "room_kept (max (?max + int k - 1) (int (length (sessions_of (pdb s))))) u"
    unfolding assms(6) using assms(1,3-5) d by (intro boot_runs_room) (auto simp: room_kept_def)
  then have "int (length (sessions_of (bt_db u))) \<le> max (?max + int k - 1) (int (length (sessions_of (pdb s)))) + int (bt_missed u)"
    by (simp add: room_kept_def)
  ultimately show ?thesis
    using bootstrap_capped [OF assms(1) d assms(3)] by (auto simp: Let_def not_less)
qed

text \<open>Three sessions where two are allowed.\<close>

definition demo_crowd :: play where
  "demo_crowd = set_pdb (app_play (NewServer demo_fresh new_metrics)) (demo_fresh\<lparr>tbl := empty_tables\<lparr>
     connections := map (\<lambda>i. demo_conn\<lparr>conn_id := i, conn_inbound_path := replicate i (CHR ''p'')\<rparr>) [1, 2, 3],
     playground_sessions := map (\<lambda>i. \<lparr>ps_id = i, ps_connection_id = i, ps_fail_destination = False, ps_created_at = 0,
       ps_last_seen_at = int i\<rparr>) [1, 2, 3]\<rparr>\<rparr>)"

text \<open>One session where two are allowed, and two bootstraps that both count before either creates.\<close>

definition demo_open :: play where
  "demo_open = set_pdb demo_crowd ((pdb demo_crowd)\<lparr>tbl := (tbl (pdb demo_crowd))\<lparr>playground_sessions := [hd (sessions_of (pdb demo_crowd))]\<rparr>,
     uuid_pos := 4\<rparr>)"

definition demo_bootstrap :: "nat \<Rightarrow> bootstrap_random" where
  "demo_bootstrap i = \<lparr>br_session = i, br_secret = [], br_nonce = Inr 1, br_path = i\<rparr>"

definition demo_overlap :: "boot_event list" where
  "demo_overlap = [Boot, Boot, BootTurn 0 (demo_bootstrap 4), BootTurn 1 (demo_bootstrap 5), BootTurn 0 (demo_bootstrap 4), BootTurn 0 (demo_bootstrap 5)]"

definition with_session :: "Connection \<Rightarrow> uuid \<Rightarrow> db \<Rightarrow> db" where
  "with_session c i d = d\<lparr>tbl := (tbl d)\<lparr>connections := connections (tbl d) @ [c\<lparr>conn_id := uuid_src d (uuid_pos d), conn_created_at := db_now d\<rparr>],
      playground_sessions := sessions_of d @ [\<lparr>ps_id = i, ps_connection_id = uuid_src d (uuid_pos d), ps_fail_destination = False,
        ps_created_at = db_now d, ps_last_seen_at = db_now d\<rparr>]\<rparr>, uuid_pos := Suc (uuid_pos d)\<rparr>"

lemma create_session_adds:
  assumes "faults d = []" "numeric d = (\<lambda>_ _ x. Some x)" "text_ok p" "text_ok u"
    and "uuid_src d (uuid_pos d) \<notin> set (keys conn_id (connections (tbl d)))" "uuid_src d (uuid_pos d) \<notin> set (keys ps_connection_id (sessions_of d))"
    and "p \<notin> set (keys conn_inbound_path (connections (tbl d)))" "i \<notin> set (keys ps_id (sessions_of d))"
  shows "snd (CreatePlaygroundSession p i e u d) = with_session (playground_connection p e u) i d"
proof -
  have "text_ok ''Playground''" by code_simp
  then have "connection_check ((playground_connection p e u)\<lparr>conn_id := i', conn_retry_backoff_factor := 2, conn_created_at := t\<rparr>)" for i' t
    using assms(3,4) by (simp add: connection_check_def playground_connection_def int4_def)
  then show ?thesis
    using assms
    by (auto simp: CreatePlaygroundSession_def transaction_def create_session_body_def insert_session_stmt_def CreateConnection_def
      gen_random_uuid_def set_tbl_def Let_def split_beta playground_connection_def keys_def with_session_def)
qed

lemma demo_create:
  assumes "faults d = []" "numeric d = (\<lambda>_ _ x. Some x)" "uuid_src d = (\<lambda>n. n)" "uuid_pos d = i" "i \<le> 8"
    and "\<forall>c \<in> set (connections (tbl d)). conn_id c < i \<and> length (conn_inbound_path c) < i"
    and "\<forall>p \<in> set (sessions_of d). ps_id p < i \<and> ps_connection_id p < i"
  shows "\<exists>c. conn_inbound_path c = replicate i (CHR ''x'') \<and> boot_turn demo_henv (demo_bootstrap i) Creating d = (None, with_session c i d)"
proof -
  let ?u = "''http://x/playground/r/'' @ replicate i (CHR ''x'') @ ''/hook''"
  obtain enc where e: "Encrypt (encryptor_of demo_henv) (Inr 1) (randomSecret []) = Inr enc"
    by (auto simp: Encrypt_def EncryptBytes_def demo_henv_def Let_def)
  have "list_all (\<lambda>i. text_ok (replicate i (CHR ''x'')) \<and> text_ok (''http://x/playground/r/'' @ replicate i (CHR ''x'') @ ''/hook'')) [0..<9]" by code_simp
  then have t: "text_ok (replicate i (CHR ''x''))" "text_ok ?u" using assms(5) by (simp_all add: list_all_iff)
  have "trim_suffix ''http://x'' ''/'' = ''http://x''" by code_simp
  then have env: "trim_suffix (PlaygroundInternalBase (cfg demo_henv)) ''/'' = ''http://x''" "ustr demo_henv i = replicate i (CHR ''x'')"
    "GenerateInboundPath (ustr demo_henv) i = replicate i (CHR ''x'')"
    using assms(5) by (simp_all add: demo_henv_def demo_config_def GenerateInboundPath_def)
  have "replicate i (CHR ''x'') \<notin> set (keys conn_inbound_path (connections (tbl d)))"
    using assms(6) by (fastforce simp: keys_def dest: arg_cong [where f = length])
  then have c: "snd (CreatePlaygroundSession (replicate i (CHR ''x'')) i enc ?u d) = with_session (playground_connection (replicate i (CHR ''x'')) enc ?u) i d"
    using assms(3,4,6,7) by (intro create_session_adds [OF assms(1,2) t]) (auto simp: keys_def)
  have "boot_turn demo_henv (demo_bootstrap i) Creating d = (None, with_session (playground_connection (replicate i (CHR ''x'')) enc ?u) i d)"
    using c by (simp add: boot_turn_def demo_bootstrap_def e env)
  then show ?thesis by (intro exI [of _ "playground_connection (replicate i (CHR ''x'')) enc ?u"]) (simp add: playground_connection_def)
qed

lemma demo_overlap_over:
  "length (sessions_of (bt_db (fold (boot_run demo_henv) demo_overlap \<lparr>bt_db = pdb demo_open, bt_running = [], bt_missed = 0\<rparr>))) = 3"
    "at_once demo_henv 2 demo_overlap \<lparr>bt_db = pdb demo_open, bt_running = [], bt_missed = 0\<rparr>"
    "bt_missed (fold (boot_run demo_henv) demo_overlap \<lparr>bt_db = pdb demo_open, bt_running = [], bt_missed = 0\<rparr>) = 0"
proof -
  let ?d = "pdb demo_open"
  have o: "connections (tbl ?d) = map (\<lambda>i. demo_conn\<lparr>conn_id := i, conn_inbound_path := replicate i (CHR ''p'')\<rparr>) [1, 2, 3]"
    "sessions_of ?d = [\<lparr>ps_id = 1, ps_connection_id = 1, ps_fail_destination = False, ps_created_at = 0, ps_last_seen_at = 1\<rparr>]"
    "faults ?d = []" "numeric ?d = (\<lambda>_ _ x. Some x)" "uuid_src ?d = (\<lambda>n. n)" "uuid_pos ?d = 4"
    by (simp_all add: demo_open_def demo_crowd_def demo_fresh_def)
  have lim: "PlaygroundMaxSessions (cfg demo_henv) = 2" by (simp add: demo_henv_def demo_config_def)
  have count: "boot_turn demo_henv b Counting ?d = (Some Creating, ?d)" for b
    using o(2,3) lim by (simp add: boot_turn_def count_sessions)
  obtain c1 where c1: "conn_inbound_path c1 = replicate 4 (CHR ''x'')" "boot_turn demo_henv (demo_bootstrap 4) Creating ?d = (None, with_session c1 4 ?d)"
    using demo_create [OF o(3-6)] o(1,2) by auto
  have w: "faults (with_session c1 4 ?d) = []" "numeric (with_session c1 4 ?d) = (\<lambda>_ _ x. Some x)" "uuid_src (with_session c1 4 ?d) = (\<lambda>n. n)"
    "uuid_pos (with_session c1 4 ?d) = 5" using o by (simp_all add: with_session_def)
  obtain c2 where c2: "boot_turn demo_henv (demo_bootstrap 5) Creating (with_session c1 4 ?d) = (None, with_session c2 5 (with_session c1 4 ?d))"
    using demo_create [OF w] o(1,2) c1(1) o(5,6) by (auto simp: with_session_def)
  note turns = count c1(2) c2 next_phase_def demo_overlap_def
  show "length (sessions_of (bt_db (fold (boot_run demo_henv) demo_overlap \<lparr>bt_db = ?d, bt_running = [], bt_missed = 0\<rparr>))) = 3"
    by (simp add: turns) (simp add: with_session_def o(2))
  show "at_once demo_henv 2 demo_overlap \<lparr>bt_db = ?d, bt_running = [], bt_missed = 0\<rparr>" by (simp add: turns at_once_Cons) (simp add: at_once_def)
  show "bt_missed (fold (boot_run demo_henv) demo_overlap \<lparr>bt_db = ?d, bt_running = [], bt_missed = 0\<rparr>) = 0" by (simp add: turns)
qed

theorem playground_capped_witness:
  "length (sessions_of (pdb demo_crowd)) = 3
   \<and> int (length (sessions_of (playgroundGC demo_henv 5 (pdb demo_crowd)))) \<le> 2
   \<and> connections (tbl (playgroundGC demo_henv 5 (pdb demo_crowd))) = connections (tbl (pdb demo_crowd))
   \<and> length (sessions_of (pdb demo_open)) = 1
   \<and> (let u = fold (boot_run demo_henv) demo_overlap \<lparr>bt_db = pdb demo_open, bt_running = [], bt_missed = 0\<rparr>
      in length (sessions_of (bt_db u)) = 3 \<and> int (length (sessions_of (bt_db u))) \<le> 2 + 2 - 1)"
proof -
  have l: "list_all connection_check (connections (tbl (pdb demo_crowd)))" by code_simp
  have lim: "PlaygroundMaxSessions (cfg demo_henv) = 2" by (simp add: demo_henv_def demo_config_def)
  have inv: "app_inv (tbl (pdb demo_crowd))" "app_inv (tbl (pdb demo_open))"
    using l by (simp_all add: demo_open_def demo_crowd_def demo_fresh_def app_inv_def wf_defs empty_tables_def keys_def issue_matches_event_def issue_status_ok_def numeral_eq_Suc)
  have c: "length (sessions_of (pdb demo_crowd)) = 3" "faults (pdb demo_crowd) = []" "length (sessions_of (pdb demo_open)) = 1" "faults (pdb demo_open) = []"
    by (simp_all add: demo_open_def demo_crowd_def demo_fresh_def)
  have "at_once demo_henv 0 [] u" if "bt_running u = []" for u using that by (simp add: at_once_def)
  with playground_capped [OF c(2) inv(1) _ refl _ refl, of demo_henv 0 "[]" _ _ 5] lim
  have "int (length (sessions_of (playgroundGC demo_henv 5 (pdb demo_crowd)))) \<le> 2"
    "connections (tbl (playgroundGC demo_henv 5 (pdb demo_crowd))) = connections (tbl (pdb demo_crowd))"
    by (simp_all add: Let_def)
  moreover have "int (length (sessions_of (bt_db (fold (boot_run demo_henv) demo_overlap \<lparr>bt_db = pdb demo_open, bt_running = [], bt_missed = 0\<rparr>)))) \<le> 2 + 2 - 1"
    using playground_capped [OF c(4) inv(2) _ refl demo_overlap_over(2) refl] lim c(3) demo_overlap_over(3) by (simp add: Let_def)
  ultimately show ?thesis using c(1,3) demo_overlap_over(1) by (simp add: Let_def)
qed

end
