(* ===== verification/JsonClaims.thy ===== *)
theory JsonClaims
  imports Hub Notification JsonRoundTrip
begin

text \<open>
  What other programs read of the JSON this one writes: the messages to Slack, and the frames
  of the live streams.
\<close>

section \<open>Slack messages\<close>

lemma coerce_ascii: "list_all (\<lambda>c. ordc c < 0x80) s \<Longrightarrow> coerce_utf8 s = s"
  by (simp add: coerce_utf8_valid utf8_valid_ascii ordc_def)

lemma slack_id_ascii: "ValidSlackUserID s \<Longrightarrow> list_all (\<lambda>c. ordc c < 0x80) s"
  by (auto simp: ValidSlackUserID_def slack_id_char_def ordc_def list_all_iff Let_def split: list.splits)

text \<open>
  A message to Slack says what it is meant to say: whatever text a rule or a template
  carries, it is posted with the configured token, to a well-formed member id, and a reader of
  the JSON finds exactly two members, the channel and the trimmed text; no text can add a
  member or change the channel.  Without a token, a valid id or a text nothing is posted and
  the call fails.
\<close>

lemma slack_message:
  assumes "PostDM slack_http token userID text = (r, posts)"
  shows "(posts = [] \<and> r \<noteq> Inr () \<and> (token = [] \<or> \<not> ValidSlackUserID userID \<or> trim_space text = []))
     \<or> (\<exists>p. posts = [p] \<and> sp_token p = token \<and> token \<noteq> [] \<and> ValidSlackUserID userID \<and> trim_space text \<noteq> []
          \<and> read_value (sp_payload p) = Some (VObj [(''channel'', VStr userID), (''text'', VStr (coerce_utf8 (trim_space text)))]))"
proof -
  let ?post = "\<lparr>sp_token = token, sp_payload = marshal (JObj [(''channel'', JStr userID), (''text'', JStr (trim_space text))])\<rparr>"
  have keys: "coerce_utf8 ''channel'' = ''channel''" "coerce_utf8 ''text'' = ''text''"
    by (simp_all add: coerce_ascii ordc_def)
  have "sort_key fst [(''channel'', JStr userID), (''text'', JStr (trim_space text))] =
      [(''channel'', JStr userID), (''text'', JStr (trim_space text))]"
    by (rule sort_key_id_if_sorted) code_simp
  then have read: "read_value (sp_payload ?post) = Some (VObj [(''channel'', VStr userID), (''text'', VStr (coerce_utf8 (trim_space text)))])"
    if "ValidSlackUserID userID"
    using that read_marshal [of "JObj [(''channel'', JStr userID), (''text'', JStr (trim_space text))]"]
    by (simp add: maxNestingDepth_def reading_object keys coerce_ascii [OF slack_id_ascii] del: reading.simps(6) marshal.simps)
  show ?thesis
    using assms read by (auto simp: PostDM_def Let_def split: if_splits)
qed

section \<open>Frames of a stream\<close>

text \<open>What is written has no control characters: a frame is two lines.\<close>

abbreviation printable :: "string \<Rightarrow> bool" where
  "printable s \<equiv> \<forall>c \<in> set s. 0x20 \<le> ordc c"

lemma printable_hex4: "printable (hex4 n)"
proof -
  have "0x20 \<le> ordc (hex_digit d)" if "d < 16" for d
    using that by (cases "d < 10") (simp_all add: hex_digit_def ordc_def of_char_of)
  then show ?thesis unfolding hex4_def by (simp add: ordc_def [of "CHR 0x5C"] ordc_def [of "CHR ''u''"])
qed

lemma printable_ascii: "printable (quote_ascii c)"
  using printable_hex4 [of "of_char c"] by (simp add: quote_ascii_def Let_def ordc_def)

lemma rune_bytes:
  assumes "rune_len xs \<noteq> 0" "rune_len xs \<noteq> 1"
  shows "\<forall>b \<in> set (take (rune_len xs) xs). 0x80 \<le> b"
proof -
  have high: "cont b \<Longrightarrow> 0x80 \<le> b" "rune3 a b c \<Longrightarrow> 0x80 \<le> b \<and> 0x80 \<le> c" "rune4 a b c e \<Longrightarrow> 0x80 \<le> b \<and> 0x80 \<le> c \<and> 0x80 \<le> e"
    for a b c e by (auto simp: rune3_def rune4_def cont_def)
  show ?thesis
    using assms by (cases xs) (auto simp: rune_len_Cons simp del: rune_len.simps(2) split: list.splits if_splits dest!: high)
qed

lemma printable_runes: "printable (quote_runes s)"
proof (induction s rule: quote_runes.induct)
  case (1 s)
  let ?n = "rune_len (map of_char s)"
  have rune: "printable (take ?n s)" if "?n \<noteq> 0" "?n \<noteq> 1"
    using rune_bytes [OF that] by (fastforce simp: ordc_def take_map)
  show ?case
    using 1 rune printable_hex4 printable_ascii by (subst quote_runes.simps) (auto simp: Let_def ball_Un)
qed

lemma printable_quote: "printable (quote s)"
  using printable_runes by (auto simp: quote_def ordc_def)

text \<open>
  The reader of an event stream: it collects the lines of a frame and hands the frame out at
  the blank line after it.  The data is decoded as the event it is.
\<close>

fun sse_frames :: "string \<Rightarrow> string \<Rightarrow> string list \<Rightarrow> (string \<times> string) list" where
  "sse_frames evt dat [] = []"
| "sse_frames evt dat (l # ls) =
     (if l = [] then (if dat = [] then sse_frames [] [] ls else (evt, dat) # sse_frames [] [] ls)
      else if has_prefix l ''event: '' then sse_frames (drop 7 l) dat ls
      else if has_prefix l ''data: '' then sse_frames evt (dat @ drop 6 l) ls
      else sse_frames evt dat ls)"

definition log_event_fields :: "LogEvent json_fields" where
  "log_event_fields =
     [json_field ''ts'' into_string le_ts le_ts_update, json_field ''line'' into_string le_line le_line_update,
      json_field ''delivery_id'' into_string le_delivery_id le_delivery_id_update,
      json_field ''body_preview'' into_string le_body_preview le_body_preview_update]"

definition read_log_event :: "string \<Rightarrow> LogEvent option" where
  "read_log_event = Unmarshal log_event_fields \<lparr>le_ts = [], le_line = [], le_delivery_id = [], le_body_preview = []\<rparr>"

definition sse_events :: "string \<Rightarrow> (string \<times> LogEvent option) list" where
  "sse_events s = map (\<lambda>(t, d). (t, read_log_event d)) (sse_frames [] [] (split_char (CHR 0x0A) s))"

definition clean_event :: "LogEvent \<Rightarrow> LogEvent" where
  "clean_event ev =
     \<lparr>le_ts = coerce_utf8 (le_ts ev), le_line = coerce_utf8 (le_line ev), le_delivery_id = coerce_utf8 (le_delivery_id ev),
      le_body_preview = coerce_utf8 (le_body_preview ev)\<rparr>"

definition event_data :: "LogEvent \<Rightarrow> string" where
  "event_data ev =
     marshal_struct ([(''ts'', JStr (le_ts ev)), (''line'', JStr (le_line ev))]
       @ (if le_delivery_id ev = [] then [] else [(''delivery_id'', JStr (le_delivery_id ev))])
       @ (if le_body_preview ev = [] then [] else [(''body_preview'', JStr (le_body_preview ev))]))"

lemma FormatSSE_data: "FormatSSE t ev = ''event: '' @ t @ [CHR 0x0A] @ ''data: '' @ event_data ev @ [CHR 0x0A, CHR 0x0A]"
  by (simp add: FormatSSE_def event_data_def)

lemma read_event_data: "read_log_event (event_data ev) = Some (clean_event ev)"
proof -
  have keys: "coerce_utf8 ''ts'' = ''ts''" "coerce_utf8 ''line'' = ''line''" "coerce_utf8 ''delivery_id'' = ''delivery_id''"
    "coerce_utf8 ''body_preview'' = ''body_preview''" by (simp_all add: coerce_ascii ordc_def)
  show ?thesis
    unfolding read_log_event_def event_data_def Unmarshal_def
    by (subst read_marshal_struct)
       (auto simp: maxNestingDepth_def keys store_member_def find_field_def log_event_fields_def json_field_def clean_event_def)
qed

lemma printable_join: "\<forall>x \<in> set xs. printable x \<Longrightarrow> printable sep \<Longrightarrow> printable (join sep xs)"
  by (cases xs) auto

lemma printable_data: "printable (event_data ev)"
proof -
  have "printable (member_text (k, JStr v))" for k v
    using printable_quote by (auto simp: member_text_def ordc_def)
  then have j: "printable (join '','' (map member_text kvs))" if "\<forall>m \<in> set kvs. \<exists>v. snd m = JStr v" for kvs
    using that by (intro printable_join) (auto simp: ordc_def)
  have obj: "printable (''{'' @ join '','' (map member_text kvs) @ ''}'')" if "\<forall>m \<in> set kvs. \<exists>v. snd m = JStr v" for kvs
    using j [OF that] by (simp add: ball_Un ordc_def)
  show ?thesis unfolding event_data_def marshal_struct_object by (rule obj) auto
qed

lemma split_line: "CHR 0x0A \<notin> set l \<Longrightarrow> split_char (CHR 0x0A) (l @ CHR 0x0A # s) = l # split_char (CHR 0x0A) s"
  by (rule split_char_app)

lemma sse_frame:
  assumes "CHR 0x0A \<notin> set t"
  shows "sse_frames [] [] (split_char (CHR 0x0A) (FormatSSE t ev @ s)) = (t, event_data ev) # sse_frames [] [] (split_char (CHR 0x0A) s)"
proof -
  have "\<not> 0x20 \<le> ordc (CHR 0x0A)" by (simp add: ordc_def)
  then have d: "CHR 0x0A \<notin> set (event_data ev)" using printable_data [of ev] by blast
  have n: "event_data ev \<noteq> []" by (simp add: event_data_def marshal_struct_def)
  have "split_char (CHR 0x0A) (FormatSSE t ev @ s) = (''event: '' @ t) # (''data: '' @ event_data ev) # [] # split_char (CHR 0x0A) s"
    using split_line [of "''event: '' @ t"] split_line [of "''data: '' @ event_data ev"] split_line [of "[]"] assms d
    by (simp add: FormatSSE_data)
  then show ?thesis using n by (simp add: has_prefix_def)
qed

text \<open>
  C37. A live stream can be read back: whatever the lines and previews of the events hold,
  reading all that was written gives exactly the events, each with its type, in order.  Bytes
  that are not valid UTF-8 come back as the replacement character; no text can end a frame,
  start another or change its type.
\<close>

theorem sse_round_trip:
  "sse_events (concat (map (\<lambda>(sim, ev). FormatSSE (if sim then ''sim'' else ''dest'') ev) frames)) =
     map (\<lambda>(sim, ev). (if sim then ''sim'' else ''dest'', Some (clean_event ev))) frames"
proof (induction frames)
  case Nil
  show ?case by (simp add: sse_events_def)
next
  case (Cons f frames)
  obtain sim ev where f: "f = (sim, ev)" by fastforce
  have "CHR 0x0A \<notin> set (if sim then ''sim'' else ''dest'')" by auto
  from sse_frame [OF this] Cons show ?case by (simp add: f sse_events_def read_event_data)
qed

end
