(* ===== verification/ConsoleClaims.thy ===== *)
theory ConsoleClaims
  imports System
begin

text \<open>
  The console as its users rely on it: sessions guard every route of the console, a login
  opens one and a logout ends it, and the secret a connection was given is the one ingestion
  checks.
\<close>

section \<open>Sessions\<close>

text \<open>A request carries the cookie of a session that has not expired.\<close>

definition has_session :: "handler_env \<Rightarrow> (string \<times> string) list \<Rightarrow> db \<Rightarrow> bool" where
  "has_session E cookies d \<longleftrightarrow>
     (\<exists>v i x. request_cookie cookies (SessionCookieName (cfg E)) = Some v \<and> parse_uuid E v = Some i
        \<and> x \<in> set (sessions (tbl d)) \<and> sess_id x = i \<and> db_now d < sess_expires_at x)"

lemma GetSession_SomeD:
  assumes "GetSession i d = (Inr (Some x), d')"
  shows "x \<in> set (sessions (tbl d)) \<and> sess_id x = i \<and> db_now d < sess_expires_at x"
proof -
  have "find (\<lambda>s. sess_id s = i \<and> db_now d < sess_expires_at s) (sessions (tbl d)) = Some x"
    using assms by (auto simp: GetSession_def dest!: select_InrD)
  then show ?thesis by (auto simp: find_Some_iff)
qed

lemma GetSession_tbl: "GetSession i d = (r, d') \<Longrightarrow> tbl d' = tbl d"
  by (rule preserves_step [OF GetSession_keeps [where P = "\<lambda>t. t = tbl d"] refl])

lemma auth_refuses:
  assumes "\<not> has_session E cookies (srv_db s)"
  shows "\<exists>d. auth E cookies h s = (Error 401 ''unauthorized'', upd_db s d) \<and> tbl d = tbl (srv_db s)"
proof -
  have s: "upd_db s (srv_db s) = s" by (simp add: upd_db_def)
  consider (none) "auth E cookies h s = (Error 401 ''unauthorized'', s)"
    | (looked) v i where "request_cookie cookies (SessionCookieName (cfg E)) = Some v" "parse_uuid E v = Some i"
    by (cases "request_cookie cookies (SessionCookieName (cfg E))"; cases "parse_uuid E (the (request_cookie cookies (SessionCookieName (cfg E))))")
       (simp_all add: auth_def)
  then show ?thesis
  proof cases
    case none
    with s show ?thesis by metis
  next
    case looked
    obtain r d where g: "GetSession i (srv_db s) = (r, d)" by fastforce
    have "r \<noteq> Inr (Some x)" for x
      using assms looked GetSession_SomeD [of i "srv_db s" x d] g by (auto simp: has_session_def)
    with looked g GetSession_tbl [OF g] show ?thesis
      by (auto simp: auth_def split: sum.splits option.splits)
  qed
qed

section \<open>Routes\<close>

lemma match_segs_length: "match_segs ps ss = Some xs \<Longrightarrow> length ss = length ps"
  by (induction ps ss arbitrary: xs rule: match_segs.induct) (auto split: if_splits)

lemma find_routeD:
  assumes "find_route demo m path = Some rt"
  shows "\<exists>pm ps f xs. (pm, ps, f) \<in> set (routes demo) \<and> method_ok pm m \<and> match_segs ps path = Some xs \<and> rt = f xs"
proof -
  let ?F = "filter (\<lambda>(pm, ps, _). method_ok pm m \<and> match_segs ps path \<noteq> None) (routes demo)"
  obtain pm ps f rest where F: "?F = (pm, ps, f) # rest"
    using assms by (auto simp: find_route_def split: list.splits)
  then have mem: "(pm, ps, f) \<in> set ?F" by simp
  then obtain xs where xs: "match_segs ps path = Some xs" by auto
  with F assms have "rt = f xs" by (simp add: find_route_def)
  with mem xs show ?thesis by auto
qed

text \<open>The parts of the API that are open to anyone.\<close>

definition open_parts :: "string set" where
  "open_parts = {''auth'', ''config'', ''playground''}"

lemma console_routes:
  assumes "find_route demo m (''api'' # part # rest) = Some rt" and "part \<notin> open_parts"
  shows "console A ch q rt \<noteq> None"
proof -
  obtain pm ps f xs where p: "(pm, ps, f) \<in> set (routes demo)" "match_segs ps (''api'' # part # rest) = Some xs" "rt = f xs"
    using find_routeD [OF assms(1)] by blast
  then show ?thesis
    using assms(2)
    by (auto simp: routes_def server_routes_def registerPlaygroundRoutes_def open_parts_def split: if_splits)
qed

text \<open>
  C9. Every request below \<^verbatim>\<open>/api\<close> except for the login, the configuration and the playground is
  refused unless it carries the cookie of a session that has not expired: it is answered 401,
  404 or 405, and changes no table, no cached connection, no stream and not the test receiver,
  and starts no workflow.
\<close>

theorem console_guarded:
  assumes "hr_path q = ''api'' # part # rest" and "part \<notin> open_parts"
    and "\<not> has_session (core_env A) (hr_cookies q) (adb s)"
  shows "status_of (fst (handle A ch q s)) \<in> {401, 404, 405}
     \<and> (let s' = snd (handle A ch q s); c = plg_core (app_play s); c' = plg_core (app_play s')
        in tbl (srv_db c') = tbl (srv_db c) \<and> srv_cache c' = srv_cache c \<and> srv_started c' = srv_started c
           \<and> plg_hub (app_play s') = plg_hub (app_play s) \<and> app_sink s' = app_sink s)"
proof (cases "find_route (DemoMode (cfg (core_env A))) (hr_method q) (hr_path q)")
  case None
  then show ?thesis by (simp add: handle_def Let_def)
next
  case (Some rt)
  have "find_route (DemoMode (cfg (core_env A))) (hr_method q) (''api'' # part # rest) = Some rt"
    using Some assms(1) by simp
  then obtain h where h: "console A ch q rt = Some h" using console_routes [OF _ assms(2), of _ _ _ rt A ch q] by blast
  have "\<not> has_session (core_env A) (hr_cookies q) (srv_db (plg_core (app_play s)))" using assms(3) by (simp add: adb_def)
  then obtain d where d: "auth (core_env A) (hr_cookies q) (\<lambda>c. (Reply 0 (), c)) (plg_core (app_play s)) =
      (Error 401 ''unauthorized'', upd_db (plg_core (app_play s)) d)" "tbl d = tbl (srv_db (plg_core (app_play s)))"
    using auth_refuses by blast
  have "handle A ch q s = (Error 401 ''unauthorized'',
      s\<lparr>app_play := (app_play s)\<lparr>plg_core := upd_db (plg_core (app_play s)) d\<rparr>\<rparr>)"
    by (simp add: handle_def Let_def Some dispatch_def h guarded_def d(1))
  with d(2) show ?thesis by (simp add: Let_def)
qed

section \<open>Login and logout\<close>

lemma CreateSession_InrD:
  assumes "CreateSession x d = (Inr y, d')"
  shows "y \<in> set (sessions (tbl d')) \<and> sess_expires_at y = sess_expires_at x"
  using pool_InrD [OF assms [unfolded CreateSession_def]]
  by (auto simp: Let_def split_beta split: if_splits)

lemma login_InrD:
  assumes "login E now (Some q) s = (Reply c (ck, email), s')"
  shows "\<exists>u x. u \<in> set (users (tbl (srv_db s))) \<and> user_email u = lr_email q
     \<and> bcrypt_ok E (user_password_hash u) (lr_password q)
     \<and> ck = sessionCookie E (ustr E (sess_id x)) (sess_expires_at x)
     \<and> sess_expires_at x = now + SessionTTL (cfg E) \<and> x \<in> set (sessions (tbl (srv_db s')))"
proof -
  obtain r d where g: "GetUserByEmail (lr_email q) (srv_db s) = (r, d)" by fastforce
  obtain u where u: "r = Inr (Some u)" "bcrypt_ok E (user_password_hash u) (lr_password q)"
    using assms g by (auto simp: login_def split: sum.splits option.splits if_splits)
  have "find_by user_email (lr_email q) (users (tbl (srv_db s))) = Some u"
    using g u(1) by (auto simp: GetUserByEmail_def dest!: select_InrD)
  then have u': "u \<in> set (users (tbl (srv_db s)))" "user_email u = lr_email q" by (auto dest: find_by_SomeD)
  obtain x d' where x: "CreateSession \<lparr>sess_id = 0, sess_user_id = user_id u, sess_created_at = 0,
        sess_expires_at = now + SessionTTL (cfg E)\<rparr> d = (Inr x, d')"
    and ck: "ck = sessionCookie E (ustr E (sess_id x)) (sess_expires_at x)" "s' = upd_db s d'"
    using assms g u by (auto simp: login_def split: prod.splits sum.splits)
  show ?thesis using u u' ck CreateSession_InrD [OF x] by (intro exI [of _ u] exI [of _ x]) simp
qed

text \<open>
  C13. A login succeeds only with the password of a user with that address.  Its cookie opens
  every guarded route from then on, as long as the session is in the table and has not
  expired; once the same cookie has been used to log out, it opens none.
\<close>

theorem login_session:
  assumes "login E now (Some q) s = (Reply c (ck, email), s')"
    and "\<And>i. parse_uuid E (ustr E i) = Some i" and "SessionCookieName (cfg E) \<noteq> []"
    and "set (sessions (tbl (srv_db s'))) \<subseteq> set (sessions (tbl (srv_db t)))"
    and "faults (srv_db t) = []" and "db_now (srv_db t) < now + SessionTTL (cfg E)"
  shows "(\<exists>u \<in> set (users (tbl (srv_db s))). user_email u = lr_email q \<and> bcrypt_ok E (user_password_hash u) (lr_password q))
     \<and> auth E [(ck_name ck, ck_value ck)] h t = h t
     \<and> fst (auth E [(ck_name ck, ck_value ck)] h (snd (logout E [(ck_name ck, ck_value ck)] t))) = Error 401 ''unauthorized''"
proof -
  obtain u x where u: "u \<in> set (users (tbl (srv_db s)))" "user_email u = lr_email q"
      "bcrypt_ok E (user_password_hash u) (lr_password q)"
    and x: "ck = sessionCookie E (ustr E (sess_id x)) (sess_expires_at x)" "sess_expires_at x = now + SessionTTL (cfg E)"
      "x \<in> set (sessions (tbl (srv_db s')))"
    using login_InrD [OF assms(1)] by blast
  let ?cookies = "[(ck_name ck, ck_value ck)]"
  have ck: "request_cookie ?cookies (SessionCookieName (cfg E)) = Some (ustr E (sess_id x))"
    using x(1) assms(3) by (simp add: request_cookie_def sessionCookie_def)
  have "find (\<lambda>s. sess_id s = sess_id x \<and> db_now (srv_db t) < sess_expires_at s) (sessions (tbl (srv_db t))) \<noteq> None"
    using x assms(4,6) by (auto simp: find_None_iff)
  then have 1: "auth E ?cookies h t = h t"
    using ck assms(2,5) by (auto simp: auth_def GetSession_def select_def upd_db_def)
  have "\<not> has_session E ?cookies (srv_db (snd (logout E ?cookies t)))"
    using ck assms(2,5) by (auto simp: has_session_def logout_def DeleteSession_def)
  then have 2: "fst (auth E ?cookies h (snd (logout E ?cookies t))) = Error 401 ''unauthorized''"
    using auth_refuses [of E ?cookies "snd (logout E ?cookies t)" h] by auto
  from u 1 2 show ?thesis by blast
qed

section \<open>Signing secrets\<close>

text \<open>The requests that give a connection its secret: its creation, and a change.\<close>

inductive sets_secret :: "handler_env \<Rightarrow> server \<Rightarrow> string \<Rightarrow> string \<Rightarrow> server \<Rightarrow> bool" for E where
  created: "createConnection E b rand u (Some q) s = (Reply c (resp, secret), s') \<Longrightarrow>
    srv_cache s (cr_inbound_path resp) = None \<Longrightarrow> sets_secret E s (cr_inbound_path resp) secret s'"
| patched: "patchConnection E rand idText (Some q) s = (Reply c resp, s') \<Longrightarrow> pcr_signing_secret q = Some raw \<Longrightarrow>
    sets_secret E s (cr_inbound_path resp) (trim_space raw) s'"

lemma Decrypt_Encrypt: "Encrypt e rand p = Inr c \<Longrightarrow> Decrypt e c = Inr p"
  by (auto simp: Encrypt_def Decrypt_def dest: box.dec_enc)

lemma CreateConnection_InrD:
  assumes "CreateConnection c d = (Inr c', d')"
  shows "conn_inbound_path c' = conn_inbound_path c \<and> (\<exists>cn \<in> set (connections (tbl d')).
     conn_inbound_path cn = conn_inbound_path c \<and> conn_signing_secret_enc cn = conn_signing_secret_enc c)"
  using pool_InrD [OF assms [unfolded CreateConnection_def]]
  by (auto simp: Let_def split_beta split: if_splits option.splits)

lemma created_row:
  assumes "createConnection E b rand u (Some q) s = (Reply c (resp, secret), s')"
  shows "srv_cache s' = srv_cache s \<and> (\<exists>cn \<in> set (connections (tbl (srv_db s'))). conn_inbound_path cn = cr_inbound_path resp
     \<and> Encrypt (encryptor_of E) rand secret = Inr (conn_signing_secret_enc cn))"
  using assms
  by (auto simp: createConnection_def Let_def toConnectionResponse_def split: if_splits sum.splits prod.splits
      dest!: CreateConnection_InrD)

lemma update_by_mem: "r \<in> set rows \<Longrightarrow> key r = k \<Longrightarrow> f r \<in> set (update_by key k f rows)"
  by (auto simp: update_by_def)

lemma UpdateConnection_SomeD:
  assumes "UpdateConnection i n u a f b r d = (Inr (Some c), d')"
  shows "\<exists>c0 \<in> set (connections (tbl d)). conn_id c0 = i \<and> conn_inbound_path c = conn_inbound_path c0
     \<and> (\<exists>cn \<in> set (connections (tbl d')). conn_id cn = i \<and> conn_inbound_path cn = conn_inbound_path c)"
proof -
  obtain c0 d1 where g: "GetConnection i d = (Inr (Some c0), d1)"
    using assms by (auto simp: UpdateConnection_def split: prod.splits sum.splits option.splits)
  then have c0: "find_by conn_id i (connections (tbl d)) = Some c0" "tbl d1 = tbl d"
    by (auto simp: GetConnection_def dest!: select_InrD)
  obtain x where x: "update_connection_stmt i c d1 = (Inr x, d')" "conn_inbound_path c = conn_inbound_path c0"
    using assms g by (auto simp: UpdateConnection_def Let_def split: prod.splits sum.splits)
  have "\<exists>cn \<in> set (connections (tbl d')). conn_id cn = i \<and> conn_inbound_path cn = conn_inbound_path c0"
    using pool_InrD [OF x(1) [unfolded update_connection_stmt_def]] c0 find_by_SomeD [OF c0(1)]
    by (auto simp: Let_def split: option.splits if_splits intro!: bexI [OF _ update_by_mem [of c0]])
  with x(2) find_by_SomeD [OF c0(1)] show ?thesis by auto
qed

lemma UpdateConnectionSecret_InrD:
  assumes "UpdateConnectionSecret i enc d = (Inr x, d')" and "c \<in> set (connections (tbl d))" "conn_id c = i"
  shows "c\<lparr>conn_signing_secret_enc := enc\<rparr> \<in> set (connections (tbl d'))"
  using pool_InrD [OF assms(1) [unfolded UpdateConnectionSecret_def]] assms(2,3)
  by (auto split: if_splits intro: update_by_mem)

lemma patched_row:
  assumes "patchConnection E rand idText (Some q) s = (Reply c resp, s')" and raw: "pcr_signing_secret q = Some raw"
  shows "srv_cache s' (cr_inbound_path resp) = None \<and> (\<exists>cn \<in> set (connections (tbl (srv_db s'))).
     conn_inbound_path cn = cr_inbound_path resp \<and> Encrypt (encryptor_of E) rand (trim_space raw) = Inr (conn_signing_secret_enc cn))"
proof -
  obtain i x d where u: "UpdateConnection i (pcr_name q) (pcr_destination_url q) (pcr_retry_attempts q)
      (pcr_retry_first_delay_s q) (pcr_retry_backoff_factor q) (pcr_retention_days q) (srv_db s) = (Inr (Some x), d)"
    and i: "parse_uuid E idText = Some i"
    using assms by (auto simp: patchConnection_def split: option.splits prod.splits sum.splits)
  obtain perr :: "connectionResponse reply option" and d' where p: "patch_secret E rand i (Some raw) d = (perr, d')" by fastforce
  have "perr \<noteq> Some (Reply c resp)"
    using p by (auto simp: patch_secret_def Let_def split: if_splits sum.splits prod.splits)
  with p have p': "perr = None"
    and s': "s' = (upd_db s d')\<lparr>srv_cache := (srv_cache s)(conn_inbound_path x := None)\<rparr>"
    and resp: "cr_inbound_path resp = conn_inbound_path x"
    using assms u i by (auto simp: patchConnection_def toConnectionResponse_def split: option.splits prod.splits)
  note p = p [unfolded p']
  obtain enc y where e: "Encrypt (encryptor_of E) rand (trim_space raw) = Inr enc" "UpdateConnectionSecret i enc d = (Inr y, d')"
    using p by (auto simp: patch_secret_def Let_def split: if_splits sum.splits prod.splits)
  obtain cn where "cn \<in> set (connections (tbl d))" "conn_id cn = i" "conn_inbound_path cn = conn_inbound_path x"
    using UpdateConnection_SomeD [OF u] by blast
  from UpdateConnectionSecret_InrD [OF e(2) this(1,2)] this(3) e(1) show ?thesis
    unfolding s' resp by (auto intro!: bexI [of _ "cn\<lparr>conn_signing_secret_enc := enc\<rparr>"])
qed

text \<open>Such a request leaves the path without an entry in the cache and with the secret in the row.\<close>

lemma sets_secret_row:
  assumes "sets_secret E s path secret s'" and "app_inv (tbl (srv_db s'))"
  shows "srv_cache s' path = None \<and> (\<exists>cn. find_by conn_inbound_path path (connections (tbl (srv_db s'))) = Some cn
     \<and> Decrypt (encryptor_of E) (conn_signing_secret_enc cn) = Inr secret)"
proof -
  have "srv_cache s' path = None \<and> (\<exists>cn rand. cn \<in> set (connections (tbl (srv_db s'))) \<and> conn_inbound_path cn = path
      \<and> Encrypt (encryptor_of E) rand secret = Inr (conn_signing_secret_enc cn))"
    using assms(1)
  proof cases
    case (created b rand u q c resp)
    with created_row [of E b rand u q s c resp secret s'] show ?thesis by auto
  next
    case (patched rand idText q c resp raw)
    with patched_row [of E rand idText q s c resp s' raw] show ?thesis by auto
  qed
  moreover have "distinct (keys conn_inbound_path (connections (tbl (srv_db s'))))"
    using assms(2) by (simp add: app_inv_def wf_defs)
  ultimately show ?thesis by (auto simp: find_by_Some_iff_distinct dest: Decrypt_Encrypt)
qed

section \<open>Examples\<close>

definition demo_get :: "string list \<Rightarrow> http_request" where
  "demo_get path = \<lparr>hr_method = ''GET'', hr_path = path, hr_query = (\<lambda>_. []), hr_cookies = [], hr_headers = [],
     hr_remote = ''1.2.3.4:5'', hr_body = \<lparr>bs_bytes = [], bs_fails = False\<rparr>\<rparr>"

theorem console_guarded_witness:
  "status_of (fst (handle demo_api demo_choices (demo_get [''api'', ''connections'']) (NewServer demo_db new_metrics))) \<in> {401, 404, 405}"
  using console_guarded [of "demo_get [''api'', ''connections'']" "''connections''" "[]" demo_api "NewServer demo_db new_metrics" demo_choices]
  by (simp add: demo_get_def open_parts_def has_session_def request_cookie_def)

definition demo_user_server :: server where
  "demo_user_server = demo_server\<lparr>srv_db := (srv_db demo_server)\<lparr>tbl := empty_tables\<lparr>users :=
     [\<lparr>user_id = 1, user_email = ''a@b'', user_password_hash = ''pw'', user_created_at = 0\<rparr>]\<rparr>\<rparr>\<rparr>"

theorem login_session_witness:
  "\<exists>ck s'. login demo_henv 5 (Some \<lparr>lr_email = ''a@b'', lr_password = ''pw''\<rparr>) demo_user_server = (Reply 200 (ck, ''a@b''), s')
     \<and> auth demo_henv [(ck_name ck, ck_value ck)] readyz s' = readyz s'
     \<and> fst (auth demo_henv [(ck_name ck, ck_value ck)] readyz (snd (logout demo_henv [(ck_name ck, ck_value ck)] s')))
         = Error 401 ''unauthorized''"
proof -
  let ?q = "\<lparr>lr_email = ''a@b'', lr_password = ''pw''\<rparr>"
  obtain ck s' where l: "login demo_henv 5 (Some ?q) demo_user_server = (Reply 200 (ck, ''a@b''), s')"
    and s': "faults (srv_db s') = []" "db_now (srv_db s') = 5"
    by (simp add: login_def demo_user_server_def demo_server_def demo_henv_def GetUserByEmail_def select_def CreateSession_def
        find_by_Cons keys_def empty_tables_def Let_def gen_random_uuid_def set_tbl_def upd_db_def)
  have "SessionCookieName (cfg demo_henv) \<noteq> []" "SessionTTL (cfg demo_henv) = Hour"
    "parse_uuid demo_henv (ustr demo_henv i) = Some i" for i
    by (simp_all add: demo_henv_def demo_config_def)
  with login_session [OF l, of s' readyz] l s' show ?thesis by auto
qed

lemma demo_created:
  "\<exists>resp s'. createConnection demo_henv [] (Inr 1) 3 (Some \<lparr>ccr_name = ''shop'', ccr_source_type = ''stripe'',
        ccr_destination_url = ''http://d'', ccr_signing_secret = ''s3cret''\<rparr>) demo_user_server = (Reply 201 (resp, ''s3cret''), s')
     \<and> sets_secret demo_henv demo_user_server (cr_inbound_path resp) ''s3cret'' s' \<and> app_inv (tbl (srv_db s')) \<and> faults (srv_db s') = []"
proof -
  let ?q = "\<lparr>ccr_name = ''shop'', ccr_source_type = ''stripe'', ccr_destination_url = ''http://d'', ccr_signing_secret = ''s3cret''\<rparr>"
  have t: "trim_space ''s3cret'' = ''s3cret''" by code_simp
  have tx: "text_ok ''shop''" "text_ok ''stripe''" "text_ok ''xxx''" "text_ok ''http://d''" by code_simp+
  have inv: "app_inv (tbl (srv_db demo_user_server))"
    using app_inv_insert_user [OF app_inv_empty, of "\<lparr>user_id = 1, user_email = ''a@b'', user_password_hash = ''pw'', user_created_at = 0\<rparr>"]
    by (simp add: demo_user_server_def empty_tables_def keys_def)
  have path: "GenerateInboundPath (ustr demo_henv) 3 = ''xxx''" by code_simp
  have "\<exists>c d. CreateConnection
      \<lparr>conn_id = 0, conn_name = ''shop'', conn_source_type = ''stripe'', conn_inbound_path = ''xxx'',
       conn_destination_url = ''http://d'', conn_signing_secret_enc = enc,
       conn_retry_attempts = 8, conn_retry_first_delay_s = 60, conn_retry_backoff_factor = 2,
       conn_retention_days = 7, conn_is_playground = False, conn_created_at = 0\<rparr> (srv_db demo_user_server) = (Inr c, d)
      \<and> conn_inbound_path c = ''xxx'' \<and> faults d = []" for enc
    by (simp add: CreateConnection_def demo_user_server_def demo_server_def empty_tables_def keys_def split_beta Let_def
        connection_check_def tx int4_def)
  moreover obtain enc where e: "Encrypt (encryptor_of demo_henv) (Inr 1) ''s3cret'' = Inr enc"
    by (auto simp: Encrypt_def EncryptBytes_def Let_def)
  ultimately obtain x d where x: "CreateConnection
      \<lparr>conn_id = 0, conn_name = ''shop'', conn_source_type = ''stripe'', conn_inbound_path = ''xxx'',
       conn_destination_url = ''http://d'', conn_signing_secret_enc = enc,
       conn_retry_attempts = 8, conn_retry_first_delay_s = 60, conn_retry_backoff_factor = 2,
       conn_retention_days = 7, conn_is_playground = False, conn_created_at = 0\<rparr> (srv_db demo_user_server) = (Inr x, d)"
    "conn_inbound_path x = ''xxx''" "faults d = []" by blast
  let ?resp = "toConnectionResponse demo_henv x" and ?s = "upd_db demo_user_server d"
  have c: "createConnection demo_henv [] (Inr 1) 3 (Some ?q) demo_user_server = (Reply 201 (?resp, ''s3cret''), ?s)"
    by (simp add: createConnection_def Let_def t path e x(1))
  have p: "srv_cache demo_user_server (cr_inbound_path ?resp) = None"
    by (simp add: toConnectionResponse_def x(2) demo_user_server_def demo_server_def)
  have "sets_secret demo_henv demo_user_server (cr_inbound_path ?resp) ''s3cret'' ?s" by (rule created [OF c p])
  moreover have "app_inv (tbl (srv_db ?s))" using srv_keepsD [OF db_inv.createConnection_keeps c inv] .
  moreover have "faults (srv_db ?s) = []" by (simp add: x(3))
  ultimately show ?thesis using c by blast
qed

end
