(* ===== verification/Concurrent.thy ===== *)
theory Concurrent
  imports ConsoleClaims
begin

text \<open>
  Requests that overlap.  The ingestion handler of \<^verbatim>\<open>internal/api/server.go\<close> is cut where it leaves
  its goroutine: each access to the connection cache, each statement and each call of Temporal
  is a step of its own, and steps of any number of requests interleave with each other, with
  the clock and with whatever else changes the server.  Run alone, the steps are the handler
  \<open>ingest\<close>.
\<close>

section \<open>The handler in steps\<close>

datatype stage =
    Arrived
  | Missed bytes
  | Loaded bytes Connection
  | Found bytes Connection string
  | Verified bytes Connection SourceAdapter
  | Conflicted Connection string
  | Stored uuid
  | Noting uuid string
  | Ended "string reply"

abbreviation received :: "string reply" where
  "received \<equiv> Reply 200 (marshal (JObj [(''received'', JBool True)]))"

fun ingest_step :: "server_env \<Rightarrow> ingest_request \<Rightarrow> time \<Rightarrow> stage \<Rightarrow> server \<Rightarrow> stage \<times> server" where
  "ingest_step E q now Arrived s =
     (case readBodyLimit (MaxBodyBytes (cfg E)) (rq_stream q) of
        Inl _ \<Rightarrow> (Ended (Error 413 ''payload too large''), s)
      | Inr body \<Rightarrow>
          (case srv_cache s (rq_path q) of
             Some c \<Rightarrow> if now < cc_expires_at c then (Found body (cc_conn c) (cc_secret c), s) else (Missed body, s)
           | None \<Rightarrow> (Missed body, s)))"
| "ingest_step E q now (Missed body) s =
     (case GetConnectionByInboundPath (rq_path q) (srv_db s) of
        (Inr (Some conn), d) \<Rightarrow> (Loaded body conn, s\<lparr>srv_db := d\<rparr>)
      | (_, d) \<Rightarrow> (Ended not_found, s\<lparr>srv_db := d\<rparr>))"
| "ingest_step E q now (Loaded body conn) s =
     (case Decrypt (encryptor_of E) (conn_signing_secret_enc conn) of
        Inl _ \<Rightarrow> (Ended not_found, s)
      | Inr secret \<Rightarrow>
          (Found body conn secret,
           s\<lparr>srv_cache := (srv_cache s)(rq_path q \<mapsto>
               \<lparr>cc_conn = conn, cc_secret = secret, cc_expires_at = now + 30 * Second\<rparr>)\<rparr>))"
| "ingest_step E q now (Found body conn secret) s =
     (case Get (conn_source_type conn) of
        Inl _ \<Rightarrow> (Ended (Error 500 ''misconfigured connection''), s)
      | Inr adapter \<Rightarrow>
          if \<not> Verify now (nfkd_of E) adapter (rq_headers q) body secret
          then (Ended (Error 401 ''invalid signature''), count_ingest conn ''invalid_signature'' s)
          else (Verified body conn adapter, s))"
| "ingest_step E q now (Verified body conn adapter) s =
     (let providerID = ExtractEventID adapter (rq_headers q) body
      in case sealEventFields (store_enc E) (rq_rand q) (header_json (rq_headers q)) body of
           Inl _ \<Rightarrow> (Ended internal_error, s)
         | Inr (h, p) \<Rightarrow>
             (case insert_event_stmt (conn_id conn) providerID h p (srv_db s) of
                (Inl err, d) \<Rightarrow>
                  (if err = ErrNoRows then Conflicted conn providerID else Ended internal_error, s\<lparr>srv_db := d\<rparr>)
              | (Inr (i, _), d) \<Rightarrow> (Stored i, count_ingest conn ''accepted'' (s\<lparr>srv_db := d\<rparr>))))"
| "ingest_step E q now (Conflicted conn providerID) s =
     (case GetEventByProviderID (store_enc E) (conn_id conn) providerID (srv_db s) of
        (Inl _, d) \<Rightarrow> (Ended internal_error, s\<lparr>srv_db := d\<rparr>)
      | (Inr _, d) \<Rightarrow> (Ended received, count_ingest conn ''duplicate'' (s\<lparr>srv_db := d\<rparr>)))"
| "ingest_step E q now (Stored i) s =
     (case ExecuteWorkflow E (WorkflowID (ustr E) i) i s of
        (Inl _, s1) \<Rightarrow> (Ended received, s1)
      | (Inr _, s1) \<Rightarrow> (Noting i (WorkflowID (ustr E) i), s1))"
| "ingest_step E q now (Noting i wfID) s = (Ended received, s\<lparr>srv_db := snd (SetEventWorkflowID i wfID (srv_db s))\<rparr>)"
| "ingest_step E q now (Ended r) s = (Ended r, s)"

text \<open>The reading of the clock that a step makes when the request runs alone.\<close>

fun stage_clk :: "ingest_request \<Rightarrow> stage \<Rightarrow> time" where
  "stage_clk q (Loaded _ _) = rq_clk q 1"
| "stage_clk q (Found _ _ _) = rq_clk q 2"
| "stage_clk q _ = rq_clk q 0"

definition alone :: "server_env \<Rightarrow> ingest_request \<Rightarrow> stage \<times> server \<Rightarrow> stage \<times> server" where
  "alone E q x = ingest_step E q (stage_clk q (fst x)) (fst x) (snd x)"

lemma alone_Ended [simp]: "(alone E q ^^ n) (Ended r, s) = (Ended r, s)"
  by (induction n) (simp_all add: alone_def)

text \<open>From the extraction of the event id on.\<close>

lemma alone_accept:
  "(alone E q ^^ 3) (Verified body conn a, s) =
     (case ingest_accept E (rq_rand q) conn a (rq_headers q) body s of (r, s') \<Rightarrow> (Ended r, s'))"
  by (auto simp: eval_nat_numeral alone_def ingest_accept_def InsertEvent_def new_event_def start_delivery_def Let_def
      split: sum.splits prod.splits if_splits option.splits)

definition decide :: "server_env \<Rightarrow> ingest_request \<Rightarrow> bytes \<Rightarrow> Connection \<Rightarrow> string \<Rightarrow> server \<Rightarrow> string reply \<times> server" where
  "decide E q body conn secret s =
     (case Get (conn_source_type conn) of
        Inl _ \<Rightarrow> (Error 500 ''misconfigured connection'', s)
      | Inr adapter \<Rightarrow>
          if \<not> Verify (rq_clk q 2) (nfkd_of E) adapter (rq_headers q) body secret
          then (Error 401 ''invalid signature'', count_ingest conn ''invalid_signature'' s)
          else ingest_accept E (rq_rand q) conn adapter (rq_headers q) body s)"

lemma funpow_plus: "(f ^^ (m + n)) x = (f ^^ m) ((f ^^ n) x)"
  by (simp add: funpow_add)

lemma alone_found:
  "(alone E q ^^ (k + 4)) (Found body conn secret, s) =
     (case decide E q body conn secret s of (r, s') \<Rightarrow> (Ended r, s'))"
proof -
  have 4: "(4::nat) = 3 + 1" by simp
  have step: "alone E q (Found body conn secret, s) = ingest_step E q (rq_clk q 2) (Found body conn secret) s"
    by (simp add: alone_def)
  have "(alone E q ^^ 4) (Found body conn secret, s) = (case decide E q body conn secret s of (r, s') \<Rightarrow> (Ended r, s'))"
    unfolding 4 funpow_plus One_nat_def funpow.simps comp_apply id_apply step
    using alone_accept [of E q body conn] by (auto simp: decide_def split: sum.splits prod.splits)
  then show ?thesis unfolding funpow_plus by (simp split: prod.splits)
qed

text \<open>
  The handler in steps is the handler: when no other request comes between, its seven steps
  end with the answer and the server of \<open>ingest\<close>, on every path through it.
\<close>

lemma ingest_steps_alone:
  "(alone E q ^^ 7) (Arrived, s) =
     (case ingest E (rq_clk q) (rq_rand q) (rq_path q) (rq_stream q) (rq_headers q) s of (r, s') \<Rightarrow> (Ended r, s'))"
proof (cases "readBodyLimit (MaxBodyBytes (cfg E)) (rq_stream q)")
  case (Inl e)
  have "(alone E q ^^ 7) (Arrived, s) = (alone E q ^^ 6) (alone E q (Arrived, s))"
    using funpow_plus [of 6 1 "alone E q"] by simp
  then show ?thesis by (simp add: alone_def [of E q "(Arrived, s)"] ingest_def Inl)
next
  case (Inr body)
  let ?g = "getCachedConnection E (rq_clk q) (rq_path q) s"
  have ingest: "ingest E (rq_clk q) (rq_rand q) (rq_path q) (rq_stream q) (rq_headers q) s =
      (case ?g of (Inr (Some conn, secret), s1) \<Rightarrow> decide E q body conn secret s1 | (_, s1) \<Rightarrow> (not_found, s1))"
    by (auto simp: ingest_def decide_def Inr split: prod.splits sum.splits option.splits)
  show ?thesis
  proof (cases "\<exists>c. srv_cache s (rq_path q) = Some c \<and> rq_clk q 0 < cc_expires_at c")
    case True
    then obtain c where c: "srv_cache s (rq_path q) = Some c" "rq_clk q 0 < cc_expires_at c" by blast
    have "(alone E q ^^ 7) (Arrived, s) = (alone E q ^^ (2 + 4)) (alone E q (Arrived, s))"
      using funpow_plus [of 6 1 "alone E q"] by simp
    also have "alone E q (Arrived, s) = (Found body (cc_conn c) (cc_secret c), s)"
      using c by (simp add: alone_def Inr)
    finally show ?thesis
      unfolding ingest alone_found using c by (simp add: getCachedConnection_def Let_def)
  next
    case False
    have "(alone E q ^^ 7) (Arrived, s) = (alone E q ^^ (0 + 4)) ((alone E q ^^ 3) (Arrived, s))"
      using funpow_plus [of 4 3 "alone E q"] by simp
    moreover have "(alone E q ^^ 3) (Arrived, s) =
        (case ?g of (Inr (Some conn, secret), s1) \<Rightarrow> (Found body conn secret, s1) | (_, s1) \<Rightarrow> (Ended not_found, s1))"
      using False
      by (auto simp: eval_nat_numeral alone_def Inr getCachedConnection_def Let_def split: prod.splits sum.splits option.splits)
    ultimately show ?thesis
      unfolding ingest using alone_found [of 0 E q body] by (auto split: prod.splits sum.splits option.splits)
  qed
qed

section \<open>Overlapping requests\<close>

text \<open>The server, the clock, and the requests under way by a number.\<close>

record world =
  wd_srv :: server
  wd_now :: time
  wd_reqs :: "nat \<Rightarrow> (ingest_request \<times> stage) option"

text \<open>
  A request arrives or takes its next step, time passes, or something else changes the server:
  another handler, the other process, an operator.  \<open>R\<close> says what that may be.
\<close>

inductive world_step :: "server_env \<Rightarrow> (server \<Rightarrow> server \<Rightarrow> bool) \<Rightarrow> world \<Rightarrow> world \<Rightarrow> bool" for E R where
  arrive: "wd_reqs w n = None \<Longrightarrow> world_step E R w (w\<lparr>wd_reqs := (wd_reqs w)(n \<mapsto> (q, Arrived))\<rparr>)"
| turn: "wd_reqs w n = Some (q, st) \<Longrightarrow> ingest_step E q (wd_now w) st (wd_srv w) = (st', s') \<Longrightarrow>
    world_step E R w (w\<lparr>wd_srv := s', wd_reqs := (wd_reqs w)(n \<mapsto> (q, st'))\<rparr>)"
| tick: "wd_now w \<le> t \<Longrightarrow> world_step E R w (w\<lparr>wd_now := t\<rparr>)"
| other: "R (wd_srv w) s' \<Longrightarrow> world_step E R w (w\<lparr>wd_srv := s'\<rparr>)"

abbreviation world_steps :: "server_env \<Rightarrow> (server \<Rightarrow> server \<Rightarrow> bool) \<Rightarrow> world \<Rightarrow> world \<Rightarrow> bool" where
  "world_steps E R \<equiv> (world_step E R)\<^sup>*\<^sup>*"

section \<open>One delivery per event\<close>

definition event_ids :: "server \<Rightarrow> uuid set" where
  "event_ids s = set (keys erow_id (events (tbl (srv_db s))))"

text \<open>The deliveries that ingestion started; replays have identifiers of their own.\<close>

definition ingest_starts :: "server_env \<Rightarrow> server \<Rightarrow> uuid list" where
  "ingest_starts E s = map snd (filter (\<lambda>(wid, i). wid = WorkflowID (ustr E) i) (srv_started s))"

text \<open>What the rest of the program may do meanwhile: anything but remove events or start deliveries as ingestion does.\<close>

definition keeps_events :: "server_env \<Rightarrow> server \<Rightarrow> server \<Rightarrow> bool" where
  "keeps_events E s s' \<longleftrightarrow> event_ids s \<subseteq> event_ids s' \<and> ingest_starts E s' = ingest_starts E s"

lemma ids_frame:
  "event_ids (count_ingest c out s) = event_ids s" "ingest_starts E (count_ingest c out s) = ingest_starts E s"
  "event_ids (s\<lparr>srv_cache := k\<rparr>) = event_ids s" "ingest_starts E (s\<lparr>srv_cache := k\<rparr>) = ingest_starts E s"
  "ingest_starts E (s\<lparr>srv_db := d\<rparr>) = ingest_starts E s"
  "tbl d = tbl (srv_db s) \<Longrightarrow> event_ids (s\<lparr>srv_db := d\<rparr>) = event_ids s"
  by (simp_all add: event_ids_def ingest_starts_def)

text \<open>What a step does to the stored events and to the starts.\<close>

lemma step_verified:
  assumes "ingest_step E q now (Verified body conn a) s = (st', s')"
  shows "event_ids s \<subseteq> event_ids s' \<and> ingest_starts E s' = ingest_starts E s
     \<and> (\<forall>i. st' = Stored i \<longrightarrow> i \<notin> event_ids s \<and> i \<in> event_ids s')"
proof -
  have grow: "event_ids s \<subseteq> set (keys erow_id (events (tbl d)))" if "insert_event_stmt c p h b (srv_db s) = (x, d)" for c p h b x d
    by (rule preserves_step [OF insert_event_stmt_grows [of "event_ids s"] _ that]) (simp add: event_ids_def)
  have new: "i \<notin> event_ids s \<and> i \<in> set (keys erow_id (events (tbl d)))" if "insert_event_stmt c p h b (srv_db s) = (Inr (i, t), d)" for c p h b i t d
    using insert_event_stmt_InrD [OF that] by (auto simp: event_ids_def row_simps)
  have frame: "event_ids (count_ingest c out (s\<lparr>srv_db := d\<rparr>)) = set (keys erow_id (events (tbl d)))"
    "event_ids (s\<lparr>srv_db := d\<rparr>) = set (keys erow_id (events (tbl d)))" for c out d
    by (simp_all add: event_ids_def)
  show ?thesis
    using assms by (auto simp: ids_frame frame Let_def split: sum.splits prod.splits if_splits dest: grow [THEN subsetD] new)
qed

lemma step_stored:
  assumes "ingest_step E q now (Stored i) s = (st', s')"
  shows "event_ids s' = event_ids s \<and> ingest_starts E s' \<in> {ingest_starts E s, ingest_starts E s @ [i]} \<and> (\<forall>j. st' \<noteq> Stored j)"
  using assms
  by (auto simp: ExecuteWorkflow_def Let_def event_ids_def ingest_starts_def split: option.splits)

lemma step_other:
  assumes "ingest_step E q now st s = (st', s')" "\<forall>i. st \<noteq> Stored i" "\<forall>b c a. st \<noteq> Verified b c a"
  shows "event_ids s' = event_ids s \<and> ingest_starts E s' = ingest_starts E s \<and> (\<forall>j. st' \<noteq> Stored j)"
proof -
  have "tbl d' = tbl d" if "GetConnectionByInboundPath p d = (x, d')" for p x d d'
    using that by (auto simp: GetConnectionByInboundPath_def select_def pool_def Let_def split: list.splits fault.splits)
  moreover have "tbl d' = tbl d" if "GetEventByProviderID e c p d = (x, d')" for e c p x d d'
    using preserves_step [OF GetEventByProviderID_keeps [where P = "\<lambda>t. t = tbl d"] refl that] .
  moreover have "event_ids (s\<lparr>srv_db := snd (SetEventWorkflowID i wid (srv_db s))\<rparr>) = event_ids s" for i wid
    using keys_without_workflow(2) [OF SetEventWorkflowID_rows(1) [OF prod.collapse [symmetric]], of i wid "srv_db s"]
    by (simp add: event_ids_def)
  ultimately show ?thesis
    using assms by (cases st) (auto simp: ids_frame split: sum.splits prod.splits if_splits option.splits)
qed

text \<open>
  Each event was started at most once, and the requests that are about to start one have
  different events, none of them started.
\<close>

definition one_start :: "server_env \<Rightarrow> world \<Rightarrow> bool" where
  "one_start E w \<longleftrightarrow>
     distinct (ingest_starts E (wd_srv w)) \<and> set (ingest_starts E (wd_srv w)) \<subseteq> event_ids (wd_srv w)
     \<and> (\<forall>n q i. wd_reqs w n = Some (q, Stored i) \<longrightarrow> i \<in> event_ids (wd_srv w) \<and> i \<notin> set (ingest_starts E (wd_srv w)))
     \<and> (\<forall>n n' q q' i. wd_reqs w n = Some (q, Stored i) \<longrightarrow> wd_reqs w n' = Some (q', Stored i) \<longrightarrow> n = n')"

lemma one_start_turn:
  assumes inv: "one_start E w" and n: "wd_reqs w n = Some (q, st)"
    and step: "ingest_step E q (wd_now w) st (wd_srv w) = (st', s')"
  shows "one_start E (w\<lparr>wd_srv := s', wd_reqs := (wd_reqs w)(n \<mapsto> (q, st'))\<rparr>)"
proof -
  consider (verified) b c a where "st = Verified b c a" | (stored) i where "st = Stored i"
    | (rest) "\<forall>i. st \<noteq> Stored i" "\<forall>b c a. st \<noteq> Verified b c a" by blast
  then show ?thesis
  proof cases
    case verified
    from step_verified [OF step [unfolded verified]] inv show ?thesis
      unfolding one_start_def by (auto split: if_splits)
  next
    case stored
    from step_stored [OF step [unfolded stored]] inv n show ?thesis
      unfolding one_start_def stored by (auto split: if_splits)
  next
    case rest
    from step_other [OF step rest] inv show ?thesis
      unfolding one_start_def by (auto split: if_splits)
  qed
qed

interpretation starts: inv_relation "world_step E (keeps_events E)" "one_start E" for E
proof unfold_locales
  fix w w' assume "one_start E w" "world_step E (keeps_events E) w w'"
  from this(2,1) show "one_start E w'"
  proof cases
    case (turn n q st st' s')
    with one_start_turn [OF \<open>one_start E w\<close>] show ?thesis by simp
  qed (auto simp: one_start_def keeps_events_def split: if_splits)
qed

text \<open>
  C6. However the steps of concurrent webhooks interleave, with retries and failures and with
  whatever the rest of the program does short of removing events: ingestion starts at most one
  delivery for an event, and only for events that are in the database.
\<close>

theorem overlapping_starts_once:
  assumes "world_steps E (keeps_events E) w w'" and "wd_reqs w = Map.empty" "srv_started (wd_srv w) = []"
  shows "distinct (ingest_starts E (wd_srv w')) \<and> set (ingest_starts E (wd_srv w')) \<subseteq> event_ids (wd_srv w')"
proof -
  have "one_start E w" using assms(2,3) by (simp add: one_start_def ingest_starts_def)
  from starts.steps_inv [OF assms(1) this] show ?thesis by (simp add: one_start_def)
qed

section \<open>A change of the secret while a request is under way\<close>

text \<open>A schedule: which request moves, and when the clock is read as what.\<close>

datatype move = Arrive nat ingest_request | Turn nat | Clock time | Patch "96 word result" string patchConnectionRequest

text \<open>The change of a connection as one step of the rest of the program.\<close>

definition patches :: "handler_env \<Rightarrow> server \<Rightarrow> server \<Rightarrow> bool" where
  "patches E s s' \<longleftrightarrow> (\<exists>rand idText req. s' = snd (patchConnection E rand idText req s))"

fun play_move :: "handler_env \<Rightarrow> move \<Rightarrow> world \<Rightarrow> world" where
  "play_move E (Arrive n q) w = (if wd_reqs w n = None then w\<lparr>wd_reqs := (wd_reqs w)(n \<mapsto> (q, Arrived))\<rparr> else w)"
| "play_move E (Turn n) w =
     (case wd_reqs w n of
        None \<Rightarrow> w
      | Some (q, st) \<Rightarrow>
          (case ingest_step (server_env.truncate E) q (wd_now w) st (wd_srv w) of
             (st', s') \<Rightarrow> w\<lparr>wd_srv := s', wd_reqs := (wd_reqs w)(n \<mapsto> (q, st'))\<rparr>))"
| "play_move E (Clock t) w = (if wd_now w \<le> t then w\<lparr>wd_now := t\<rparr> else w)"
| "play_move E (Patch rand idText req) w = w\<lparr>wd_srv := snd (patchConnection E rand idText (Some req) (wd_srv w))\<rparr>"

lemma play_moves:
  assumes "\<And>rand idText req s. Patch rand idText req \<in> set ms \<Longrightarrow> R s (snd (patchConnection E rand idText (Some req) s))"
  shows "world_steps (server_env.truncate E) R w (fold (play_move E) ms w)"
  using assms
proof (induction ms arbitrary: w)
  case (Cons m ms)
  have "play_move E m w = w \<or> world_step (server_env.truncate E) R w (play_move E m w)"
    using Cons.prems by (cases m) (auto split: option.splits prod.splits intro: world_step.intros)
  with Cons show ?case by (auto intro: converse_rtranclp_into_rtranclp)
qed simp

text \<open>
  C35. A change of the signing secret can be undone by a request that is under way: when a
  request looked its connection up before the change and stores it in the cache after it, the
  cache holds the old secret again, and for thirty seconds every request to that path is
  checked with it, although the change was answered with success and the database has the new
  secret.
\<close>

theorem stale_secret:
  assumes "wd_reqs w n = Some (q, Missed body)" and "faults (srv_db (wd_srv w)) = []"
    and "find_by conn_inbound_path (rq_path q) (connections (tbl (srv_db (wd_srv w)))) = Some old"
    and "Decrypt (encryptor_of E) (conn_signing_secret_enc old) = Inr oldSecret"
    and "patchConnection E rand idText (Some req) (wd_srv w) = (Reply 200 resp, s')"
    and "cr_inbound_path resp = rq_path q" "pcr_signing_secret req = Some newSecret"
  shows "\<exists>w'. world_steps (server_env.truncate E) (patches E) w w' \<and> wd_now w' = wd_now w
     \<and> (\<forall>clk. clk 0 < wd_now w + 30 * Second \<longrightarrow>
          fst (getCachedConnection (server_env.truncate E) clk (rq_path q) (wd_srv w')) = Inr (Some old, oldSecret))
     \<and> (\<exists>cn \<in> set (connections (tbl (srv_db (wd_srv w')))). conn_inbound_path cn = rq_path q
          \<and> Decrypt (encryptor_of E) (conn_signing_secret_enc cn) = Inr (trim_space newSecret))"
proof -
  let ?w' = "fold (play_move E) [Turn n, Patch rand idText req, Turn n] w"
  have enc: "encryptor_of (server_env.truncate E) = encryptor_of E" by (simp add: server_env.defs)
  have "wd_srv ?w' = s'\<lparr>srv_cache := (srv_cache s')(rq_path q \<mapsto>
      \<lparr>cc_conn = old, cc_secret = oldSecret, cc_expires_at = wd_now w + 30 * Second\<rparr>)\<rparr>" "wd_now ?w' = wd_now w"
    using assms(1-5) by (simp_all add: GetConnectionByInboundPath_def select_def enc)
  moreover have "\<exists>cn \<in> set (connections (tbl (srv_db s'))). conn_inbound_path cn = rq_path q
      \<and> Decrypt (encryptor_of E) (conn_signing_secret_enc cn) = Inr (trim_space newSecret)"
    using patched_row [OF assms(5,7)] assms(6) by (auto dest: Decrypt_Encrypt)
  ultimately show ?thesis
    using play_moves [of "[Turn n, Patch rand idText req, Turn n]" "patches E" E w]
    by (intro exI [of _ ?w']) (auto simp: getCachedConnection_def patches_def)
qed

text \<open>A step of ingestion leaves the connections as they are.\<close>

lemma step_connections:
  assumes "ingest_step E q now st s = (st', s')"
  shows "connections (tbl (srv_db s')) = connections (tbl (srv_db s))"
proof -
  let ?P = "\<lambda>t. connections t = connections (tbl (srv_db s))"
  have "connections (tbl d) = connections (tbl (srv_db s))" if "insert_event_stmt c p h b (srv_db s) = (x, d)" for c p h b x d
  proof -
    have "preserves ?P (insert_event_stmt c p h b)"
      unfolding insert_event_stmt_def by (rule preserves_pool) (auto simp: Let_def split_beta)
    from preserves_step [OF this refl that] show ?thesis .
  qed
  moreover have "connections (tbl d) = connections (tbl (srv_db s))" if "GetEventByProviderID e c p (srv_db s) = (x, d)" for e c p x d
    using preserves_step [OF GetEventByProviderID_keeps [where P = ?P] refl that] .
  moreover have "connections (tbl d) = connections (tbl (srv_db s))" if "GetConnectionByInboundPath p (srv_db s) = (x, d)" for p x d
    using that by (auto simp: GetConnectionByInboundPath_def select_def pool_def Let_def split: list.splits fault.splits)
  moreover have "connections (tbl (snd (SetEventWorkflowID i wid (srv_db s)))) = connections (tbl (srv_db s))" for i wid
    by (rule SetEventWorkflowID_rows(2)) (rule prod.collapse [symmetric])
  ultimately show ?thesis
    using assms
    by (cases st) (auto simp: Let_def ExecuteWorkflow_def count_ingest_def split: sum.splits prod.splits if_splits option.splits)
qed

text \<open>What a step puts into the cache: the connection it had loaded, for thirty seconds from now.\<close>

lemma step_cache:
  assumes "ingest_step E q now st s = (st', s')" "srv_cache s' path = Some c"
  shows "srv_cache s path = Some c
    \<or> (\<exists>b conn. st = Loaded b conn \<and> rq_path q = path \<and> Decrypt (encryptor_of E) (conn_signing_secret_enc conn) = Inr (cc_secret c)
         \<and> cc_conn c = conn \<and> cc_expires_at c = now + 30 * Second)"
  using assms
  by (cases st) (auto simp: Let_def ExecuteWorkflow_def count_ingest_def split: sum.splits prod.splits if_splits option.splits)

lemma step_loaded:
  assumes "ingest_step E q now st s = (Loaded b c, s')"
  shows "find_by conn_inbound_path (rq_path q) (connections (tbl (srv_db s))) = Some c"
  using assms
  by (cases st) (auto simp: Let_def ExecuteWorkflow_def GetConnectionByInboundPath_def dest!: select_InrD
      split: sum.splits prod.splits if_splits option.splits)

text \<open>No connection of the path changes, and nothing but ingestion fills the cache.\<close>

definition keeps_connection :: "string \<Rightarrow> server \<Rightarrow> server \<Rightarrow> bool" where
  "keeps_connection path s s' \<longleftrightarrow>
     find_by conn_inbound_path path (connections (tbl (srv_db s'))) = find_by conn_inbound_path path (connections (tbl (srv_db s)))
     \<and> (srv_cache s' path = srv_cache s path \<or> srv_cache s' path = None)"

definition settling :: "server_env \<Rightarrow> string \<Rightarrow> Connection \<Rightarrow> string \<Rightarrow> time \<Rightarrow> world \<Rightarrow> bool" where
  "settling E path cn secret t w \<longleftrightarrow>
     Decrypt (encryptor_of E) (conn_signing_secret_enc cn) = Inr secret
     \<and> find_by conn_inbound_path path (connections (tbl (srv_db (wd_srv w)))) = Some cn
     \<and> (\<forall>c. srv_cache (wd_srv w) path = Some c \<longrightarrow> cc_conn c = cn \<and> cc_secret c = secret \<or> cc_expires_at c \<le> t)
     \<and> (\<forall>n q b c. wd_reqs w n = Some (q, Loaded b c) \<longrightarrow> rq_path q = path \<longrightarrow> c = cn)"

lemma settling_turn:
  assumes "settling E path cn secret t w"
    and n: "wd_reqs w n = Some (q, st)" and step: "ingest_step E q (wd_now w) st (wd_srv w) = (st', s')"
  shows "settling E path cn secret t (w\<lparr>wd_srv := s', wd_reqs := (wd_reqs w)(n \<mapsto> (q, st'))\<rparr>)"
  using assms step_connections [OF step] step_cache [OF step, of path] step_loaded [of E q "wd_now w" st "wd_srv w"]
  unfolding settling_def by (fastforce split: if_splits)

interpretation settle: inv_relation "world_step E (keeps_connection path)" "settling E path cn secret t" for E path cn secret t
proof unfold_locales
  fix w w' assume inv: "settling E path cn secret t w" and "world_step E (keeps_connection path) w w'"
  from this(2) show "settling E path cn secret t w'"
  proof cases
    case (turn n q st st' s')
    with settling_turn [OF inv] show ?thesis by simp
  qed (use inv in \<open>auto simp: settling_def keeps_connection_def split: if_splits\<close>)
qed

text \<open>Entries of the cache never outlive thirty seconds.\<close>

definition keeps_cache :: "server \<Rightarrow> server \<Rightarrow> bool" where
  "keeps_cache s s' \<longleftrightarrow> (\<forall>p. srv_cache s' p = srv_cache s p \<or> srv_cache s' p = None)"

definition short_lived :: "world \<Rightarrow> bool" where
  "short_lived w \<longleftrightarrow> (\<forall>p c. srv_cache (wd_srv w) p = Some c \<longrightarrow> cc_expires_at c \<le> wd_now w + 30 * Second)"

interpretation expiry: inv_relation "world_step E keeps_cache" short_lived for E
proof unfold_locales
  fix w w' assume inv: "short_lived w" and "world_step E keeps_cache w w'"
  from this(2) show "short_lived w'"
  proof cases
    case (turn n q st st' s')
    with inv step_cache [OF turn(3)] show ?thesis by (fastforce simp: short_lived_def)
  next
    case (tick t)
    with inv show ?thesis by (fastforce simp: short_lived_def)
  next
    case (other s')
    then have "srv_cache s' p = Some c \<Longrightarrow> srv_cache (wd_srv w) p = Some c" for p c
      by (metis keeps_cache_def option.distinct(1))
    with inv other show ?thesis by (auto simp: short_lived_def)
  qed (use inv in \<open>auto simp: short_lived_def\<close>)
qed

lemma settled_lookup:
  assumes inv: "settling E path cn secret t w" and "faults (srv_db (wd_srv w)) = []" "t \<le> clk 0"
  shows "fst (getCachedConnection E clk path (wd_srv w)) = Inr (Some cn, secret)"
proof (cases "\<exists>c. srv_cache (wd_srv w) path = Some c \<and> clk 0 < cc_expires_at c")
  case True
  with inv assms(3) show ?thesis by (force simp: settling_def getCachedConnection_def)
next
  case False
  with inv assms(2) show ?thesis
    by (auto simp: settling_def getCachedConnection_def Let_def GetConnectionByInboundPath_def select_def split: option.splits)
qed

text \<open>
  C24. A changed secret comes into force: once no request is left that loaded the connection
  before the change, and as long as the connection is not changed again, thirty seconds later
  every lookup gives the connection and the secret of the database, however requests overlap.
\<close>

theorem secret_settles:
  assumes "world_steps E keeps_cache w0 w" "srv_cache (wd_srv w0) = Map.empty"
    and "find_by conn_inbound_path path (connections (tbl (srv_db (wd_srv w)))) = Some cn"
    and "Decrypt (encryptor_of E) (conn_signing_secret_enc cn) = Inr secret"
    and "\<forall>n q body c. wd_reqs w n = Some (q, Loaded body c) \<longrightarrow> rq_path q = path \<longrightarrow> c = cn"
    and "world_steps E (keeps_connection path) w w'" "faults (srv_db (wd_srv w')) = []"
    and "wd_now w + 30 * Second \<le> clk 0"
  shows "fst (getCachedConnection E clk path (wd_srv w')) = Inr (Some cn, secret)"
proof -
  have "short_lived w"
    by (rule expiry.steps_inv [OF assms(1)]) (simp add: short_lived_def assms(2))
  with assms(3-5) have "settling E path cn secret (wd_now w + 30 * Second) w"
    by (auto simp: settling_def short_lived_def)
  from settle.steps_inv [OF assms(6) this] have inv: "settling E path cn secret (wd_now w + 30 * Second) w'" .
  from settled_lookup [OF inv assms(7), of clk] assms(8) show ?thesis by simp
qed

text \<open>
  C12. After a connection was created, or its secret changed, with success, ingestion checks requests
  to its path with that very secret, the one given or the one generated and shown: as long as
  the connection is not changed again, every lookup at whatever later moment whose statement runs
  gives it, however requests overlap, provided that at the time of the change no request for the
  path was between loading the connection and caching it.
\<close>

theorem secret_in_force:
  assumes "sets_secret E s path secret (wd_srv w)" "app_inv (tbl (srv_db (wd_srv w)))"
    and "\<forall>n q body c. wd_reqs w n = Some (q, Loaded body c) \<longrightarrow> rq_path q \<noteq> path"
    and "world_steps (server_env.truncate E) (keeps_connection path) w w'" "faults (srv_db (wd_srv w')) = []"
  shows "\<exists>conn. fst (getCachedConnection (server_env.truncate E) clk path (wd_srv w')) = Inr (Some conn, secret)"
proof -
  obtain cn where cn: "srv_cache (wd_srv w) path = None" "find_by conn_inbound_path path (connections (tbl (srv_db (wd_srv w)))) = Some cn"
    "Decrypt (encryptor_of E) (conn_signing_secret_enc cn) = Inr secret" using sets_secret_row [OF assms(1,2)] by blast
  have "settling (server_env.truncate E) path cn secret (clk 0) w"
    using cn assms(3) by (auto simp: settling_def server_env.defs)
  from settle.steps_inv [OF assms(4) this] show ?thesis using settled_lookup [OF _ assms(5) order.refl] by blast
qed

section \<open>Two changes of one connection\<close>

text \<open>\<^verbatim>\<open>UpdateConnection\<close> reads the row, puts the new fields over it and writes all six columns back.\<close>

definition merged :: "patchConnectionRequest \<Rightarrow> Connection \<Rightarrow> Connection" where
  "merged q c0 =
     c0\<lparr>conn_name := override (pcr_name q) (conn_name c0),
        conn_destination_url := override (pcr_destination_url q) (conn_destination_url c0),
        conn_retry_attempts := override (pcr_retry_attempts q) (conn_retry_attempts c0),
        conn_retry_first_delay_s := override (pcr_retry_first_delay_s q) (conn_retry_first_delay_s c0),
        conn_retry_backoff_factor := override (pcr_retry_backoff_factor q) (conn_retry_backoff_factor c0),
        conn_retention_days := override (pcr_retention_days q) (conn_retention_days c0)\<rparr>"

definition update_with :: "uuid \<Rightarrow> patchConnectionRequest \<Rightarrow> Connection option query" where
  "update_with i q = UpdateConnection i (pcr_name q) (pcr_destination_url q) (pcr_retry_attempts q) (pcr_retry_first_delay_s q)
     (pcr_retry_backoff_factor q) (pcr_retention_days q)"

lemma update_with_steps:
  "update_with i q d0 =
     (case GetConnection i d0 of
        (Inl e, d) \<Rightarrow> (Inl e, d)
      | (Inr None, d) \<Rightarrow> (Inr None, d)
      | (Inr (Some c0), d) \<Rightarrow>
          (case update_connection_stmt i (merged q c0) d of
             (Inl e, d') \<Rightarrow> (Inl e, d')
           | (Inr _, d') \<Rightarrow> (Inr (Some (merged q c0)), d')))"
  by (auto simp: update_with_def UpdateConnection_def merged_def Let_def split: prod.splits sum.splits option.splits)

lemma update_by_twice: "(\<And>r. key (f r) = key r) \<Longrightarrow> update_by key k g (update_by key k f rows) = update_by key k (\<lambda>r. g (f r)) rows"
  by (auto simp: update_by_def)

text \<open>
  C36. Of two overlapping changes of a connection one can be lost without a word: when both have
  read the row before either writes it, the second write leaves the connection as if the first
  request, which was answered with success as well, had never been made.
\<close>

theorem lost_update:
  assumes "GetConnection i d = (Inr (Some c0), d)"
    and "update_connection_stmt i (merged a c0) d = (Inr x, d1)" "update_connection_stmt i (merged b c0) d1 = (Inr y, d2)"
    and "faults d = []" "update_with i b d = (Inr z, d')"
  shows "connections (tbl d2) = connections (tbl d') \<and> z = Some (merged b c0)"
proof -
  have 1: "faults d1 = []" "numeric d1 = numeric d"
    using assms(2,4) by (auto simp: update_connection_stmt_def Let_def split: option.splits if_splits)
  obtain k where b: "numeric d 4 2 (conn_retry_backoff_factor (merged b c0)) = Some k"
    using assms(3) 1 by (auto simp: update_connection_stmt_def split: option.splits)
  show ?thesis
    using assms 1 b
    by (auto simp: update_with_steps update_connection_stmt_def Let_def update_by_twice split: option.splits if_splits sum.splits)
qed

section \<open>Examples\<close>

definition demo_world :: "server \<Rightarrow> world" where
  "demo_world s = \<lparr>wd_srv = s, wd_now = 5, wd_reqs = Map.empty\<rparr>"

definition demo_plain :: handler_env where
  "demo_plain = demo_henv\<lparr>store_enc := None\<rparr>"

text \<open>Two requests with the same event, step by step in turns.\<close>

definition demo_overlap :: world where
  "demo_overlap = fold (play_move demo_plain) (Arrive 0 demo_request # Arrive 1 demo_request # concat (replicate 6 [Turn 0, Turn 1]))
     (demo_world demo_server)"

theorem overlapping_starts_once_witness:
  "ingest_starts (server_env.truncate demo_plain) (wd_srv demo_overlap) = [100]
   \<and> distinct (ingest_starts (server_env.truncate demo_plain) (wd_srv demo_overlap))"
proof -
  have "ingest_starts (server_env.truncate demo_plain) (wd_srv demo_overlap) = [100]" by code_simp
  moreover have "world_steps (server_env.truncate demo_plain) (keeps_events (server_env.truncate demo_plain)) (demo_world demo_server) demo_overlap"
    unfolding demo_overlap_def by (rule play_moves) auto
  from overlapping_starts_once [OF this] have "distinct (ingest_starts (server_env.truncate demo_plain) (wd_srv demo_overlap))"
    by (simp add: demo_world_def demo_server_def)
  ultimately show ?thesis by blast
qed

text \<open>A connection with the secret \<open>old\<close>, and a request that has just missed it in the cache.\<close>

definition demo_old :: Connection where
  "demo_old = demo_conn\<lparr>conn_signing_secret_enc := (case Encrypt (encryptor_of demo_henv) (Inr 7) ''old'' of Inr c \<Rightarrow> c | Inl _ \<Rightarrow> [])\<rparr>"

definition demo_changing :: server where
  "demo_changing = demo_server\<lparr>srv_cache := Map.empty, srv_db := (srv_db demo_server)\<lparr>tbl := empty_tables\<lparr>connections := [demo_old]\<rparr>\<rparr>\<rparr>"

definition demo_missed :: world where
  "demo_missed = (demo_world demo_changing)\<lparr>wd_reqs := [0 \<mapsto> (demo_request, Missed ''hello'')]\<rparr>"

definition demo_patch :: patchConnectionRequest where
  "demo_patch = \<lparr>pcr_name = None, pcr_destination_url = None, pcr_retry_attempts = None, pcr_retry_first_delay_s = None,
     pcr_retry_backoff_factor = None, pcr_retention_days = None, pcr_signing_secret = Some ''new''\<rparr>"

lemma demo_old_secret: "Decrypt (encryptor_of demo_henv) (conn_signing_secret_enc demo_old) = Inr ''old''"
proof -
  obtain c where "Encrypt (encryptor_of demo_henv) (Inr 7) ''old'' = Inr c"
    by (auto simp: Encrypt_def EncryptBytes_def Let_def)
  then show ?thesis by (simp add: demo_old_def Decrypt_Encrypt)
qed

lemma demo_patch_ok:
  "\<exists>resp s'. patchConnection demo_henv (Inr 8) ''x'' (Some demo_patch) demo_changing = (Reply 200 resp, s')
     \<and> cr_inbound_path resp = ''ab12cd34''"
proof -
  have t: "trim_space ''new'' = ''new''" by code_simp
  obtain c where e: "Encrypt (encryptor_of demo_henv) (Inr 8) ''new'' = Inr c"
    by (auto simp: Encrypt_def EncryptBytes_def Let_def)
  have p: "parse_uuid demo_henv ''x'' = Some 1" by (simp add: demo_henv_def)
  have "connection_check demo_conn" by code_simp
  then have "connection_check demo_old" by (simp add: demo_old_def connection_check_def)
  moreover have "conn_id demo_old = 1" by (simp add: demo_old_def demo_conn_def)
  ultimately have u: "UpdateConnection 1 None None None None None None (srv_db demo_changing) = (Inr (Some demo_old), srv_db demo_changing)"
    by (simp add: UpdateConnection_def GetConnection_def select_def demo_changing_def demo_server_def find_by_Cons
        update_connection_stmt_def override_def update_by_def Let_def set_tbl_def)
  have "\<exists>d. UpdateConnectionSecret 1 c (srv_db demo_changing) = (Inr (), d)"
    using \<open>conn_id demo_old = 1\<close> by (simp add: UpdateConnectionSecret_def demo_changing_def demo_server_def keys_def)
  then show ?thesis
    using p u e t
    by (auto simp: patchConnection_def patch_secret_def demo_patch_def toConnectionResponse_def demo_old_def demo_conn_def)
qed

theorem stale_secret_witness:
  "\<exists>w'. world_steps (server_env.truncate demo_henv) (patches demo_henv) demo_missed w'
     \<and> fst (getCachedConnection (server_env.truncate demo_henv) (\<lambda>_. 6) ''ab12cd34'' (wd_srv w')) = Inr (Some demo_old, ''old'')
     \<and> (\<exists>cn \<in> set (connections (tbl (srv_db (wd_srv w')))).
          Decrypt (encryptor_of demo_henv) (conn_signing_secret_enc cn) = Inr ''new'')"
proof -
  have t: "trim_space ''new'' = ''new''" by code_simp
  obtain resp s' where p: "patchConnection demo_henv (Inr 8) ''x'' (Some demo_patch) demo_changing = (Reply 200 resp, s')"
    "cr_inbound_path resp = ''ab12cd34''" using demo_patch_ok by blast
  have w: "wd_srv demo_missed = demo_changing" "wd_reqs demo_missed 0 = Some (demo_request, Missed ''hello'')" "wd_now demo_missed = 5"
    "rq_path demo_request = ''ab12cd34''" "pcr_signing_secret demo_patch = Some ''new''"
    by (simp_all add: demo_missed_def demo_world_def demo_request_def demo_patch_def)
  have d: "faults (srv_db demo_changing) = []" "find_by conn_inbound_path ''ab12cd34'' (connections (tbl (srv_db demo_changing))) = Some demo_old"
    by (simp_all add: demo_changing_def demo_server_def find_by_Cons demo_old_def demo_conn_def)
  show ?thesis
    using stale_secret [of demo_missed 0 demo_request "''hello''" demo_old demo_henv "''old''" "Inr 8" "''x''" demo_patch resp s' "''new''",
        unfolded w d t, OF refl refl refl demo_old_secret p refl] by force
qed

text \<open>The same connection, long after a request has filled the cache.\<close>

theorem secret_settles_witness:
  "fst (getCachedConnection (server_env.truncate demo_henv) (\<lambda>_. 40 * Second) ''ab12cd34''
      (wd_srv (fold (play_move demo_henv) [Arrive 0 demo_request, Turn 0, Turn 0, Turn 0] (demo_world demo_changing))))
     = Inr (Some demo_old, ''old'')"
proof -
  let ?w = "demo_world demo_changing"
  let ?w' = "fold (play_move demo_henv) [Arrive 0 demo_request, Turn 0, Turn 0, Turn 0] ?w"
  have w: "wd_srv ?w = demo_changing" "wd_reqs ?w = Map.empty" "wd_now ?w = 5" by (simp_all add: demo_world_def)
  have d: "srv_cache demo_changing = Map.empty"
    "find_by conn_inbound_path ''ab12cd34'' (connections (tbl (srv_db demo_changing))) = Some demo_old"
    by (simp_all add: demo_changing_def demo_server_def find_by_Cons demo_old_def demo_conn_def)
  have e: "Decrypt (encryptor_of (server_env.truncate demo_henv)) (conn_signing_secret_enc demo_old) = Inr ''old''"
    using demo_old_secret by (simp add: server_env.defs)
  have "MaxBodyBytes (cfg (server_env.truncate demo_henv)) = 1024"
    by (simp add: server_env.defs demo_henv_def demo_config_def)
  then have f: "faults (srv_db (wd_srv ?w')) = []"
    using d e by (simp add: w demo_request_def readBodyLimit_def GetConnectionByInboundPath_def select_def)
       (simp add: demo_changing_def demo_server_def)
  have "world_steps (server_env.truncate demo_henv) (keeps_connection ''ab12cd34'') ?w ?w'" by (rule play_moves) auto
  from secret_settles [OF rtranclp.rtrancl_refl [of _ ?w], unfolded w, OF d e _ this f, of "\<lambda>_. 40 * Second"] show ?thesis by simp
qed

definition demo_rename :: patchConnectionRequest where
  "demo_rename = demo_patch\<lparr>pcr_name := Some ''renamed''\<rparr>"

definition demo_move :: patchConnectionRequest where
  "demo_move = demo_patch\<lparr>pcr_destination_url := Some ''http://e''\<rparr>"

theorem lost_update_witness:
  "\<exists>d1 d2. update_connection_stmt 1 (merged demo_rename demo_conn) (srv_db demo_server) = (Inr (), d1)
     \<and> update_connection_stmt 1 (merged demo_move demo_conn) d1 = (Inr (), d2)
     \<and> connections (tbl d2) = connections (tbl (snd (update_with 1 demo_move (srv_db demo_server))))"
proof -
  let ?d = "srv_db demo_server"
  have c: "connection_check (merged demo_rename demo_conn)" "connection_check (merged demo_move demo_conn)" by code_simp+
  have g: "GetConnection 1 ?d = (Inr (Some demo_conn), ?d)"
    by (simp add: GetConnection_def select_def demo_server_def find_by_Cons demo_conn_def)
  have k: "conn_id demo_conn = 1" by (simp add: demo_conn_def)
  have f: "faults ?d = []" "numeric ?d = (\<lambda>_ _ x. Some x)" by (simp_all add: demo_server_def)
  have stmt: "update_connection_stmt 1 (merged q demo_conn) (?d\<lparr>tbl := (tbl ?d)\<lparr>connections := [merged p demo_conn]\<rparr>\<rparr>) =
      (Inr (), ?d\<lparr>tbl := (tbl ?d)\<lparr>connections := [merged q demo_conn]\<rparr>\<rparr>)" if "connection_check (merged q demo_conn)" for p q
    using that f by (simp add: update_connection_stmt_def pool_def update_by_def Let_def set_tbl_def merged_def k)
  have d: "?d = ?d\<lparr>tbl := (tbl ?d)\<lparr>connections := [merged demo_patch demo_conn]\<rparr>\<rparr>"
    by (simp add: demo_server_def merged_def demo_patch_def override_def)
  have 1: "update_connection_stmt 1 (merged demo_rename demo_conn) ?d = (Inr (), ?d\<lparr>tbl := (tbl ?d)\<lparr>connections := [merged demo_rename demo_conn]\<rparr>\<rparr>)"
    using stmt [OF c(1), of demo_patch] d by simp
  have 2: "update_connection_stmt 1 (merged demo_move demo_conn) ?d = (Inr (), ?d\<lparr>tbl := (tbl ?d)\<lparr>connections := [merged demo_move demo_conn]\<rparr>\<rparr>)"
    using stmt [OF c(2), of demo_patch] d by simp
  obtain z where 3: "update_with 1 demo_move ?d = (Inr z, snd (update_with 1 demo_move ?d))"
    using 2 by (simp add: update_with_steps g del: One_nat_def)
  from lost_update [OF g 1 stmt [OF c(2)] f(1) 3] 1 stmt [OF c(2), of demo_rename] show ?thesis by auto
qed

text \<open>A connection is created; later requests come and go.\<close>

theorem secret_in_force_witness:
  "\<exists>resp s' conn. createConnection demo_henv [] (Inr 1) 3 (Some \<lparr>ccr_name = ''shop'', ccr_source_type = ''stripe'',
        ccr_destination_url = ''http://d'', ccr_signing_secret = ''s3cret''\<rparr>) demo_user_server = (Reply 201 (resp, ''s3cret''), s')
     \<and> fst (getCachedConnection (server_env.truncate demo_henv) (\<lambda>_. 40) (cr_inbound_path resp)
         (wd_srv (fold (play_move demo_henv) [Arrive 0 demo_request, Turn 0] (demo_world s')))) = Inr (Some conn, ''s3cret'')"
proof -
  obtain resp s' where c: "createConnection demo_henv [] (Inr 1) 3 (Some \<lparr>ccr_name = ''shop'', ccr_source_type = ''stripe'',
        ccr_destination_url = ''http://d'', ccr_signing_secret = ''s3cret''\<rparr>) demo_user_server = (Reply 201 (resp, ''s3cret''), s')"
    "sets_secret demo_henv demo_user_server (cr_inbound_path resp) ''s3cret'' s'" "app_inv (tbl (srv_db s'))" "faults (srv_db s') = []"
    using demo_created by blast
  let ?w = "demo_world s'" and ?w' = "fold (play_move demo_henv) [Arrive 0 demo_request, Turn 0] (demo_world s')"
  have w: "wd_srv ?w = s'" "wd_reqs ?w = Map.empty" by (simp_all add: demo_world_def)
  have "faults (srv_db (wd_srv ?w')) = []" using c(4) by (auto simp: w demo_request_def readBodyLimit_def split: option.split)
  moreover have "world_steps (server_env.truncate demo_henv) (keeps_connection (cr_inbound_path resp)) ?w ?w'" by (rule play_moves) auto
  ultimately show ?thesis
    using secret_in_force [of demo_henv demo_user_server "cr_inbound_path resp" "''s3cret''" ?w ?w' "\<lambda>_. 40"] c w by auto
qed

end
