(* ===== verification/Workers.thy ===== *)
theory Workers
  imports AlertingClaims
begin

text \<open>
  The evaluators of a deployment.  Every worker process starts \<^verbatim>\<open>Evaluator.Run\<close> (\<^verbatim>\<open>main.go\<close>,
  \<^verbatim>\<open>runWorker\<close>): it tries for the advisory lock until it has it, and then evaluates all rules at
  once and at every tick.  Here \<^verbatim>\<open>Run\<close> is a machine with one turn per call of
  \<^verbatim>\<open>HoldAlertEvaluation\<close>, \<^verbatim>\<open>ListAlertRules\<close>, \<^verbatim>\<open>GetPlatformMetrics\<close> and per evaluated rule, so that the
  turns of several workers, the console and the delivery workflows may fall between any two
  of them.
\<close>

section \<open>Run\<close>

text \<open>Where a worker is: the rules that were read and are not evaluated yet are part of it.\<close>

datatype run_phase =
    Acquiring
  | Evaluating
  | Listed "AlertRule list"
  | InRound PlatformMetrics "AlertRule list"
  | Selecting
  | Returned
  | Panicked

record deployment =
  dp_lock :: "nat option"
  dp_eval :: evaluator
  dp_phase :: "nat \<Rightarrow> run_phase"

definition goto :: "nat \<Rightarrow> run_phase \<Rightarrow> deployment \<Rightarrow> deployment" where
  "goto w ph p = p\<lparr>dp_phase := (dp_phase p)(w := ph)\<rparr>"

text \<open>
  One round of the loop in \<^verbatim>\<open>holdEvaluation\<close>, and what \<^verbatim>\<open>Run\<close> does with the lock: \<^verbatim>\<open>time.NewTicker\<close>
  panics when the interval is not positive, and the deferred release then frees the lock.
\<close>

definition holdEvaluation :: "int \<Rightarrow> nat \<Rightarrow> string option \<Rightarrow> deployment \<Rightarrow> deployment" where
  "holdEvaluation interval w fault p =
     (case HoldAlertEvaluation w fault (dp_lock p) of
        (Inl _, l) \<Rightarrow> p\<lparr>dp_lock := l\<rparr>
      | (Inr False, l) \<Rightarrow> p\<lparr>dp_lock := l\<rparr>
      | (Inr True, l) \<Rightarrow>
          if interval \<le> 0 then goto w Panicked (p\<lparr>dp_lock := release_evaluation w l\<rparr>)
          else goto w Evaluating (p\<lparr>dp_lock := l\<rparr>))"

definition list_rules :: "nat \<Rightarrow> deployment \<Rightarrow> deployment" where
  "list_rules w p =
     (case ListAlertRules (evr_db (dp_eval p)) of
        (Inl _, d) \<Rightarrow> goto w Selecting (p\<lparr>dp_eval := (dp_eval p)\<lparr>evr_db := d\<rparr>\<rparr>)
      | (Inr rules, d) \<Rightarrow> goto w (Listed rules) (p\<lparr>dp_eval := (dp_eval p)\<lparr>evr_db := d\<rparr>\<rparr>))"

definition get_metrics :: "alert_env \<Rightarrow> nat \<Rightarrow> AlertRule list \<Rightarrow> deployment \<Rightarrow> deployment" where
  "get_metrics E w rules p =
     (case GetPlatformMetrics (al_p95 E) (al_trunc_hour E) (evr_db (dp_eval p)) of
        (Inl _, d) \<Rightarrow> goto w Selecting (p\<lparr>dp_eval := (dp_eval p)\<lparr>evr_db := d\<rparr>\<rparr>)
      | (Inr m, d) \<Rightarrow> goto w (InRound m rules) (p\<lparr>dp_eval := (dp_eval p)\<lparr>evr_db := d\<rparr>\<rparr>))"

definition Run_turn :: "alert_env \<Rightarrow> int \<Rightarrow> nat \<Rightarrow> string option \<Rightarrow> deployment \<Rightarrow> deployment" where
  "Run_turn E interval w fault p =
     (case dp_phase p w of
        Acquiring \<Rightarrow> holdEvaluation interval w fault p
      | Evaluating \<Rightarrow> list_rules w p
      | Listed rules \<Rightarrow> get_metrics E w rules p
      | InRound m [] \<Rightarrow> goto w Selecting p
      | InRound m (r # rs) \<Rightarrow> goto w (InRound m rs) (p\<lparr>dp_eval := evaluate_rule E m r (dp_eval p)\<rparr>)
      | Selecting \<Rightarrow> goto w Evaluating p
      | _ \<Rightarrow> p)"

text \<open>The context is cancelled: \<^verbatim>\<open>Run\<close> returns from its \<^verbatim>\<open>select\<close>, and its deferred calls release the lock.\<close>

definition Run_cancel :: "nat \<Rightarrow> deployment \<Rightarrow> deployment" where
  "Run_cancel w p =
     (case dp_phase p w of
        Acquiring \<Rightarrow> goto w Returned p
      | Selecting \<Rightarrow> goto w Returned (p\<lparr>dp_lock := release_evaluation w (dp_lock p)\<rparr>)
      | _ \<Rightarrow> p)"

text \<open>
  The steps of a deployment: a turn of a worker, a cancellation, the end of the database
  session that holds the lock (only with \<open>drops\<close>), and a change of the database by another
  program, of which \<open>others\<close> says what it keeps.
\<close>

inductive deployment_step ::
  "alert_env \<Rightarrow> int \<Rightarrow> bool \<Rightarrow> (db \<Rightarrow> db \<Rightarrow> bool) \<Rightarrow> deployment \<Rightarrow> deployment \<Rightarrow> bool"
  for E interval drops others where
  turn: "deployment_step E interval drops others p (Run_turn E interval w fault p)"
| cancel: "deployment_step E interval drops others p (Run_cancel w p)"
| session_lost: "drops \<Longrightarrow> deployment_step E interval drops others p (p\<lparr>dp_lock := None\<rparr>)"
| other: "others (evr_db (dp_eval p)) d \<Longrightarrow>
    deployment_step E interval drops others p (p\<lparr>dp_eval := (dp_eval p)\<lparr>evr_db := d\<rparr>\<rparr>)"

text \<open>
  What \<^verbatim>\<open>runWorker\<close> builds for the evaluator: senders that load the settings from the database,
  with the worker's key and configuration, at every send.
\<close>

definition worker_alert_env ::
  "alert_env \<Rightarrow> config \<Rightarrow> encryptor \<Rightarrow> (nat \<Rightarrow> smtp_net) \<Rightarrow> (nat \<Rightarrow> slack_post \<Rightarrow> slack_reply) \<Rightarrow> alert_env" where
  "worker_alert_env base cfg enc net http =
     base\<lparr>al_enc := Some enc, al_cfg := cfg, al_notifier := Some net, al_slack := Some http\<rparr>"

definition started :: "evaluator \<Rightarrow> deployment" where
  "started s = \<lparr>dp_lock = None, dp_eval = s, dp_phase = (\<lambda>_. Acquiring)\<rparr>"

lemma goto_simps [simp]:
  "dp_lock (goto w ph p) = dp_lock p" "dp_eval (goto w ph p) = dp_eval p"
  "dp_phase (goto w ph p) = (dp_phase p)(w := ph)"
  by (simp_all add: goto_def)

text \<open>With the lock in hand a worker's turns make up \<^verbatim>\<open>evaluateOnce\<close>.\<close>

lemma in_round_turns:
  "dp_phase p w = InRound m rs \<Longrightarrow>
   (Run_turn E interval w fault ^^ Suc (length rs)) p = goto w Selecting (p\<lparr>dp_eval := fold (evaluate_rule E m) rs (dp_eval p)\<rparr>)"
proof (induction rs arbitrary: p)
  case Nil
  then show ?case by (simp add: Run_turn_def goto_def)
next
  case (Cons r rs)
  let ?p = "goto w (InRound m rs) (p\<lparr>dp_eval := evaluate_rule E m r (dp_eval p)\<rparr>)"
  have "Run_turn E interval w fault p = ?p" using Cons.prems by (simp add: Run_turn_def)
  then have "(Run_turn E interval w fault ^^ Suc (length (r # rs))) p = (Run_turn E interval w fault ^^ Suc (length rs)) ?p"
    by (simp add: funpow_swap1)
  also have "\<dots> = goto w Selecting (?p\<lparr>dp_eval := fold (evaluate_rule E m) rs (dp_eval ?p)\<rparr>)"
    by (rule Cons.IH) simp
  finally show ?case by (simp add: goto_def)
qed

lemma turns_evaluateOnce:
  assumes "dp_phase p w = Evaluating"
  shows "\<exists>n. (Run_turn E interval w fault ^^ n) p = goto w Selecting (p\<lparr>dp_eval := snd (evaluateOnce E (dp_eval p))\<rparr>)"
proof -
  let ?T = "Run_turn E interval w fault"
  have 1: "?T p = list_rules w p" using assms by (simp add: Run_turn_def)
  obtain rs d where l: "ListAlertRules (evr_db (dp_eval p)) = (rs, d)" by fastforce
  show ?thesis
  proof (cases rs)
    case (Inl e)
    with 1 l show ?thesis by (intro exI [of _ 1]) (simp add: list_rules_def evaluateOnce_def)
  next
    case (Inr rules)
    let ?q = "goto w (Listed rules) (p\<lparr>dp_eval := (dp_eval p)\<lparr>evr_db := d\<rparr>\<rparr>)"
    have 2: "?T p = ?q" "?T ?q = get_metrics E w rules ?q" using 1 l Inr by (simp_all add: list_rules_def Run_turn_def)
    obtain m d' where g: "GetPlatformMetrics (al_p95 E) (al_trunc_hour E) d = (m, d')" by fastforce
    show ?thesis
    proof (cases m)
      case (Inl e)
      with 2 l g Inr show ?thesis
        by (intro exI [of _ 2]) (simp add: get_metrics_def evaluateOnce_def numeral_2_eq_2 goto_def)
    next
      case m: (Inr m)
      let ?r = "goto w (InRound m rules) (?q\<lparr>dp_eval := (dp_eval p)\<lparr>evr_db := d'\<rparr>\<rparr>)"
      have "?T ?q = ?r" using 2 g m by (simp add: get_metrics_def)
      then have "(?T ^^ (Suc (length rules) + 2)) p = (?T ^^ Suc (length rules)) ?r"
        using 2 by (simp only: funpow_add o_apply) (simp add: numeral_2_eq_2)
      also have "\<dots> = goto w Selecting (?r\<lparr>dp_eval := fold (evaluate_rule E m) rules (dp_eval ?r)\<rparr>)"
        by (rule in_round_turns) simp
      finally show ?thesis
        using l g m Inr by (intro exI [of _ "Suc (length rules) + 2"]) (simp add: evaluateOnce_def goto_def)
    qed
  qed
qed

section \<open>One evaluator at a time\<close>

fun active :: "run_phase \<Rightarrow> bool" where
  "active Acquiring = False"
| "active Returned = False"
| "active Panicked = False"
| "active _ = True"

fun pending :: "run_phase \<Rightarrow> AlertRule list" where
  "pending (Listed rs) = rs"
| "pending (InRound m rs) = rs"
| "pending _ = []"

lemma pending_active: "\<not> active ph \<Longrightarrow> pending ph = []"
  by (cases ph) auto

text \<open>What was read of rule \<open>i\<close> is what the table says of it.\<close>

definition fresh :: "uuid \<Rightarrow> db \<Rightarrow> AlertRule list \<Rightarrow> bool" where
  "fresh i d rs \<longleftrightarrow> distinct (map rule_id rs)
     \<and> (\<forall>q \<in> set rs. numeric d 10 2 (rule_threshold q) = Some (rule_threshold q) \<and> (rule_id q = i \<longrightarrow> row i d = Some q))"

definition one_holder :: "uuid \<Rightarrow> deployment \<Rightarrow> bool" where
  "one_holder i p \<longleftrightarrow> alerts_ready (evr_db (dp_eval p))
     \<and> (\<forall>w. (active (dp_phase p w) \<longrightarrow> dp_lock p = Some w) \<and> fresh i (evr_db (dp_eval p)) (pending (dp_phase p w)))"

text \<open>Other programs leave rule \<open>i\<close> alone and their statements keep the tables well formed.\<close>

definition keeps_rule :: "uuid \<Rightarrow> db \<Rightarrow> db \<Rightarrow> bool" where
  "keeps_rule i d d' \<longleftrightarrow> alerts_ready d' \<and> row i d' = row i d \<and> numeric d' = numeric d"

lemma fresh_Nil [simp]: "fresh i d []"
  by (simp add: fresh_def)

lemma fresh_keeps: "fresh i d rs \<Longrightarrow> keeps_rule i d d' \<Longrightarrow> fresh i d' rs"
  by (auto simp: fresh_def keeps_rule_def)

lemma record_sent_ready:
  assumes d: "alerts_ready d" and num: "numeric d 10 2 (rule_threshold r) = Some (rule_threshold r)"
  shows "ready_step (rule_id r) d (record_sent r v d)"
proof -
  let ?i = "rule_id r" and ?d1 = "clearDeliveryError r d"
  define n where "n = \<lparr>an_id = 0, an_alert_rule_id = rule_id r, an_rule_name = rule_name r, an_rule_type = rule_type r,
    an_threshold = rule_threshold r, an_current_value = v, an_fired_at = 0\<rparr>"
  let ?d2 = "snd (RecordAlertNotification n ?d1)"
  have s1: "ready_step ?i d ?d1"
    using SetAlertRuleDeliveryError_step(1) [OF d] ready_step_refl [OF d] by (simp add: clearDeliveryError_def)
  then have "alerts_ready ?d1" by (simp add: ready_step_def)
  then have s2: "ready_step ?i ?d1 ?d2" by (rule RecordAlertNotification_step)
  have "numeric ?d2 = numeric d" using s1 s2 by (auto simp: ready_step_def alert_frame_def)
  moreover have "alerts_ready ?d2" using s2 by (simp add: ready_step_def)
  ultimately have "ready_step ?i ?d2 (snd (SetAlertRuleFiring ?i (Some (rule_threshold r)) ?d2))"
    using num by (intro SetAlertRuleFiring_step(3)) simp_all
  with s1 s2 show ?thesis by (auto simp: record_sent_def Let_def n_def intro: ready_step_trans)
qed

text \<open>
  The evaluation of a rule as it was read, however stale, touches no other rule and undertakes
  no send for another rule.
\<close>

lemma send_alert_ready:
  assumes d: "alerts_ready (evr_db s)" and num: "numeric (evr_db s) 10 2 (rule_threshold r) = Some (rule_threshold r)"
  shows "ready_step (rule_id r) (evr_db s) (evr_db (send_alert E r v s))"
    and "rule_id r \<noteq> i \<Longrightarrow> for_rule i (evr_attempts (send_alert E r v s)) = for_rule i (evr_attempts s)"
proof -
  have nf: "faults (evr_db s) = []" using d by (simp add: alerts_ready_def)
  have "ready_step (rule_id r) (evr_db s) (noteDeliveryError r e (evr_db s))" for e
    using SetAlertRuleDeliveryError_step(1) [OF d] ready_step_refl [OF d] by (simp add: noteDeliveryError_def Let_def)
  then show "ready_step (rule_id r) (evr_db s) (evr_db (send_alert E r v s))"
    by (simp add: send_alert_eq [OF nf] record_sent_ready [OF d num])
  show "for_rule i (evr_attempts (send_alert E r v s)) = for_rule i (evr_attempts s)" if "rule_id r \<noteq> i"
    using that by (simp add: send_alert_eq [OF nf] for_rule_def)
qed

lemma evaluate_rule_ready:
  assumes d: "alerts_ready (evr_db s)" and num: "numeric (evr_db s) 10 2 (rule_threshold r) = Some (rule_threshold r)"
  shows "ready_step (rule_id r) (evr_db s) (evr_db (evaluate_rule E m r s))"
    and "rule_id r \<noteq> i \<Longrightarrow> for_rule i (evr_attempts (evaluate_rule E m r s)) = for_rule i (evr_attempts s)"
proof -
  have cv: "snd (currentValue r m (evr_db s)) = evr_db s" using d by (simp add: currentValue_ready alerts_ready_def)
  have clear: "ready_step (rule_id r) (evr_db s) (clearFiring r (evr_db s))"
    using SetAlertRuleFiring_step(1) [OF d] ready_step_refl [OF d] by (simp add: clearFiring_def)
  have "evaluate_rule E m r s \<in> {s, s\<lparr>evr_db := clearFiring r (evr_db s)\<rparr>} \<union> range (\<lambda>v. send_alert E r v s)"
    using cv by (auto simp: evaluate_rule_def split: prod.splits sum.splits option.splits)
  then show "ready_step (rule_id r) (evr_db s) (evr_db (evaluate_rule E m r s))"
    and "rule_id r \<noteq> i \<Longrightarrow> for_rule i (evr_attempts (evaluate_rule E m r s)) = for_rule i (evr_attempts s)"
    using clear ready_step_refl [OF d] send_alert_ready [OF d num] by auto
qed

lemma listed_fresh:
  assumes "alerts_ready d"
  shows "ListAlertRules d = (Inr (sort_key rule_created_at (alert_rules (tbl d))), d)"
    and "fresh i d (sort_key rule_created_at (alert_rules (tbl d)))"
proof -
  show "ListAlertRules d = (Inr (sort_key rule_created_at (alert_rules (tbl d))), d)"
    using assms by (simp add: ListAlertRules_def select_def alerts_ready_def)
  have "distinct (keys rule_id (alert_rules (tbl d)))" using assms by (simp add: alerts_ready_def wf_alerts_def)
  then show "fresh i d (sort_key rule_created_at (alert_rules (tbl d)))"
    using assms unfolding fresh_def
    by (auto simp: row_def find_by_Some_iff_distinct alerts_ready_def keys_def distinct_map)
qed

lemma one_holder_round:
  assumes inv: "one_holder i p" and ph: "dp_phase p w = InRound m (r # rs)"
  shows "one_holder i (goto w (InRound m rs) (p\<lparr>dp_eval := evaluate_rule E m r (dp_eval p)\<rparr>))"
proof -
  let ?d = "evr_db (dp_eval p)" and ?d' = "evr_db (evaluate_rule E m r (dp_eval p))"
  have lock: "dp_lock p = Some w" and fr: "fresh i ?d (r # rs)" and ready: "alerts_ready ?d"
    using inv ph unfolding one_holder_def by (metis active.simps(6), metis pending.simps(2), blast)
  from fr have "numeric ?d 10 2 (rule_threshold r) = Some (rule_threshold r)" by (simp add: fresh_def)
  from evaluate_rule_ready(1) [OF ready this]
  have st: "ready_step (rule_id r) ?d ?d'" .
  then have "numeric ?d' = numeric ?d" by (auto simp: ready_step_def alert_frame_def)
  with fr st have "fresh i ?d' rs" by (force simp: fresh_def ready_step_def image_iff)
  moreover have "pending (dp_phase p v) = []" "\<not> active (dp_phase p v)" if "v \<noteq> w" for v
    using inv lock that pending_active [of "dp_phase p v"] by (auto simp: one_holder_def)
  ultimately show ?thesis using st lock by (auto simp: one_holder_def ready_step_def)
qed

lemma one_holder_turn:
  assumes inv: "one_holder i p"
  shows "one_holder i (Run_turn E interval w fault p)"
proof -
  have ready: "alerts_ready (evr_db (dp_eval p))" using inv by (simp add: one_holder_def)
  have lock: "active (dp_phase p w) \<Longrightarrow> dp_lock p = Some w" using inv by (simp add: one_holder_def)
  show ?thesis
  proof (cases "dp_phase p w")
    case Acquiring
    have "\<not> active (dp_phase p v)" if "dp_lock p = None" for v using inv that by (auto simp: one_holder_def)
    with Acquiring inv show ?thesis
      by (auto simp: Run_turn_def holdEvaluation_def HoldAlertEvaluation_def release_evaluation_def one_holder_def
          split: option.splits)
  next
    case Evaluating
    with inv lock listed_fresh [OF ready] show ?thesis by (auto simp: Run_turn_def list_rules_def one_holder_def)
  next
    case (Listed rs)
    have "fresh i (evr_db (dp_eval p)) rs" using inv Listed unfolding one_holder_def by (metis pending.simps(1))
    with Listed inv lock GetPlatformMetrics_ready [of "evr_db (dp_eval p)" E] ready show ?thesis
      by (auto simp: Run_turn_def get_metrics_def one_holder_def alerts_ready_def)
  next
    case (InRound m rs)
    show ?thesis
    proof (cases rs)
      case Nil
      with InRound inv lock show ?thesis by (auto simp: Run_turn_def one_holder_def)
    next
      case (Cons r rs')
      with InRound one_holder_round [OF inv, of w m r rs'] show ?thesis by (simp add: Run_turn_def)
    qed
  qed (use inv lock in \<open>auto simp: Run_turn_def one_holder_def\<close>)
qed

lemma one_holder_cancel: "one_holder i p \<Longrightarrow> one_holder i (Run_cancel w p)"
  by (cases "dp_phase p w") (auto simp: Run_cancel_def one_holder_def release_evaluation_def, metis active.simps(7) option.inject)

interpretation holder: inv_relation "deployment_step E interval False (keeps_rule i)" "one_holder i" for E interval i
proof unfold_locales
  fix p p'
  assume inv: "one_holder i p" and step: "deployment_step E interval False (keeps_rule i) p p'"
  from step show "one_holder i p'"
  proof cases
    case (other d)
    then have "alerts_ready d" by (simp add: keeps_rule_def)
    moreover have "fresh i d (pending (dp_phase p w))" for w
      using fresh_keeps [OF _ other(2)] inv by (simp add: one_holder_def)
    ultimately show ?thesis using inv by (simp add: other(1) one_holder_def)
  qed (use inv one_holder_turn one_holder_cancel in auto)
qed

section \<open>One alert per breach\<close>

definition breaches :: "observation \<Rightarrow> bool" where
  "breaches ob \<longleftrightarrow> ob \<in> {NoSamples} \<union> range Breach"

text \<open>Rule \<open>i\<close> is breached now, and so it was when the metrics of a running round were taken.\<close>

definition in_breach :: "alert_env \<Rightarrow> uuid \<Rightarrow> deployment \<Rightarrow> bool" where
  "in_breach E i p \<longleftrightarrow>
     (\<exists>r. row i (evr_db (dp_eval p)) = Some r
       \<and> breaches (observe (metrics_at E (evr_db (dp_eval p))) (evr_db (dp_eval p)) r)
       \<and> (\<forall>w m rs. dp_phase p w = InRound m rs \<longrightarrow> breaches (observe m (evr_db (dp_eval p)) r)))"

definition keeps_breach :: "alert_env \<Rightarrow> uuid \<Rightarrow> db \<Rightarrow> db \<Rightarrow> bool" where
  "keeps_breach E i d d' \<longleftrightarrow> keeps_rule i d d' \<and> (\<exists>r. row i d' = Some r \<and> breaches (observe (metrics_at E d') d' r))"

text \<open>Every delivered alert takes the rule from quiet to alerting, and nothing else does.\<close>

definition one_alert :: "uuid \<Rightarrow> evaluator \<Rightarrow> evaluator \<Rightarrow> bool" where
  "one_alert i s s' \<longleftrightarrow>
     delivered i s' + of_bool (alerting i s) = delivered i s + of_bool (alerting i s') \<and> (alerting i s \<longrightarrow> alerting i s')"

lemma one_alert_refl [simp]: "one_alert i s s"
  by (simp add: one_alert_def)

lemma one_alert_trans: "one_alert i s s1 \<Longrightarrow> one_alert i s1 s2 \<Longrightarrow> one_alert i s s2"
  by (auto simp: one_alert_def)

lemma one_alert_same:
  "row i (evr_db s') = row i (evr_db s) \<Longrightarrow> for_rule i (evr_attempts s') = for_rule i (evr_attempts s) \<Longrightarrow> one_alert i s s'"
  by (simp add: one_alert_def delivered_def alerting_def)

lemma observe_config: "same_config r r' \<Longrightarrow> observe m d r' = observe m d r"
proof -
  assume "same_config r r'"
  then have f: "rule_active r' = rule_active r" "rule_type r' = rule_type r" "rule_threshold r' = rule_threshold r"
    by (auto simp: same_config_def)
  then have "currentValue r' m d = currentValue r m d" "\<And>v. isBreached r' v = isBreached r v"
    by (simp_all add: currentValue_def isBreached_def)
  with f show ?thesis by (simp add: observe_def split: sum.split)
qed

lemma metrics_frame:
  assumes "alert_frame d d'" and "faults d = []"
  shows "metrics_at E d' = metrics_at E d"
proof -
  have t: "deliveries (tbl d') = deliveries (tbl d)" "events (tbl d') = events (tbl d)" "issues (tbl d') = issues (tbl d)"
    "connections (tbl d') = connections (tbl d)" "db_now d' = db_now d" "faults d' = []"
    using assms by (auto simp: alert_frame_def)
  then have "recent_deliveries d' = recent_deliveries d" "recent_events d' = recent_events d" "open_issues (tbl d') = open_issues (tbl d)"
    "connection_stats (al_p95 E) d' = connection_stats (al_p95 E) d"
    by (simp_all add: recent_deliveries_def recent_events_def open_issues_def connection_stats_def event_connection_def fun_eq_iff)
  with t assms(2) show ?thesis
    by (simp add: metrics_at_def GetPlatformMetrics_def bind_def select_def OpenIssuesCount_def
      hourlyEventCounts_def hourlyDeliveryCounts_def ListConnections_def ListAllConnectionStats_def)
qed

text \<open>A rule is measured by the metrics or by the database, never by both.\<close>

lemma observe_mixed:
  assumes "breaches (observe m d r)" and "breaches (observe m' d' r)" and "faults d = []" "faults d' = []"
  shows "breaches (observe m d' r)"
proof (cases "rule_type r \<in> {''OPEN_ISSUES'', ''DELIVERY_SUCCESS''}")
  case True
  then have "observe m d' r = observe m d r" by (auto simp: observe_def currentValue_def Let_def)
  with assms show ?thesis by simp
next
  case False
  then have "observe m d' r = observe m' d' r" by (auto simp: observe_def currentValue_def)
  with assms show ?thesis by simp
qed

lemma evaluate_one_alert:
  assumes ready: "alerts_ready (evr_db s)" and row: "row i (evr_db s) = Some r" and b: "breaches (observe m (evr_db s) r)"
    and s': "s' = evaluate_rule E m r s"
  shows "one_alert i s s' \<and> (\<exists>r'. row i (evr_db s') = Some r' \<and> same_config r r')"
proof -
  have i: "rule_id r = i" using row by (auto simp: row_def dest: find_by_SomeD)
  obtain p sends where spec: "alert_spec (phase_of r) (observe m (evr_db s) r) (send_ok E r s) = (p, sends)" by fastforce
  from evaluate_rule_refines [OF ready row [folded i] spec s', unfolded i]
  obtain r' where r': "row i (evr_db s') = Some r'" "same_config r r'" "phase_of r' = p"
    and att: "evr_attempts s' = evr_attempts s @ (case sends of None \<Rightarrow> [] | Some v \<Rightarrow> [made E r s v])" by blast
  have "one_alert i s s'"
    using spec b row r' i unfolding one_alert_def delivered_def alerting_def for_rule_def att breaches_def
    by (cases "phase_of r") (auto simp: at_result_made split: if_splits)
  with r' show ?thesis by blast
qed

definition alert_inv :: "alert_env \<Rightarrow> uuid \<Rightarrow> evaluator \<Rightarrow> deployment \<Rightarrow> bool" where
  "alert_inv E i s p \<longleftrightarrow> one_holder i p \<and> in_breach E i p \<and> one_alert i s (dp_eval p)"

lemma alert_inv_same:
  assumes "alert_inv E i s p" and "one_holder i p'" and "dp_eval p' = dp_eval p"
    and "\<And>w m rs. dp_phase p' w = InRound m rs \<Longrightarrow> (\<exists>v rs. dp_phase p v = InRound m rs) \<or> m = metrics_at E (evr_db (dp_eval p))"
  shows "alert_inv E i s p'"
  using assms unfolding alert_inv_def in_breach_def by metis

lemma alert_inv_round:
  assumes inv: "alert_inv E i s p" and ph: "dp_phase p w = InRound m (q # rs)"
  shows "alert_inv E i s (goto w (InRound m rs) (p\<lparr>dp_eval := evaluate_rule E m q (dp_eval p)\<rparr>))"
proof -
  let ?s = "dp_eval p" and ?s' = "evaluate_rule E m q (dp_eval p)"
  have h: "one_holder i p" using inv by (simp add: alert_inv_def)
  then have ready: "alerts_ready (evr_db ?s)" and fr: "fresh i (evr_db ?s) (q # rs)"
    using ph unfolding one_holder_def by (blast, metis pending.simps(2))
  obtain r where r: "row i (evr_db ?s) = Some r" "breaches (observe (metrics_at E (evr_db ?s)) (evr_db ?s) r)"
    and rounds: "\<And>v m rs. dp_phase p v = InRound m rs \<Longrightarrow> breaches (observe m (evr_db ?s) r)"
    using inv by (auto simp: alert_inv_def in_breach_def)
  have num: "numeric (evr_db ?s) 10 2 (rule_threshold q) = Some (rule_threshold q)" using fr by (simp add: fresh_def)
  note st = evaluate_rule_ready [OF ready num, where E = E and m = m]
  have frame: "alert_frame (evr_db ?s) (evr_db ?s')" and nf: "faults (evr_db ?s) = []"
    using st(1) ready by (simp_all add: ready_step_def alerts_ready_def)
  have "one_alert i ?s ?s' \<and> (\<exists>r'. row i (evr_db ?s') = Some r' \<and> same_config r r')"
  proof (cases "rule_id q = i")
    case True
    then have "q = r" using fr r(1) by (simp add: fresh_def)
    with evaluate_one_alert [OF ready r(1) rounds [OF ph] refl] show ?thesis by simp
  next
    case False
    with st r(1) show ?thesis by (auto intro!: one_alert_same simp: ready_step_def)
  qed
  then obtain r' where one: "one_alert i ?s ?s'" and r': "row i (evr_db ?s') = Some r'" "same_config r r'" by blast
  have "observe m' (evr_db ?s') r' = observe m' (evr_db ?s) r" for m'
    using observe_config [OF r'(2)] observe_frame [OF frame nf] by simp
  moreover have "metrics_at E (evr_db ?s') = metrics_at E (evr_db ?s)" by (rule metrics_frame [OF frame nf])
  ultimately have "in_breach E i (goto w (InRound m rs) (p\<lparr>dp_eval := ?s'\<rparr>))"
    using r r' rounds ph unfolding in_breach_def by auto
  with one one_holder_round [OF h ph, of E] inv show ?thesis
    by (auto simp: alert_inv_def intro: one_alert_trans)
qed

lemma alert_inv_turn:
  assumes inv: "alert_inv E i s p"
  shows "alert_inv E i s (Run_turn E interval w fault p)"
proof -
  have h: "one_holder i p" using inv by (simp add: alert_inv_def)
  then have nf: "faults (evr_db (dp_eval p)) = []" and ready: "alerts_ready (evr_db (dp_eval p))"
    by (simp_all add: one_holder_def alerts_ready_def)
  show ?thesis
  proof (cases "\<exists>m q rs. dp_phase p w = InRound m (q # rs)")
    case True
    then show ?thesis using alert_inv_round [OF inv] by (auto simp: Run_turn_def)
  next
    case False
    then show ?thesis
      using listed_fresh(1) [OF ready] GetPlatformMetrics_ready [OF nf, of E]
      by (intro alert_inv_same [OF inv one_holder_turn [OF h]])
         (auto simp: Run_turn_def holdEvaluation_def list_rules_def get_metrics_def
            split: run_phase.splits list.splits prod.splits sum.splits bool.splits if_splits)
  qed
qed

interpretation alert: inv_relation "deployment_step E interval False (keeps_breach E i)" "alert_inv E i s" for E interval i s
proof unfold_locales
  fix p p'
  assume inv: "alert_inv E i s p" and step: "deployment_step E interval False (keeps_breach E i) p p'"
  have h: "one_holder i p" using inv by (simp add: alert_inv_def)
  from step show "alert_inv E i s p'"
  proof cases
    case (turn w fault)
    then show ?thesis using alert_inv_turn [OF inv] by simp
  next
    case (cancel w)
    show ?thesis unfolding cancel
      by (rule alert_inv_same [OF inv one_holder_cancel [OF h]])
         (auto simp: Run_cancel_def split: run_phase.splits if_splits)
  next
    case (other d)
    let ?d = "evr_db (dp_eval p)"
    have k: "keeps_rule i ?d d" and nf: "faults ?d = []" "faults d = []"
      using other h by (auto simp: keeps_breach_def keeps_rule_def one_holder_def alerts_ready_def)
    have h': "one_holder i p'"
      using holder.inv_step [OF h deployment_step.other [of "keeps_rule i", OF k]] other by blast
    obtain r where r: "row i ?d = Some r" "\<And>w m rs. dp_phase p w = InRound m rs \<Longrightarrow> breaches (observe m ?d r)"
      using inv by (auto simp: alert_inv_def in_breach_def)
    then have "row i d = Some r" "breaches (observe (metrics_at E d) d r)"
      using other k by (auto simp: keeps_breach_def keeps_rule_def)
    with r have "in_breach E i p'" using observe_mixed [OF _ _ nf] unfolding in_breach_def other by fastforce
    moreover have "one_alert i (dp_eval p) (dp_eval p')"
      using k by (intro one_alert_same) (simp_all add: other keeps_rule_def)
    ultimately show ?thesis using h' inv by (auto simp: alert_inv_def intro: one_alert_trans)
  qed simp
qed

text \<open>
  C11. Any number of workers may run the evaluator: as long as no database session is lost, at
  most one of them evaluates at a time, however their turns, the console and the deliveries
  interleave.  While a rule stays breached and nobody edits it, all workers together deliver at
  most one alert for it, none if it was already alerting, and exactly one if it was quiet and
  is alerting in the end.
\<close>

theorem workers_alert_once:
  assumes ready: "alerts_ready (evr_db s)"
    and before: "(deployment_step E interval False (keeps_rule i))\<^sup>*\<^sup>* (started s) p0" and breach: "in_breach E i p0"
    and during: "(deployment_step E interval False (keeps_breach E i))\<^sup>*\<^sup>* p0 p"
  shows "(\<forall>v w. active (dp_phase p v) \<longrightarrow> active (dp_phase p w) \<longrightarrow> v = w)
    \<and> delivered i (dp_eval p) + of_bool (alerting i (dp_eval p0)) = delivered i (dp_eval p0) + of_bool (alerting i (dp_eval p))
    \<and> (alerting i (dp_eval p0) \<longrightarrow> alerting i (dp_eval p))"
proof -
  have "one_holder i (started s)" using ready by (simp add: one_holder_def started_def)
  with holder.steps_inv [OF before] breach have "alert_inv E i (dp_eval p0) p0" by (simp add: alert_inv_def)
  from alert.steps_inv [OF during this] have "one_holder i p" "one_alert i (dp_eval p0) (dp_eval p)"
    by (simp_all add: alert_inv_def)
  then show ?thesis unfolding one_holder_def one_alert_def by (metis option.inject)
qed

section \<open>A lost session\<close>

lemma step_turn: "deployment_step E interval drops others p (Run_turn E interval w fault p)"
  by (rule deployment_step.turn)

text \<open>From the lock to the middle of a round.\<close>

lemma take_lock:
  assumes "dp_phase p w = Acquiring" "dp_lock p = None" "0 < interval" "alerts_ready (evr_db (dp_eval p))"
  shows "(deployment_step E interval drops others)\<^sup>*\<^sup>* p
    (goto w (InRound (metrics_at E (evr_db (dp_eval p))) (sort_key rule_created_at (alert_rules (tbl (evr_db (dp_eval p))))))
      (p\<lparr>dp_lock := Some w\<rparr>))" (is "?R\<^sup>*\<^sup>* p ?q")
proof -
  let ?T = "Run_turn E interval w None"
  have "faults (evr_db (dp_eval p)) = []" using assms by (simp add: alerts_ready_def)
  then have "?T (?T (?T p)) = ?q"
    using assms listed_fresh(1) [OF assms(4)] GetPlatformMetrics_ready [of "evr_db (dp_eval p)" E]
    by (simp add: Run_turn_def holdEvaluation_def HoldAlertEvaluation_def list_rules_def get_metrics_def goto_def)
  moreover have "?R\<^sup>*\<^sup>* p (?T (?T (?T p)))"
    by (rule rtranclp.rtrancl_into_rtrancl [OF rtranclp.rtrancl_into_rtrancl [OF r_into_rtranclp]]; rule step_turn)
  ultimately show ?thesis by simp
qed

text \<open>A worker that goes on with its round, whoever holds the lock.\<close>

lemma go_on:
  assumes "dp_phase p w = InRound m (as @ bs)"
  shows "(deployment_step E interval drops others)\<^sup>*\<^sup>* p
    (goto w (InRound m bs) (p\<lparr>dp_eval := fold (evaluate_rule E m) as (dp_eval p)\<rparr>))"
  using assms
proof (induction as arbitrary: p)
  case Nil
  then have "goto w (InRound m bs) (p\<lparr>dp_eval := dp_eval p\<rparr>) = p" by (simp add: goto_def fun_upd_idem)
  then show ?case by simp
next
  case (Cons a as)
  let ?p = "goto w (InRound m (as @ bs)) (p\<lparr>dp_eval := evaluate_rule E m a (dp_eval p)\<rparr>)"
  have "Run_turn E interval w None p = ?p" using Cons.prems by (simp add: Run_turn_def)
  then have "deployment_step E interval drops others p ?p" by (metis step_turn)
  with Cons.IH [of ?p] show ?case by (auto simp: goto_def intro: converse_rtranclp_into_rtranclp)
qed

text \<open>A round that was read before, on a database that has changed since only by such rounds.\<close>

lemma fold_stale:
  assumes "alerts_ready (evr_db s)"
    and "\<forall>q \<in> set qs. rule_id q \<noteq> i \<and> numeric (evr_db s) 10 2 (rule_threshold q) = Some (rule_threshold q)"
  shows "alerts_ready (evr_db (fold (evaluate_rule E m) qs s))
    \<and> alert_frame (evr_db s) (evr_db (fold (evaluate_rule E m) qs s))
    \<and> row i (evr_db (fold (evaluate_rule E m) qs s)) = row i (evr_db s)
    \<and> for_rule i (evr_attempts (fold (evaluate_rule E m) qs s)) = for_rule i (evr_attempts s)"
  using assms
proof (induction qs arbitrary: s)
  case Nil
  then show ?case by (simp add: alert_frame_refl)
next
  case (Cons q qs)
  let ?s = "evaluate_rule E m q s"
  have st: "ready_step (rule_id q) (evr_db s) (evr_db ?s)" and att: "for_rule i (evr_attempts ?s) = for_rule i (evr_attempts s)"
    using evaluate_rule_ready [OF Cons.prems(1), where r = q and E = E and m = m] Cons.prems(2) by auto
  then have "alerts_ready (evr_db ?s)" "numeric (evr_db ?s) = numeric (evr_db s)"
    "alert_frame (evr_db s) (evr_db ?s)" "row i (evr_db ?s) = row i (evr_db s)"
    using Cons.prems(2) by (auto simp: ready_step_def alert_frame_def)
  with Cons.IH [of ?s] Cons.prems att show ?case by (auto intro: alert_frame_trans)
qed

lemma quiet_send:
  assumes ready: "alerts_ready (evr_db s)" and num: "numeric (evr_db s) 10 2 (rule_threshold r) = Some (rule_threshold r)"
    and r: "rule_id r = i" "phase_of r = Quiet" "observe m (evr_db s) r = Breach v" and ok: "send_ok E r s v"
    and s': "s' = evaluate_rule E m r s"
  shows "delivered i s' = Suc (delivered i s) \<and> alerts_ready (evr_db s') \<and> alert_frame (evr_db s) (evr_db s')"
proof -
  have nf: "faults (evr_db s) = []" using ready by (simp add: alerts_ready_def)
  have "snd (currentValue r m (evr_db s)) = evr_db s" by (rule currentValue_ready [OF nf])
  then have "s' = send_alert E r v s"
    using r by (auto simp: s' evaluate_rule_def observe_def phase_of_def split: if_splits sum.splits option.splits prod.splits)
  then have "evr_attempts s' = evr_attempts s @ [made E r s v]" by (simp add: send_alert_eq(2) [OF nf])
  then have "delivered i s' = Suc (delivered i s)" using r(1) ok by (simp add: delivered_def for_rule_def at_result_made)
  moreover have "ready_step (rule_id r) (evr_db s) (evr_db s')" unfolding s' by (rule evaluate_rule_ready [OF ready num])
  ultimately show ?thesis by (simp add: ready_step_def)
qed

text \<open>A round up to a quiet, breached rule delivers its alert, however stale the rules were read.\<close>

lemma stale_round:
  assumes ready: "alerts_ready (evr_db s)" and s0: "alerts_ready (evr_db s0)" "alert_frame (evr_db s) (evr_db s0)"
    and rules: "rule_id r = i \<and> (\<forall>q \<in> set as. rule_id q \<noteq> i)
      \<and> (\<forall>q \<in> set (as @ [r]). numeric (evr_db s) 10 2 (rule_threshold q) = Some (rule_threshold q))"
    and quiet: "phase_of r = Quiet" and breach: "observe m (evr_db s) r = Breach v"
    and sends: "\<And>n d. alert_frame (evr_db s) d \<Longrightarrow> fst (fst (sendNotification E r v n d)) = Inr ()"
  shows "delivered i (evaluate_rule E m r (fold (evaluate_rule E m) as s0)) = Suc (delivered i s0)
    \<and> alerts_ready (evr_db (evaluate_rule E m r (fold (evaluate_rule E m) as s0)))
    \<and> alert_frame (evr_db s) (evr_db (evaluate_rule E m r (fold (evaluate_rule E m) as s0)))"
proof -
  let ?s1 = "fold (evaluate_rule E m) as s0"
  have "numeric (evr_db s0) = numeric (evr_db s)" using s0(2) by (auto simp: alert_frame_def)
  then have f: "alerts_ready (evr_db ?s1)" "alert_frame (evr_db s0) (evr_db ?s1)"
    "for_rule i (evr_attempts ?s1) = for_rule i (evr_attempts s0)"
    using fold_stale [OF s0(1), of as i E m] rules by auto
  then have fr: "alert_frame (evr_db s) (evr_db ?s1)" using s0(2) alert_frame_trans by blast
  then have num: "numeric (evr_db ?s1) 10 2 (rule_threshold r) = Some (rule_threshold r)"
    using rules by (auto simp: alert_frame_def)
  have obs: "observe m (evr_db ?s1) r = Breach v"
    using observe_frame [OF fr] ready breach by (simp add: alerts_ready_def)
  have "send_ok E r ?s1 v" using sends [OF fr] by (simp add: send_ok_def)
  from quiet_send [OF f(1) num conjunct1 [OF rules] quiet obs this refl] f(3) fr show ?thesis
    by (auto simp: delivered_def intro: alert_frame_trans)
qed

text \<open>
  C38. The lock ends with its database session, but the worker that held it goes on evaluating:
  for every breached rule that is quiet, and whose alert can be sent, there is a run in which
  two workers deliver the same alert, once each.
\<close>

theorem lost_session_alerts_twice:
  assumes ready: "alerts_ready (evr_db s)" and row: "row i (evr_db s) = Some r" and quiet: "phase_of r = Quiet"
    and breach: "observe (metrics_at E (evr_db s)) (evr_db s) r = Breach v" and interval: "0 < interval"
    and sends: "\<And>n d. alert_frame (evr_db s) d \<Longrightarrow> fst (fst (sendNotification E r v n d)) = Inr ()"
  shows "\<exists>p. (deployment_step E interval True (\<lambda>_ _. False))\<^sup>*\<^sup>* (started s) p \<and> delivered i (dp_eval p) = delivered i s + 2"
proof -
  let ?R = "(deployment_step E interval True (\<lambda>_ _. False))\<^sup>*\<^sup>*" and ?m = "metrics_at E (evr_db s)"
  obtain as bs where rs: "sort_key rule_created_at (alert_rules (tbl (evr_db s))) = as @ r # bs"
    and dist: "distinct (map rule_id (as @ r # bs))" and rows: "\<forall>q \<in> set (as @ r # bs). row (rule_id q) (evr_db s) = Some q"
    and i: "rule_id r = i" using sorted_rules_split [OF ready row] .
  have nums: "\<forall>q \<in> set (as @ r # bs). numeric (evr_db s) 10 2 (rule_threshold q) = Some (rule_threshold q)"
    using listed_fresh(2) [OF ready, of i] unfolding rs fresh_def by blast
  have as: "\<forall>q \<in> set as. rule_id q \<noteq> i" using dist i by (auto simp: image_iff)
  define p1 where "p1 = (goto 1 (InRound ?m (as @ r # bs)) ((started s)\<lparr>dp_lock := Some 1\<rparr>))\<lparr>dp_lock := None\<rparr>"
  define p2 where "p2 = goto 2 (InRound ?m (as @ r # bs)) (p1\<lparr>dp_lock := Some 2\<rparr>)"
  have "?R (started s) p1"
    using take_lock [of "started s" 1 interval E True "\<lambda>_ _. False"] ready interval rs unfolding p1_def
    by (auto simp: started_def intro: rtranclp.rtrancl_into_rtrancl deployment_step.session_lost)
  moreover have "?R p1 p2"
    using take_lock [of p1 2 interval E True "\<lambda>_ _. False"] ready interval rs unfolding p2_def
    by (simp add: p1_def started_def)
  ultimately have 2: "?R (started s) p2" by simp
  define half where "half s0 = evaluate_rule E ?m r (fold (evaluate_rule E ?m) as s0)" for s0
  have half: "delivered i (half s0) = Suc (delivered i s0) \<and> alerts_ready (evr_db (half s0)) \<and> alert_frame (evr_db s) (evr_db (half s0))"
    if "alerts_ready (evr_db s0)" "alert_frame (evr_db s) (evr_db s0)" for s0
    unfolding half_def using nums as i by (intro stale_round [OF ready that _ quiet breach sends]) auto
  have go: "?R p (goto w (InRound ?m bs) (p\<lparr>dp_eval := half (dp_eval p)\<rparr>))"
    if "dp_phase p w = InRound ?m (as @ r # bs)" for p w
    using go_on [of p w ?m "as @ [r]" bs E interval True "\<lambda>_ _. False"] that by (simp add: half_def)
  define p3 where "p3 = goto 1 (InRound ?m bs) (p2\<lparr>dp_eval := half s\<rparr>)"
  have e: "dp_eval p2 = s" by (simp add: p2_def p1_def started_def)
  have 3: "?R p2 p3" using go [of p2 1] e by (simp add: p3_def p2_def p1_def)
  have 4: "?R p3 (goto 2 (InRound ?m bs) (p3\<lparr>dp_eval := half (half s)\<rparr>))"
    using go [of p3 2] by (simp add: p3_def p2_def p1_def)
  have "delivered i (half (half s)) = delivered i s + 2"
    using half [OF ready alert_frame_refl] half [of "half s"] by simp
  with 2 3 4 show ?thesis by (intro exI [of _ "goto 2 (InRound ?m bs) (p3\<lparr>dp_eval := half (half s)\<rparr>)"]) simp
qed

section \<open>The interval\<close>

text \<open>
  C39. With an interval that is not positive no alert rule is ever evaluated: the worker that
  gets the lock panics in \<^verbatim>\<open>time.NewTicker\<close>, which ends the process, and the next worker takes its turn.
\<close>

theorem no_interval_no_alerts:
  assumes "Load getenv = Inr c" and i: "AlertEvalInterval c \<le> 0"
    and run: "(deployment_step (worker_alert_env base c enc net http) (AlertEvalInterval c) drops others)\<^sup>*\<^sup>* (started s) p"
  shows "evr_attempts (dp_eval p) = evr_attempts s \<and> dp_lock p = None
    \<and> (dp_phase p w = Acquiring \<longrightarrow>
         dp_phase (Run_turn (worker_alert_env base c enc net http) (AlertEvalInterval c) w None p) w = Panicked)"
proof -
  have "evr_attempts (dp_eval p) = evr_attempts s \<and> dp_lock p = None
    \<and> (\<forall>w. dp_phase p w \<in> {Acquiring, Returned, Panicked})"
    using run
  proof (induction rule: rtranclp_induct)
    case base
    then show ?case by (simp add: started_def)
  next
    case (step p p')
    from step.hyps(2) step.IH i show ?case
    proof cases
      case (turn w fault)
      have "dp_phase p w = Acquiring \<or> dp_phase p w = Returned \<or> dp_phase p w = Panicked" using step.IH by blast
      then show ?thesis
        using turn step.IH i
        by (elim disjE)
           (simp_all add: Run_turn_def holdEvaluation_def HoldAlertEvaluation_def release_evaluation_def split: option.splits)
    next
      case (cancel w)
      have "dp_phase p w = Acquiring \<or> dp_phase p w = Returned \<or> dp_phase p w = Panicked" using step.IH by blast
      then show ?thesis using cancel step.IH by (elim disjE) (simp_all add: Run_cancel_def)
    qed auto
  qed
  then show ?thesis using i by (auto simp: Run_turn_def holdEvaluation_def HoldAlertEvaluation_def)
qed

section \<open>An example\<close>

text \<open>The rule of the earlier example with templates of its own, and a Slack that answers.\<close>

definition demo_notice :: AlertRule where
  "demo_notice = demo_rule\<lparr>rule_subject_template := Some ''Backlog'', rule_body_template := Some ''Look''\<rparr>"

definition slack_up :: "nat \<Rightarrow> slack_post \<Rightarrow> slack_reply" where
  "slack_up n post = SlackReply 200 (''{'' @ [CHR 0x22] @ ''ok'' @ [CHR 0x22] @ '':true}'') None (ErrText [])"

definition demo_notice_env :: alert_env where
  "demo_notice_env = demo_alert_env\<lparr>al_slack := Some slack_up\<rparr>"

definition demo_notice_db :: db where
  "demo_notice_db = set_tbl (\<lambda>t. t\<lparr>alert_rules := [demo_notice]\<rparr>) demo_alert_db"

definition demo_start :: evaluator where
  "demo_start = \<lparr>evr_db = demo_notice_db, evr_attempts = []\<rparr>"

lemma slack_up_posts: "fst (PostDM (slack_up n) ''xoxb-1'' ''U12345678'' (DMText ''Backlog'' ''Look'')) = Inr ()"
proof -
  have "ValidSlackUserID ''U12345678''" "trim_space (DMText ''Backlog'' ''Look'') \<noteq> []" by code_simp+
  moreover have "Unmarshal slack_fields \<lparr>out_ok = False, out_error = []\<rparr> (''{'' @ [CHR 0x22] @ ''ok'' @ [CHR 0x22] @ '':true}'')
      = Some \<lparr>out_ok = True, out_error = []\<rparr>" by code_simp
  ultimately show ?thesis by (simp add: PostDM_def Let_def slack_up_def read_limited_def)
qed

lemma demo_settings:
  "case fst (Load_settings (al_enc demo_notice_env) (al_cfg demo_notice_env) demo_notice_db) of
     Inl _ \<Rightarrow> False | Inr eff \<Rightarrow> eff_slack_token eff = ''xoxb-1''"
  by code_simp

lemma demo_notice_sends:
  assumes "alert_frame demo_notice_db d"
  shows "fst (fst (sendNotification demo_notice_env demo_notice 1 n d)) = Inr ()"
proof -
  define req where "req = projr (alertRequest demo_notice_env demo_notice 1)"
  have 1: "alertRequest demo_notice_env demo_notice 1 = Inr req" "RenderRequest (al_render demo_notice_env) req = Inr (''Backlog'', ''Look'')"
    unfolding req_def by code_simp+
  have 2: "rule_notification_type demo_notice = ''slack_dm''" "rule_notification_dest demo_notice = ''U12345678''"
    "al_slack demo_notice_env = Some slack_up"
    by (simp_all add: demo_notice_def demo_rule_def demo_notice_env_def)
  have "GetNotificationSettings d = (fst (GetNotificationSettings demo_notice_db), d)"
    using assms by (auto simp: alert_frame_def GetNotificationSettings_def select_def demo_notice_db_def demo_alert_db_def)
  then have "\<exists>eff. Load_settings (al_enc demo_notice_env) (al_cfg demo_notice_env) d = (Inr eff, d) \<and> eff_slack_token eff = ''xoxb-1''"
    using demo_settings by (auto simp: Load_settings_def split: sum.splits prod.splits)
  then show ?thesis
    using 1 2 slack_up_posts [of n] by (auto simp: sendNotification_def resolving_PostDM_def split: prod.splits)
qed

lemma demo_start_facts:
  "alerts_ready (evr_db demo_start)" "row 1 (evr_db demo_start) = Some demo_notice" "phase_of demo_notice = Quiet"
  "observe (metrics_at demo_notice_env (evr_db demo_start)) (evr_db demo_start) demo_notice = Breach 1"
  "delivered 1 demo_start = 0" "\<not> alerting 1 demo_start"
proof -
  show "alerts_ready (evr_db demo_start)"
    by (simp add: alerts_ready_def demo_start_def demo_notice_db_def demo_notice_def demo_alert_db_def wf_alerts_def empty_tables_def keys_def
        alert_rule_check_def demo_rule_def opt_ok_def text_ok_def utf8_valid_ascii)
  show r: "row 1 (evr_db demo_start) = Some demo_notice" "phase_of demo_notice = Quiet"
    by (simp_all add: row_def demo_start_def demo_notice_db_def demo_alert_db_def find_by_Cons demo_notice_def demo_rule_def phase_of_def)
  show "observe (metrics_at demo_notice_env (evr_db demo_start)) (evr_db demo_start) demo_notice = Breach 1"
    by code_simp
  show "delivered 1 demo_start = 0" "\<not> alerting 1 demo_start"
    using r by (simp_all add: delivered_def for_rule_def demo_start_def alerting_def)
qed

theorem lost_session_alerts_twice_witness:
  "\<exists>p. (deployment_step demo_notice_env 60 True (\<lambda>_ _. False))\<^sup>*\<^sup>* (started demo_start) p \<and> delivered 1 (dp_eval p) = 2"
  using lost_session_alerts_twice [OF demo_start_facts(1-4), of 60] demo_notice_sends demo_start_facts(5)
  by (simp add: demo_start_def numeral_2_eq_2)

theorem workers_alert_once_witness:
  "\<exists>p. (deployment_step demo_notice_env 60 False (keeps_breach demo_notice_env 1))\<^sup>*\<^sup>* (started demo_start) p
     \<and> delivered 1 (dp_eval p) = 1 \<and> alerting 1 (dp_eval p)"
proof -
  let ?R = "deployment_step demo_notice_env 60 False (keeps_breach demo_notice_env 1)"
  let ?m = "metrics_at demo_notice_env (evr_db demo_start)"
  let ?p = "goto 1 (InRound ?m [demo_notice]) ((started demo_start)\<lparr>dp_lock := Some 1\<rparr>)"
  let ?q = "goto 1 (InRound ?m []) (?p\<lparr>dp_eval := evaluate_rule demo_notice_env ?m demo_notice demo_start\<rparr>)"
  have "?R\<^sup>*\<^sup>* (started demo_start) ?p"
    using take_lock [of "started demo_start" 1 60 demo_notice_env False "keeps_breach demo_notice_env 1"] demo_start_facts(1)
    by (simp add: started_def demo_start_def demo_notice_db_def)
  also have "?R\<^sup>*\<^sup>* ?p ?q"
    using go_on [of ?p 1 ?m "[demo_notice]" "[]" demo_notice_env 60 False "keeps_breach demo_notice_env 1"]
    by (simp add: started_def)
  finally have run: "?R\<^sup>*\<^sup>* (started demo_start) ?q" .
  have start: "dp_eval (started demo_start) = demo_start" by (simp add: started_def)
  have "in_breach demo_notice_env 1 (started demo_start)"
    using demo_start_facts(2,4) by (auto simp: in_breach_def started_def breaches_def)
  from workers_alert_once [OF demo_start_facts(1) rtranclp.rtrancl_refl this run, THEN conjunct2, THEN conjunct1]
  have one: "delivered 1 (dp_eval ?q) = of_bool (alerting 1 (dp_eval ?q))"
    unfolding start demo_start_facts(5) using demo_start_facts(6) by (simp only: of_bool_eq(1) add_0 add_0_right simp_thms if_False)
  have "send_ok demo_notice_env demo_notice demo_start 1"
    using demo_notice_sends [OF alert_frame_refl] by (simp add: send_ok_def demo_start_def)
  moreover have "rule_id demo_notice = 1" "numeric (evr_db demo_start) 10 2 (rule_threshold demo_notice) = Some (rule_threshold demo_notice)"
    by (simp_all add: demo_notice_def demo_rule_def demo_start_def demo_notice_db_def demo_alert_db_def)
  ultimately have "delivered 1 (dp_eval ?q) = 1"
    using quiet_send [OF demo_start_facts(1) _ _ demo_start_facts(3,4) _ refl, of 1] demo_start_facts(5) by simp
  with one have "delivered 1 (dp_eval ?q) = 1 \<and> alerting 1 (dp_eval ?q)" by (metis of_bool_eq_1_iff)
  with run show ?thesis by blast
qed

text \<open>An interval with a unit does not parse and is taken as zero.\<close>

definition unit_getenv :: "string \<Rightarrow> string" where
  "unit_getenv k =
     (if k = ''TUMA_ENCRYPTION_KEY'' then replicate 32 (CHR ''k'')
      else if k = ''TUMA_ALERT_EVAL_INTERVAL_SECONDS'' then ''1m'' else [])"

lemma unit_interval: "\<exists>c. Load unit_getenv = Inr c \<and> AlertEvalInterval c = 0"
proof -
  have "atoi ''1m'' = 0" by (simp add: parse_int64_def has_prefix_def parse_uint64_def)
  then show ?thesis by (simp add: Load_def Let_def env_or_def unit_getenv_def wrap64_def)
qed

theorem no_interval_no_alerts_witness:
  "\<exists>c. Load unit_getenv = Inr c
     \<and> dp_phase (Run_turn (worker_alert_env demo_alert_env c \<lparr>gcm_key = EncryptionKey c\<rparr> (\<lambda>_. demo_net) slack_up)
         (AlertEvalInterval c) 1 None (started demo_start)) 1 = Panicked"
proof -
  obtain c where c: "Load unit_getenv = Inr c" "AlertEvalInterval c = 0" using unit_interval by blast
  let ?E = "worker_alert_env demo_alert_env c \<lparr>gcm_key = EncryptionKey c\<rparr> (\<lambda>_. demo_net) slack_up"
  have "(deployment_step ?E (AlertEvalInterval c) False (\<lambda>_ _. False))\<^sup>*\<^sup>* (started demo_start) (started demo_start)" by simp
  from no_interval_no_alerts [OF c(1) _ this, of 1] c show ?thesis by (auto simp: started_def)
qed

end
