(* ===== verification/Lifecycle.thy ===== *)
theory Lifecycle
  imports System
begin

text \<open>
  The API process from the moment it serves to its end (\<^verbatim>\<open>cmd/tuma/main.go\<close>: \<^verbatim>\<open>runAPI\<close>,
  \<^verbatim>\<open>loggingMiddleware\<close>, \<^verbatim>\<open>waitShutdown\<close>, \<^verbatim>\<open>runRetentionLoop\<close>; \<^verbatim>\<open>playgroundGC\<close> of \<^verbatim>\<open>internal/api/playground.go\<close>).
  Requests overlap in time: each is accepted, its handler does its work, and it returns.
  As documented, \<^verbatim>\<open>http.Server.Shutdown\<close> closes the listener, so that no request is accepted any more, and waits
  for the open requests, no longer than its context lasts.  After it the calls that \<^verbatim>\<open>main\<close> deferred
  run: \<^verbatim>\<open>temporalClient.Close\<close>, and \<^verbatim>\<open>pool.Close\<close>, which gives out no connection any more and, as
  documented, returns when every connection has been given back.
\<close>

section \<open>The process\<close>

record log_entry =
  le_method :: string
  le_path :: "string list"
  le_duration_ms :: int

record open_request =
  or_id :: nat
  or_request :: http_request
  or_start :: time
  or_reply :: "answer reply option"

record done_request =
  dr_id :: nat
  dr_request :: http_request
  dr_start :: time
  dr_end :: time
  dr_reply :: "answer reply"

datatype api_phase = Listening | Draining time | Closing | Exited int

text \<open>Who can hold a connection of the pool: the handler of a request, and the two loops.\<close>

datatype holder = Handler nat | Retention | Collector

record api_process =
  ap_app :: app
  ap_now :: time
  ap_phase :: api_phase
  ap_open :: "open_request list"
  ap_held :: "holder list"
  ap_done :: "done_request list"
  ap_log :: "log_entry list"
  ap_purge_at :: time
  ap_gc_at :: time

datatype api_event =
    Accept nat http_request
  | Work nat choices
  | Return nat
  | Signal
  | ListenFails
  | ShutdownReturns
  | PoolClosed
  | Borrow holder
  | GiveBack holder
  | PurgeTick
  | GcTick
  | Wait nat
  | DatabaseChanges db

text \<open>\<^verbatim>\<open>loggingMiddleware\<close>: the record of a request whose handler returned.\<close>

definition loggingMiddleware :: "http_request \<Rightarrow> time \<Rightarrow> time \<Rightarrow> log_entry" where
  "loggingMiddleware q start now =
     \<lparr>le_method = hr_method q, le_path = hr_path q, le_duration_ms = (now - start) div (Second div 1000)\<rparr>"

text \<open>When a ticker that is due fires next: ticks that nobody waited for are dropped.\<close>

definition next_tick :: "time \<Rightarrow> time \<Rightarrow> time \<Rightarrow> time" where
  "next_tick period due now = due + period * ((now - due) div period + 1)"

text \<open>\<^verbatim>\<open>runRetentionLoop\<close>: a round at once and then every hour.\<close>

definition runRetentionLoop :: "api_process \<Rightarrow> api_process" where
  "runRetentionLoop p =
     (if ap_purge_at p \<le> ap_now p
      then p\<lparr>ap_app := set_adb (runRetention (adb (ap_app p))) (ap_app p), ap_purge_at := next_tick Hour (ap_purge_at p) (ap_now p)\<rparr>
      else p)"

text \<open>\<^verbatim>\<open>initPlayground\<close> starts the collector in demo mode only.\<close>

definition gc_loop :: "api_env \<Rightarrow> api_process \<Rightarrow> api_process" where
  "gc_loop A p =
     (if DemoMode (cfg (core_env A)) \<and> ap_gc_at p \<le> ap_now p
      then p\<lparr>ap_app := set_adb (playgroundGC (core_env A) (ap_now p) (adb (ap_app p))) (ap_app p),
             ap_gc_at := next_tick (15 * Minute) (ap_gc_at p) (ap_now p)\<rparr>
      else p)"

definition used :: "api_process \<Rightarrow> nat set" where
  "used p = or_id ` set (ap_open p) \<union> dr_id ` set (ap_done p)"

text \<open>The handler of an open request does its work.\<close>

definition work :: "api_env \<Rightarrow> nat \<Rightarrow> choices \<Rightarrow> api_process \<Rightarrow> api_process" where
  "work A i ch p =
     (case find_by or_id i (ap_open p) of
        Some x \<Rightarrow>
          if or_reply x = None
          then (case handle A ch (or_request x) (ap_app p) of
                  (r, s) \<Rightarrow> p\<lparr>ap_app := s, ap_open := update_by or_id i (\<lambda>x. x\<lparr>or_reply := Some r\<rparr>) (ap_open p)\<rparr>)
          else p
      | None \<Rightarrow> p)"

text \<open>A handler gives its connections back before it returns.\<close>

definition return_request :: "nat \<Rightarrow> api_process \<Rightarrow> api_process" where
  "return_request i p =
     (case find_by or_id i (ap_open p) of
        Some x \<Rightarrow>
          (case or_reply x of
             Some r \<Rightarrow>
               if Handler i \<in> set (ap_held p) then p
               else p\<lparr>ap_open := filter (\<lambda>x. or_id x \<noteq> i) (ap_open p),
                 ap_done := ap_done p @ [\<lparr>dr_id = i, dr_request = or_request x, dr_start = or_start x, dr_end = ap_now p, dr_reply = r\<rparr>],
                 ap_log := ap_log p @ [loggingMiddleware (or_request x) (or_start x) (ap_now p)]\<rparr>
           | None \<Rightarrow> p)
      | None \<Rightarrow> p)"

text \<open>A holder takes a connection out of the pool while it is open, a handler only while its request is.\<close>

definition borrow :: "holder \<Rightarrow> api_process \<Rightarrow> api_process" where
  "borrow h p =
     (if ap_phase p \<noteq> Closing \<and> (case h of Handler i \<Rightarrow> i \<in> or_id ` set (ap_open p) | _ \<Rightarrow> True)
      then p\<lparr>ap_held := h # ap_held p\<rparr> else p)"

text \<open>\<^verbatim>\<open>waitShutdown\<close>: the signal, and the return of \<^verbatim>\<open>Shutdown\<close>.\<close>

definition waitShutdown :: "api_process \<Rightarrow> api_process" where
  "waitShutdown p = (case ap_phase p of Listening \<Rightarrow> p\<lparr>ap_phase := Draining (ap_now p + 10 * Second)\<rparr> | _ \<Rightarrow> p)"

definition shutdown_returns :: "api_process \<Rightarrow> api_process" where
  "shutdown_returns p =
     (case ap_phase p of
        Draining deadline \<Rightarrow> if ap_open p = [] \<or> deadline \<le> ap_now p then p\<lparr>ap_phase := Closing\<rparr> else p
      | _ \<Rightarrow> p)"

text \<open>The end of \<^verbatim>\<open>main\<close>: \<^verbatim>\<open>pool.Close\<close> has returned.\<close>

definition pool_closed :: "api_process \<Rightarrow> api_process" where
  "pool_closed p = (if ap_phase p = Closing \<and> ap_held p = [] then p\<lparr>ap_phase := Exited 0\<rparr> else p)"

fun api_run :: "api_env \<Rightarrow> api_event \<Rightarrow> api_process \<Rightarrow> api_process" where
  "api_run A e p =
     (case ap_phase p of
        Exited _ \<Rightarrow> p
      | phase \<Rightarrow>
          (case e of
             Accept i q \<Rightarrow>
               if phase = Listening \<and> i \<notin> used p
               then p\<lparr>ap_open := ap_open p @ [\<lparr>or_id = i, or_request = q, or_start = ap_now p, or_reply = None\<rparr>]\<rparr> else p
           | Work i ch \<Rightarrow> work A i ch p
           | Return i \<Rightarrow> return_request i p
           | Signal \<Rightarrow> waitShutdown p
           | ListenFails \<Rightarrow> if phase = Listening then p\<lparr>ap_phase := Exited 1\<rparr> else p
           | ShutdownReturns \<Rightarrow> shutdown_returns p
           | PoolClosed \<Rightarrow> pool_closed p
           | Borrow h \<Rightarrow> borrow h p
           | GiveBack h \<Rightarrow> p\<lparr>ap_held := remove1 h (ap_held p)\<rparr>
           | PurgeTick \<Rightarrow> runRetentionLoop p
           | GcTick \<Rightarrow> gc_loop A p
           | Wait n \<Rightarrow> p\<lparr>ap_now := ap_now p + int n\<rparr>
           | DatabaseChanges d \<Rightarrow> p\<lparr>ap_app := set_adb d (ap_app p)\<rparr>))"

definition serving :: "app \<Rightarrow> time \<Rightarrow> api_process" where
  "serving s now =
     \<lparr>ap_app = s, ap_now = now, ap_phase = Listening, ap_open = [], ap_held = [], ap_done = [], ap_log = [],
      ap_purge_at = now, ap_gc_at = now + 15 * Minute\<rparr>"

section \<open>What is kept\<close>

lemma or_id_update [simp]: "map or_id (update_by or_id i (\<lambda>x. x\<lparr>or_reply := r\<rparr>) xs) = map or_id xs"
  by (induction xs) (auto simp: update_by_def)

lemma work_frame [simp]:
  "ap_now (work A i ch p) = ap_now p" "ap_phase (work A i ch p) = ap_phase p" "ap_done (work A i ch p) = ap_done p"
  "ap_log (work A i ch p) = ap_log p" "ap_held (work A i ch p) = ap_held p" "map or_id (ap_open (work A i ch p)) = map or_id (ap_open p)"
  by (auto simp: work_def split: option.splits prod.splits)

lemma work_open [simp]:
  "or_id ` set (ap_open (work A i ch p)) = or_id ` set (ap_open p)" "ap_open (work A i ch p) = [] \<longleftrightarrow> ap_open p = []"
  by (metis list.set_map work_frame(6), metis map_is_Nil_conv work_frame(6))

lemma loop_frame [simp]:
  "ap_now (runRetentionLoop p) = ap_now p" "ap_phase (runRetentionLoop p) = ap_phase p"
  "ap_open (runRetentionLoop p) = ap_open p" "ap_done (runRetentionLoop p) = ap_done p" "ap_log (runRetentionLoop p) = ap_log p"
  "ap_now (gc_loop A p) = ap_now p" "ap_phase (gc_loop A p) = ap_phase p"
  "ap_held (runRetentionLoop p) = ap_held p" "ap_held (gc_loop A p) = ap_held p"
  "ap_open (gc_loop A p) = ap_open p" "ap_done (gc_loop A p) = ap_done p" "ap_log (gc_loop A p) = ap_log p"
  by (simp_all add: runRetentionLoop_def gc_loop_def)

lemma return_frame [simp]:
  "ap_now (return_request i p) = ap_now p" "ap_phase (return_request i p) = ap_phase p" "ap_held (return_request i p) = ap_held p"
  "used (return_request i p) = used p"
proof -
  show "ap_now (return_request i p) = ap_now p" "ap_phase (return_request i p) = ap_phase p" "ap_held (return_request i p) = ap_held p"
    by (auto simp: return_request_def split: option.splits)
  have "or_id x = i \<and> x \<in> set (ap_open p)" if "find_by or_id i (ap_open p) = Some x" for x using that by (auto dest: find_by_SomeD)
  then show "used (return_request i p) = used p"
    by (force simp: return_request_def used_def split: option.splits)
qed

lemma return_open: "ap_open p = [] \<Longrightarrow> return_request i p = p"
  by (simp add: return_request_def)

text \<open>The log has one entry for every request that returned, in that order.\<close>

definition logged :: "api_process \<Rightarrow> bool" where
  "logged p \<longleftrightarrow> ap_log p = map (\<lambda>r. loggingMiddleware (dr_request r) (dr_start r) (dr_end r)) (ap_done p)"

lemma return_logged: "logged p \<Longrightarrow> logged (return_request i p)"
  by (auto simp: logged_def return_request_def split: option.splits)

lemmas phase_defs = waitShutdown_def shutdown_returns_def pool_closed_def borrow_def

interpretation request_log: inv_machine "api_run A" logged for A
proof unfold_locales
  fix p e
  assume "logged p"
  with return_logged [OF this] show "logged (api_run A e p)"
    by (cases e; cases "ap_phase p") (simp_all add: logged_def phase_defs)
qed

text \<open>After the signal at time \<open>t\<close>, when the requests of \<open>ids\<close> had been accepted.\<close>

definition drains :: "time \<Rightarrow> nat set \<Rightarrow> api_process \<Rightarrow> bool" where
  "drains t ids p \<longleftrightarrow> used p = ids
     \<and> (ap_phase p = Draining (t + 10 * Second)
        \<or> (ap_phase p = Closing \<or> ap_phase p = Exited 0 \<and> ap_held p = []) \<and> (ap_open p = [] \<or> t + 10 * Second \<le> ap_now p))"

interpretation shutdown: inv_machine "api_run A" "drains t ids" for A t ids
proof unfold_locales
  fix p e
  assume "drains t ids p"
  then show "drains t ids (api_run A e p)"
    using return_frame(4) by (cases e; cases "ap_phase p") (auto simp: drains_def used_def phase_defs return_open)
qed

text \<open>A process that was told to stop does not end before \<open>h\<close> has given its connection back.\<close>

lemma held_keeps_alive:
  assumes "h \<in> set (ap_held p)" "ap_phase p = Draining t \<or> ap_phase p = Closing" "GiveBack h \<notin> set es"
  shows "\<forall>code. ap_phase (fold (api_run A) es p) \<noteq> Exited code"
  using assms
proof (induction es arbitrary: p)
  case (Cons e es)
  have "h \<in> set (ap_held (api_run A e p)) \<and> (ap_phase (api_run A e p) = Draining t \<or> ap_phase (api_run A e p) = Closing)"
    using Cons.prems by (cases e; cases "ap_phase p") (auto simp: phase_defs)
  with Cons.IH [of "api_run A e p"] Cons.prems(3) show ?case by simp
qed auto

section \<open>Shutdown\<close>

text \<open>
  C23. A process that was told to stop lets the requests it has accepted finish for ten seconds.  It
  ends with status 0, and when it has ended, every connection of the pool was given back, and
  either every accepted request was answered or ten seconds had passed.  After the ten seconds
  the listener is shut down whatever the handlers do; the process then ends as soon as no
  connection is held, and not before: a handler that keeps a connection keeps it alive.  At every
  moment the log has exactly one entry for each request that returned, in that order, with its
  method, path and duration.
\<close>

theorem graceful_shutdown:
  assumes p0: "p0 = fold (api_run A) es0 (serving s t0)" "ap_phase p0 = Listening"
    and p: "p = fold (api_run A) es (api_run A Signal p0)"
  shows "used p = used p0
    \<and> (\<forall>code. ap_phase p = Exited code \<longrightarrow>
         code = 0 \<and> ap_held p = [] \<and> (dr_id ` set (ap_done p) = used p0 \<or> ap_now p0 + 10 * Second \<le> ap_now p))
    \<and> (ap_now p0 + 10 * Second \<le> ap_now p \<longrightarrow>
         ap_phase (api_run A ShutdownReturns p) = (if ap_phase p = Exited 0 then Exited 0 else Closing)
         \<and> (ap_held p = [] \<longrightarrow> ap_phase (fold (api_run A) [ShutdownReturns, PoolClosed] p) = Exited 0)
         \<and> (\<forall>h \<in> set (ap_held p). \<forall>es'. GiveBack h \<notin> set es' \<longrightarrow> (\<forall>code. ap_phase (fold (api_run A) es' p) \<noteq> Exited code)))
    \<and> ap_log p = map (\<lambda>r. loggingMiddleware (dr_request r) (dr_start r) (dr_end r)) (ap_done p)"
proof -
  have "drains (ap_now p0) (used p0) (api_run A Signal p0)"
    using p0(2) by (simp add: drains_def waitShutdown_def used_def)
  then have d: "drains (ap_now p0) (used p0) p" unfolding p by (rule shutdown.run_inv)
  have "logged (serving s t0)" by (simp add: logged_def serving_def)
  then have "logged p0" unfolding p0 by (rule request_log.run_inv)
  then have "logged p" unfolding p by (intro request_log.run_inv request_log.step_inv)
  then have l: "ap_log p = map (\<lambda>r. loggingMiddleware (dr_request r) (dr_start r) (dr_end r)) (ap_done p)" by (simp add: logged_def)
  have o: "ap_open p = [] \<Longrightarrow> dr_id ` set (ap_done p) = used p" by (simp add: used_def)
  have r: "ap_phase (api_run A ShutdownReturns p) = (if ap_phase p = Exited 0 then Exited 0 else Closing)"
    "ap_held p = [] \<Longrightarrow> ap_phase (fold (api_run A) [ShutdownReturns, PoolClosed] p) = Exited 0"
    if "ap_now p0 + 10 * Second \<le> ap_now p"
    using d that by (auto simp: drains_def phase_defs)
  have "code = 0 \<and> ap_held p = [] \<and> (dr_id ` set (ap_done p) = used p0 \<or> ap_now p0 + 10 * Second \<le> ap_now p)"
    if "ap_phase p = Exited code" for code
    using d that o by (auto simp: drains_def)
  moreover have "ap_phase (fold (api_run A) es' p) \<noteq> Exited code" if "h \<in> set (ap_held p)" "GiveBack h \<notin> set es'" for h es' code
    using held_keeps_alive [OF that(1) _ that(2), of "ap_now p0 + 10 * Second" A] d that(1) by (auto simp: drains_def)
  moreover have "used p = used p0" using d by (simp add: drains_def)
  ultimately show ?thesis using l r by blast
qed

text \<open>A request that hangs: the process ends once its connection has been given back, and not before.\<close>

definition demo_hanging :: api_process where
  "demo_hanging = fold (api_run demo_api) [Wait 10000000000]
     (api_run demo_api Signal (fold (api_run demo_api) [Accept 1 demo_webhook, Borrow (Handler 1)] (serving demo_app 0)))"

theorem graceful_shutdown_witness:
  "ap_held demo_hanging = [Handler 1]
   \<and> ap_phase (fold (api_run demo_api) [ShutdownReturns, PoolClosed] demo_hanging) \<noteq> Exited 0
   \<and> ap_phase (fold (api_run demo_api) [ShutdownReturns, PoolClosed] (api_run demo_api (GiveBack (Handler 1)) demo_hanging)) = Exited 0"
proof -
  define p0 where "p0 = fold (api_run demo_api) [Accept 1 demo_webhook, Borrow (Handler 1)] (serving demo_app 0)"
  have p0: "ap_phase p0 = Listening" "ap_now p0 = 0" "ap_held p0 = [Handler 1]"
    by (simp_all add: p0_def serving_def used_def borrow_def)
  have h: "demo_hanging = fold (api_run demo_api) [Wait 10000000000] (api_run demo_api Signal p0)"
    by (simp only: demo_hanging_def p0_def)
  have n: "ap_now demo_hanging = 10 * Second" "ap_held demo_hanging = [Handler 1]" using p0 by (simp_all add: h waitShutdown_def)
  have g: "api_run demo_api (GiveBack (Handler 1)) demo_hanging = fold (api_run demo_api) [Wait 10000000000, GiveBack (Handler 1)] (api_run demo_api Signal p0)"
    by (simp only: h fold.simps o_def id_def)
  have "ap_now (api_run demo_api (GiveBack (Handler 1)) demo_hanging) = 10 * Second" "ap_held (api_run demo_api (GiveBack (Handler 1)) demo_hanging) = []"
    using p0 by (simp_all add: h waitShutdown_def)
  then have "ap_phase (fold (api_run demo_api) [ShutdownReturns, PoolClosed] (api_run demo_api (GiveBack (Handler 1)) demo_hanging)) = Exited 0"
    using graceful_shutdown [OF p0_def p0(1) g] p0(2) by (simp only: simp_thms order.refl add_0)
  moreover have "ap_phase (fold (api_run demo_api) [ShutdownReturns, PoolClosed] demo_hanging) \<noteq> Exited 0"
    using graceful_shutdown [OF p0_def p0(1) h] n p0(2) by (metis api_event.distinct add_0 empty_iff empty_set order.refl set_ConsD list.set_intros(1))
  ultimately show ?thesis using n(2) by blast
qed

section \<open>Retention\<close>

text \<open>The identity, the connection and the age of a stored event.\<close>

definition stored :: "event_row \<Rightarrow> event_row list \<Rightarrow> bool" where
  "stored r evs \<longleftrightarrow>
     (\<exists>q \<in> set evs. erow_id q = erow_id r \<and> erow_connection_id q = erow_connection_id r \<and> erow_received_at q = erow_received_at r)"

lemma stored_update: "stored r evs \<Longrightarrow> stored r (update_by erow_id j (\<lambda>q. q\<lparr>erow_workflow_id := w\<rparr>) evs)"
proof -
  assume "stored r evs"
  then obtain q where q: "q \<in> set evs" "erow_id q = erow_id r" "erow_connection_id q = erow_connection_id r"
    "erow_received_at q = erow_received_at r" by (auto simp: stored_def)
  let ?q = "if erow_id q = j then q\<lparr>erow_workflow_id := w\<rparr> else q"
  have "?q \<in> set (update_by erow_id j (\<lambda>q. q\<lparr>erow_workflow_id := w\<rparr>) evs)" using q(1) by (auto simp: update_by_def)
  with q(2-4) show ?thesis unfolding stored_def by (intro bexI [of _ ?q]) auto
qed

interpretation stays: events_invariant enc "stored r" for enc r
proof unfold_locales
  show "preserves (\<lambda>t. stored r (events t)) (InsertEvent enc rs ev)" for rs ev
    by (rule InsertEvent_seals, unfold insert_event_stmt_def, rule preserves_pool)
       (auto simp: Let_def split_beta stored_def)
  show "preserves (\<lambda>t. stored r (events t)) (SetEventWorkflowID j w)" for j w
    unfolding SetEventWorkflowID_def by (rule preserves_pool) (simp add: stored_update)
qed

abbreviation sdb :: "system \<Rightarrow> db" where
  "sdb s \<equiv> adb (sys_app s)"

lemma expired_cong:
  "erow_connection_id q = erow_connection_id r \<Longrightarrow> erow_received_at q = erow_received_at r \<Longrightarrow> expired now t q = expired now t r"
  by (simp add: expired_def cong: option.case_cong)

lemma purge_keeps:
  assumes "stored r (events (tbl d))" and "\<not> expired (db_now d) (tbl d) r"
  shows "stored r (events (tbl (runRetention d)))"
proof -
  obtain q where q: "q \<in> set (events (tbl d))" "erow_id q = erow_id r" "erow_connection_id q = erow_connection_id r"
    "erow_received_at q = erow_received_at r" using assms(1) by (auto simp: stored_def)
  with assms(2) have "\<not> expired (db_now d) (tbl d) q" using expired_cong [OF q(3,4)] by simp
  with q show ?thesis
    by (auto simp: runRetention_def PurgeExpiredEvents_def pool_def stored_def delete_events_def Let_def
        split: list.splits fault.splits)
qed

text \<open>
  C20. Only retention removes events: whatever requests, deliveries, evaluations and failures
  happen, an event that was stored stays stored with its connection and its time, unless a round
  of the retention loop ran when it was older than the retention of its connection.  A round
  whose statement runs leaves no such event, and none of their deliveries and issues.
\<close>

theorem retention_exact:
  assumes "app_inv (tbl (sdb s))" and "r \<in> set (events (tbl (sdb s)))" and "u = fold (sys_run S) xs s"
    and "\<forall>ys zs. xs = ys @ Purge # zs \<longrightarrow>
      \<not> expired (db_now (sdb (fold (sys_run S) ys s))) (tbl (sdb (fold (sys_run S) ys s))) r"
  shows "stored r (events (tbl (sdb u)))
    \<and> (faults (sdb u) = [] \<longrightarrow>
        (\<forall>q. q \<in> set (events (tbl (sdb (sys_run S Purge u)))) \<longleftrightarrow>
           q \<in> set (events (tbl (sdb u))) \<and> \<not> expired (db_now (sdb u)) (tbl (sdb u)) q)
        \<and> del_event_id ` set (deliveries (tbl (sdb (sys_run S Purge u)))) \<subseteq> erow_id ` set (events (tbl (sdb (sys_run S Purge u))))
        \<and> iss_event_id ` set (issues (tbl (sdb (sys_run S Purge u)))) \<subseteq> erow_id ` set (events (tbl (sdb (sys_run S Purge u)))))"
proof -
  have "app_inv (tbl (sdb u)) \<and> stored r (events (tbl (sdb u)))"
    unfolding assms(3) using assms(4)
  proof (induction xs rule: rev_induct)
    case Nil
    then show ?case using assms(1,2) by (auto simp: stored_def)
  next
    case (snoc x xs)
    then have IH: "app_inv (tbl (sdb (fold (sys_run S) xs s)))" "stored r (events (tbl (sdb (fold (sys_run S) xs s))))"
      by (metis append.assoc append_Cons)+
    have "stored r (events (tbl (sdb (sys_run S x (fold (sys_run S) xs s)))))"
    proof (cases "x = Purge")
      case True
      with snoc.prems have "\<not> expired (db_now (sdb (fold (sys_run S) xs s))) (tbl (sdb (fold (sys_run S) xs s))) r" by blast
      with purge_keeps [OF IH(2)] True show ?thesis by simp
    next
      case False
      then show ?thesis by (rule stays.sys_run_events [OF refl IH])
    qed
    with sys_run_inv [OF IH(1)] show ?case by simp
  qed
  then show ?thesis
    by (auto simp: runRetention_def PurgeExpiredEvents_def pool_def delete_events_def Let_def keys_def)
qed

theorem retention_exact_witness:
  "stored demo_event (events (tbl (sdb (fold (sys_run demo_senv_all) [Meanwhile 9 [], Purge]
      \<lparr>sys_app = set_adb demo_db demo_app, sys_worker = demo_worker, sys_attempts = []\<rparr>))))"
proof -
  let ?s = "\<lparr>sys_app = set_adb demo_db demo_app, sys_worker = demo_worker, sys_attempts = []\<rparr>"
  have "\<not> expired 9 (tbl demo_db) demo_event" by (simp add: expired_def demo_event_def demo_db_def demo_connection_def find_by_Cons)
  then have "\<forall>ys zs. [Meanwhile 9 [], Purge] = ys @ Purge # zs \<longrightarrow>
      \<not> expired (db_now (sdb (fold (sys_run demo_senv_all) ys ?s))) (tbl (sdb (fold (sys_run demo_senv_all) ys ?s))) demo_event"
    by (auto simp: Cons_eq_append_conv)
  from retention_exact [OF _ _ refl this] demo_inv show ?thesis
    by (simp add: demo_worker_def) (simp add: demo_db_def)
qed

end
