(* ===== verification/Migrations.thy ===== *)
theory Migrations
  imports StartupClaims
begin

text \<open>
  The migrations under \<^verbatim>\<open>migrations/\<close>, as functions on the tables.  What applies them is
  golang-migrate, a library: \<open>Up\<close> states its documented behaviour, which the code relies on.  When the
  API starts it applies every pending file in order, each in one transaction, with the version
  and a dirty mark kept beside the tables.  A table or column that a version does not have yet is empty, or holds
  what the migration that adds it fills in.
\<close>

section \<open>The files\<close>

definition source_types_1 :: "string list" where
  "source_types_1 = [''stripe'', ''github'', ''generic_hmac'', ''internal'']"

definition source_types_2 :: "string list" where
  "source_types_2 = [''stripe'', ''github'', ''easypost'', ''generic_hmac'', ''internal'']"

text \<open>The checks that migration 6 adds to \<^verbatim>\<open>alert_rules\<close>.\<close>

definition unit_matches_type :: "AlertRule \<Rightarrow> bool" where
  "unit_matches_type r \<longleftrightarrow>
     rule_type r = ''OPEN_ISSUES'' \<and> rule_unit r = ''COUNT''
     \<or> rule_type r = ''DELIVERY_SUCCESS'' \<and> rule_unit r = ''PERCENT''
     \<or> rule_type r = ''UNRESOLVED_TIME'' \<and> rule_unit r = ''HOURS''"

definition delivery_threshold :: "AlertRule \<Rightarrow> bool" where
  "delivery_threshold r \<longleftrightarrow> (rule_type r = ''DELIVERY_SUCCESS'' \<longrightarrow> rule_threshold r \<le> 100)"

definition fits_6 :: "AlertRule \<Rightarrow> bool" where
  "fits_6 r \<longleftrightarrow> rule_notification_type r \<in> set [''email'', ''slack_dm''] \<and> unit_matches_type r \<and> delivery_threshold r"

definition default_settings :: NotificationSettings where
  "default_settings = \<lparr>ns_smtp_host = [], ns_smtp_port = 0, ns_smtp_username = [], ns_smtp_password_enc = None,
     ns_smtp_from = [], ns_slack_bot_token_enc = None\<rparr>"

text \<open>A file succeeds with the new tables or is rejected as a whole.\<close>

definition up_init :: "tables \<Rightarrow> tables option" where
  "up_init t = Some empty_tables"

definition up_easypost_source :: "tables \<Rightarrow> tables option" where
  "up_easypost_source t = (if \<forall>c \<in> set (connections t). conn_source_type c \<in> set source_types_2 then Some t else None)"

definition up_playground :: "tables \<Rightarrow> tables option" where
  "up_playground t =
     Some (t\<lparr>playground_sessions := [], connections := map (\<lambda>c. c\<lparr>conn_is_playground := False\<rparr>) (connections t)\<rparr>)"

definition up_alerts :: "tables \<Rightarrow> tables option" where
  "up_alerts t = Some (t\<lparr>alert_rules := [], alert_notifications := []\<rparr>)"

definition up_event_encryption :: "tables \<Rightarrow> tables option" where
  "up_event_encryption t = Some (t\<lparr>events := map (\<lambda>e. e\<lparr>erow_encrypted := False\<rparr>) (events t)\<rparr>)"

definition up_slack_dm :: "tables \<Rightarrow> tables option" where
  "up_slack_dm t =
     (let rules = filter (\<lambda>r. rule_notification_type r \<noteq> ''slack'') (alert_rules t)
      in if \<forall>r \<in> set rules. fits_6 r
         then Some (t\<lparr>alert_rules := map (\<lambda>r. r\<lparr>rule_firing_threshold := None\<rparr>) rules,
                      alert_notifications := filter (\<lambda>n. an_alert_rule_id n \<in> set (keys rule_id rules)) (alert_notifications t)\<rparr>)
         else None)"

definition up_alert_delivery_error :: "tables \<Rightarrow> tables option" where
  "up_alert_delivery_error t = Some (t\<lparr>alert_rules := map (\<lambda>r. r\<lparr>rule_delivery_error := None\<rparr>) (alert_rules t)\<rparr>)"

definition up_notification_settings :: "tables \<Rightarrow> tables option" where
  "up_notification_settings t = Some (t\<lparr>notification_settings := Some default_settings\<rparr>)"

definition migrations :: "(tables \<Rightarrow> tables option) list" where
  "migrations = [up_init, up_easypost_source, up_playground, up_alerts, up_event_encryption, up_slack_dm,
     up_alert_delivery_error, up_notification_settings]"

definition migration :: "nat \<Rightarrow> tables \<Rightarrow> tables option" where
  "migration v = migrations ! (v - 1)"

lemma migration_simps [simp]:
  "migration (Suc 0) = up_init" "migration (Suc (Suc 0)) = up_easypost_source" "migration 2 = up_easypost_source" "migration 3 = up_playground"
  "migration 4 = up_alerts" "migration 5 = up_event_encryption" "migration 6 = up_slack_dm"
  "migration 7 = up_alert_delivery_error" "migration 8 = up_notification_settings"
  by (simp_all add: migration_def migrations_def)

lemmas up_defs = up_init_def up_easypost_source_def up_playground_def up_alerts_def up_event_encryption_def
  up_alert_delivery_error_def up_notification_settings_def

section \<open>Applying them\<close>

text \<open>
  The documented behaviour of \<^verbatim>\<open>m.Up()\<close> of golang-migrate, the parameter \<open>be_migrate_up\<close> of \<open>main\<close>: a version that is
  applied is marked dirty until it succeeds, and a dirty database is refused.
\<close>

record schema =
  sm_version :: nat
  sm_dirty :: bool
  sm_tables :: tables

fun run_pending :: "nat list \<Rightarrow> schema \<Rightarrow> unit result \<times> schema" where
  "run_pending [] s = (Inr (), s)"
| "run_pending (v # vs) s =
     (case migration v (sm_tables s) of
        None \<Rightarrow> (Inl (ErrText ''migration failed''), s\<lparr>sm_version := v, sm_dirty := True\<rparr>)
      | Some t \<Rightarrow> run_pending vs \<lparr>sm_version = v, sm_dirty = False, sm_tables = t\<rparr>)"

definition last_version :: nat where
  "last_version = length migrations"

definition Up :: "schema \<Rightarrow> migrated \<times> schema" where
  "Up s =
     (if sm_dirty s then (MigrateFailed (ErrText ''Dirty database version''), s)
      else if sm_version s = last_version then (NoChange, s)
      else case run_pending [Suc (sm_version s)..<Suc last_version] s of
             (Inl e, s') \<Rightarrow> (MigrateFailed e, s')
           | (Inr _, s') \<Rightarrow> (Migrated, s'))"

lemma last_version_8: "last_version = 8"
  by (simp add: last_version_def migrations_def)

section \<open>What holds at a version\<close>

definition connection_check_at :: "nat \<Rightarrow> Connection \<Rightarrow> bool" where
  "connection_check_at v c \<longleftrightarrow> connection_check c \<and> (v < 2 \<longrightarrow> conn_source_type c \<in> set source_types_1)
     \<and> (v < 3 \<longrightarrow> \<not> conn_is_playground c)"

definition rule_check_at :: "nat \<Rightarrow> AlertRule \<Rightarrow> bool" where
  "rule_check_at v r \<longleftrightarrow>
     (if v < 6
      then text_ok (rule_name r) \<and> text_ok (rule_notification_dest r)
        \<and> opt_ok text_ok (rule_subject_template r) \<and> opt_ok text_ok (rule_body_template r) \<and> 0 \<le> rule_threshold r
        \<and> rule_type r \<in> set [''OPEN_ISSUES'', ''DELIVERY_SUCCESS'', ''UNRESOLVED_TIME'']
        \<and> rule_unit r \<in> set [''COUNT'', ''PERCENT'', ''HOURS''] \<and> rule_notification_type r \<in> set [''slack'', ''email'']
        \<and> rule_firing_threshold r = None \<and> rule_delivery_error r = None
      else alert_rule_check r \<and> (v < 7 \<longrightarrow> rule_delivery_error r = None))"

definition valid_at :: "nat \<Rightarrow> tables \<Rightarrow> bool" where
  "valid_at v t \<longleftrightarrow>
     (v = 0 \<longrightarrow> t = empty_tables)
     \<and> wf_auth t \<and> wf_connections t \<and> wf_events t \<and> wf_deliveries t \<and> wf_issues t \<and> wf_playground t
     \<and> (\<forall>c \<in> set (connections t). connection_check_at v c)
     \<and> (v < 3 \<longrightarrow> playground_sessions t = []) \<and> (v < 4 \<longrightarrow> alert_rules t = [] \<and> alert_notifications t = [])
     \<and> (v < 5 \<longrightarrow> (\<forall>e \<in> set (events t). \<not> erow_encrypted e)) \<and> (v < 8 \<longrightarrow> notification_settings t = None)
     \<and> distinct (keys rule_id (alert_rules t)) \<and> (\<forall>r \<in> set (alert_rules t). rule_check_at v r)
     \<and> distinct (keys an_id (alert_notifications t))
     \<and> (\<forall>n \<in> set (alert_notifications t). an_alert_rule_id n \<in> set (keys rule_id (alert_rules t)))
     \<and> issue_matches_event t \<and> issue_status_ok t \<and> length (alert_rules t) \<le> 10"

text \<open>What a rule of versions 4 and 5 needs to pass migration 6: it is dropped or it fits.\<close>

definition passes_6 :: "tables \<Rightarrow> bool" where
  "passes_6 t \<longleftrightarrow>
     (\<forall>r \<in> set (alert_rules t). rule_notification_type r = ''slack'' \<or> unit_matches_type r \<and> delivery_threshold r)"

text \<open>What no migration changes: all rows but those of the alert tables and the settings.\<close>

definition same_core :: "tables \<Rightarrow> tables \<Rightarrow> bool" where
  "same_core t t' \<longleftrightarrow> users t' = users t \<and> sessions t' = sessions t \<and> connections t' = connections t \<and> events t' = events t
     \<and> deliveries t' = deliveries t \<and> issues t' = issues t \<and> playground_sessions t' = playground_sessions t"

abbreviation kept_rules :: "tables \<Rightarrow> AlertRule list" where
  "kept_rules t \<equiv> filter (\<lambda>r. rule_notification_type r \<noteq> ''slack'') (alert_rules t)"

lemma same_core_refl [simp]: "same_core t t"
  by (simp add: same_core_def)

lemma same_core_trans: "same_core t u \<Longrightarrow> same_core u w \<Longrightarrow> same_core t w"
  by (simp add: same_core_def)

lemma map_id_on: "(\<And>x. x \<in> set xs \<Longrightarrow> f x = x) \<Longrightarrow> map f xs = xs"
  by (induction xs) auto

lemma valid_8: "valid_at 8 t \<Longrightarrow> app_inv t"
  by (auto simp: valid_at_def app_inv_def wf_tables_def wf_alerts_def rule_check_at_def)

lemma kept_rules_6: "6 \<le> v \<Longrightarrow> valid_at v t \<Longrightarrow> kept_rules t = alert_rules t"
  by (auto simp: valid_at_def rule_check_at_def alert_rule_check_def filter_id_conv)

text \<open>Migration 6 is the only one that removes rows, and the only one that can be rejected.\<close>

lemma up_slack_dm_valid:
  assumes "valid_at 5 t" and "passes_6 t"
  shows "\<exists>t'. up_slack_dm t = Some t' \<and> valid_at 6 t' \<and> same_core t t' \<and> alert_rules t' = kept_rules t"
proof -
  let ?n = "filter (\<lambda>n. an_alert_rule_id n \<in> set (keys rule_id (kept_rules t))) (alert_notifications t)"
  let ?t = "t\<lparr>alert_rules := kept_rules t, alert_notifications := ?n\<rparr>"
  have old: "\<forall>r \<in> set (alert_rules t). rule_check_at 5 r" using assms(1) by (simp add: valid_at_def)
  then have fits: "\<forall>r \<in> set (kept_rules t). fits_6 r"
    using assms(2) by (auto simp: passes_6_def fits_6_def rule_check_at_def)
  have "map (\<lambda>r. r\<lparr>rule_firing_threshold := None\<rparr>) (kept_rules t) = kept_rules t"
    using old by (intro map_id_on) (auto simp: rule_check_at_def intro!: AlertRule.equality)
  then have "up_slack_dm t = Some ?t" using fits by (simp add: up_slack_dm_def Let_def)
  moreover have "\<forall>r \<in> set (kept_rules t). rule_check_at 6 r"
    using old fits
    by (auto simp: rule_check_at_def alert_rule_check_def fits_6_def unit_matches_type_def delivery_threshold_def opt_ok_def)
  moreover have "distinct (keys rule_id (kept_rules t))" "distinct (keys an_id ?n)" "length (kept_rules t) \<le> 10"
    using assms(1) by (auto simp: valid_at_def keys_def distinct_map_filter intro: order.trans [OF length_filter_le])
  ultimately show ?thesis
    using assms(1) by (auto simp: valid_at_def same_core_def connection_check_at_def wf_defs issue_matches_event_def issue_status_ok_def)
qed

lemma up_slack_dm_rejected: "valid_at 5 t \<Longrightarrow> \<not> passes_6 t \<Longrightarrow> up_slack_dm t = None"
  by (auto simp: up_slack_dm_def passes_6_def fits_6_def Let_def)

lemma valid_Suc:
  assumes "valid_at v t" "v \<noteq> 5" "v \<noteq> 7"
  shows "valid_at (Suc v) t"
proof -
  have rules: "\<forall>r \<in> set (alert_rules t). rule_check_at v r" and conns: "\<forall>c \<in> set (connections t). connection_check_at v c"
    using assms(1) by (simp_all add: valid_at_def)
  have "rule_check_at (Suc v) r" if "rule_check_at v r" for r
    using that assms(2) by (cases "v < 6") (simp_all add: rule_check_at_def)
  moreover have "connection_check_at (Suc v) c" if "connection_check_at v c" for c
    using that by (simp add: connection_check_at_def)
  ultimately have "\<forall>r \<in> set (alert_rules t). rule_check_at (Suc v) r" "\<forall>c \<in> set (connections t). connection_check_at (Suc v) c"
    using rules conns by blast+
  moreover have "notification_settings t = None" if "Suc v < 8" using assms(1) that by (simp add: valid_at_def)
  ultimately show ?thesis using assms(1) unfolding valid_at_def by simp
qed

lemma settings_wf [simp]:
  "wf_auth (t\<lparr>notification_settings := x\<rparr>) = wf_auth t" "wf_connections (t\<lparr>notification_settings := x\<rparr>) = wf_connections t"
  "wf_events (t\<lparr>notification_settings := x\<rparr>) = wf_events t" "wf_deliveries (t\<lparr>notification_settings := x\<rparr>) = wf_deliveries t"
  "wf_issues (t\<lparr>notification_settings := x\<rparr>) = wf_issues t" "wf_playground (t\<lparr>notification_settings := x\<rparr>) = wf_playground t"
  "issue_matches_event (t\<lparr>notification_settings := x\<rparr>) = issue_matches_event t"
  "issue_status_ok (t\<lparr>notification_settings := x\<rparr>) = issue_status_ok t"
  by (simp_all add: wf_defs issue_matches_event_def issue_status_ok_def)

text \<open>Every other file succeeds, and changes nothing that was there.\<close>

lemma migration_valid:
  assumes "valid_at v t" "v < 8" "v \<noteq> 5"
  shows "\<exists>t'. migration (Suc v) t = Some t' \<and> valid_at (Suc v) t' \<and> same_core t t' \<and> alert_rules t' = alert_rules t"
proof -
  have conns: "map (\<lambda>c. c\<lparr>conn_is_playground := False\<rparr>) (connections t) = connections t" if "v < 3"
    using assms(1) that
    by (intro map_id_on) (auto simp: valid_at_def connection_check_at_def intro!: Connection.equality)
  have evs: "map (\<lambda>e. e\<lparr>erow_encrypted := False\<rparr>) (events t) = events t" if "v < 5"
    using assms(1) that by (intro map_id_on) (auto simp: valid_at_def intro!: event_row.equality)
  have errs: "map (\<lambda>r. r\<lparr>rule_delivery_error := None\<rparr>) (alert_rules t) = alert_rules t" if "v < 7" "6 \<le> v"
    using assms(1) that by (intro map_id_on) (auto simp: valid_at_def rule_check_at_def intro!: AlertRule.equality)
  show ?thesis
  proof (cases "v = 7")
    case True
    then have "valid_at 8 (t\<lparr>notification_settings := Some default_settings\<rparr>)"
      using assms(1) by (simp add: valid_at_def connection_check_at_def rule_check_at_def)
    with True show ?thesis by (simp add: up_defs same_core_def)
  next
    case False
    then have v: "v = 0 \<or> v = 1 \<or> v = 2 \<or> v = 3 \<or> v = 4 \<or> v = 6" using assms(2,3) by linarith
    have empty: "v = 0 \<Longrightarrow> t = empty_tables" "v < 3 \<Longrightarrow> playground_sessions t = []"
      "v < 4 \<Longrightarrow> alert_rules t = [] \<and> alert_notifications t = []"
      and types: "v = 1 \<Longrightarrow> \<forall>c \<in> set (connections t). conn_source_type c \<in> set source_types_2"
      using assms(1) by (auto simp: valid_at_def connection_check_at_def source_types_1_def source_types_2_def)
    have upd: "connections_update (\<lambda>_. connections t) t = t" "events_update (\<lambda>_. events t) t = t" "alert_rules_update (\<lambda>_. alert_rules t) t = t"
      by simp_all
    have "migration (Suc v) t = Some t"
      using v
    proof (elim disjE)
      assume "v = 2"
      then have "t\<lparr>playground_sessions := [], connections := connections t\<rparr> = t" using empty(2) by (cases t) simp
      with conns \<open>v = 2\<close> show ?thesis by (simp add: up_defs)
    next
      assume "v = 3"
      then have "t\<lparr>alert_rules := [], alert_notifications := []\<rparr> = t" using empty(3) by (cases t) simp
      with \<open>v = 3\<close> show ?thesis by (simp add: up_defs)
    qed (use empty(1) types evs errs upd in \<open>simp_all add: up_defs\<close>)
    moreover have "valid_at (Suc v) t" by (rule valid_Suc) (use v assms(1) in auto)
    ultimately show ?thesis by simp
  qed
qed

lemma pending_from: "v < last_version \<Longrightarrow> [Suc v..<Suc last_version] = Suc v # [Suc (Suc v)..<Suc last_version]"
  by (simp add: upt_conv_Cons)

lemma run_pending_valid:
  assumes "valid_at v t" "v \<le> last_version" "v \<le> 5 \<Longrightarrow> passes_6 t"
  shows "\<exists>t'. run_pending [Suc v..<Suc last_version] \<lparr>sm_version = v, sm_dirty = False, sm_tables = t\<rparr>
        = (Inr (), \<lparr>sm_version = last_version, sm_dirty = False, sm_tables = t'\<rparr>)
     \<and> valid_at last_version t' \<and> same_core t t' \<and> alert_rules t' = kept_rules t"
  using assms
proof (induction "last_version - v" arbitrary: v t)
  case 0
  then have "v = last_version" by simp
  with 0 kept_rules_6 [of v t] show ?case by (simp add: last_version_8)
next
  case (Suc k)
  then have v: "v < last_version" "k = last_version - Suc v" by simp_all
  show ?case
  proof (cases "v = 5")
    case True
    with up_slack_dm_valid [of t] Suc.prems obtain t1 where t1: "up_slack_dm t = Some t1" "valid_at 6 t1" "same_core t t1"
      "alert_rules t1 = kept_rules t" by auto
    with Suc.hyps(1) [OF v(2), of t1] True obtain t' where "run_pending [Suc 6..<Suc last_version] \<lparr>sm_version = 6, sm_dirty = False, sm_tables = t1\<rparr>
        = (Inr (), \<lparr>sm_version = last_version, sm_dirty = False, sm_tables = t'\<rparr>)"
      "valid_at last_version t'" "same_core t1 t'" "alert_rules t' = kept_rules t1"
      by (auto simp: last_version_8)
    with t1 True show ?thesis unfolding pending_from [OF v(1)]
      by (auto simp: up_defs intro: same_core_trans)
  next
    case False
    with migration_valid [OF Suc.prems(1)] v(1) obtain t1 where t1: "migration (Suc v) t = Some t1" "valid_at (Suc v) t1"
      "same_core t t1" "alert_rules t1 = alert_rules t" by (auto simp: last_version_8)
    have "Suc v \<le> 5 \<Longrightarrow> passes_6 t1" using Suc.prems(3) t1(4) by (simp add: passes_6_def)
    with Suc.hyps(1) [OF v(2) t1(2)] v(1) t1 show ?thesis unfolding pending_from [OF v(1)]
      by (auto intro: same_core_trans)
  qed
qed

lemma run_pending_rejected:
  assumes "valid_at v t" "v \<le> 5" "\<not> passes_6 t"
  shows "run_pending [Suc v..<Suc last_version] \<lparr>sm_version = v, sm_dirty = False, sm_tables = t\<rparr>
    = (Inl (ErrText ''migration failed''), \<lparr>sm_version = 6, sm_dirty = True, sm_tables = t\<rparr>)"
proof -
  have "v = 4 \<or> v = 5" using assms by (auto simp: valid_at_def passes_6_def not_less_eq le_Suc_eq numeral_eq_Suc)
  then show ?thesis
  proof
    assume "v = 5"
    with assms up_slack_dm_rejected show ?thesis by (simp add: last_version_8 up_defs upt_conv_Cons)
  next
    assume v: "v = 4"
    have evs: "map (\<lambda>e. e\<lparr>erow_encrypted := False\<rparr>) (events t) = events t"
      using assms(1) v by (intro map_id_on) (auto simp: valid_at_def intro!: event_row.equality)
    then have "migration 5 t = Some t" by (simp add: up_defs)
    moreover have "valid_at 5 t" using valid_Suc [of 4 t] assms(1) v by simp
    ultimately show ?thesis
      using assms up_slack_dm_rejected v by (simp add: last_version_8 upt_conv_Cons)
  qed
qed

lemma Up_rejected:
  assumes "valid_at (sm_version s) (sm_tables s)" "\<not> sm_dirty s" "sm_version s \<le> 5" "\<not> passes_6 (sm_tables s)" and "Up s = (r, s')"
  shows "r = MigrateFailed (ErrText ''migration failed'') \<and> s' = \<lparr>sm_version = 6, sm_dirty = True, sm_tables = sm_tables s\<rparr>"
proof -
  have "s = \<lparr>sm_version = sm_version s, sm_dirty = False, sm_tables = sm_tables s\<rparr>" using assms(2) by simp
  with run_pending_rejected [OF assms(1,3,4)]
  have "run_pending [Suc (sm_version s)..<Suc last_version] s
      = (Inl (ErrText ''migration failed''), \<lparr>sm_version = 6, sm_dirty = True, sm_tables = sm_tables s\<rparr>)" by metis
  with assms(2,3,5) show ?thesis by (auto simp: Up_def last_version_8)
qed

lemma Up_succeeds:
  assumes "valid_at (sm_version s) (sm_tables s)" "sm_version s \<le> last_version" "\<not> sm_dirty s"
    "sm_version s \<le> 5 \<Longrightarrow> passes_6 (sm_tables s)" and "Up s = (r, s')"
  shows "r \<in> {NoChange, Migrated} \<and> sm_version s' = last_version \<and> \<not> sm_dirty s' \<and> app_inv (sm_tables s')
     \<and> same_core (sm_tables s) (sm_tables s') \<and> alert_rules (sm_tables s') = kept_rules (sm_tables s)"
proof (cases "sm_version s = last_version")
  case True
  with assms(1,3,5) kept_rules_6 [of 8 "sm_tables s"] valid_8 show ?thesis by (auto simp: Up_def last_version_8)
next
  case False
  have "s = \<lparr>sm_version = sm_version s, sm_dirty = False, sm_tables = sm_tables s\<rparr>" using assms(3) by simp
  with run_pending_valid [OF assms(1,2,4)] obtain t' where t': "run_pending [Suc (sm_version s)..<Suc last_version] s
      = (Inr (), \<lparr>sm_version = last_version, sm_dirty = False, sm_tables = t'\<rparr>)"
    "valid_at last_version t'" "same_core (sm_tables s) t'" "alert_rules t' = kept_rules (sm_tables s)" by metis
  with False assms(3,5) have "r = Migrated" "s' = \<lparr>sm_version = last_version, sm_dirty = False, sm_tables = t'\<rparr>"
    by (simp_all add: Up_def)
  with t' valid_8 show ?thesis by (auto simp: last_version_8)
qed



text \<open>An email rule in the wrong unit, as versions 4 and 5 allow it.\<close>

definition wrong_unit :: AlertRule where
  "wrong_unit = \<lparr>rule_id = 1, rule_name = ''late'', rule_type = ''OPEN_ISSUES'', rule_threshold = 3, rule_unit = ''HOURS'',
     rule_active = True, rule_notification_type = ''email'', rule_notification_dest = ''a@b'', rule_subject_template = None,
     rule_body_template = None, rule_firing_threshold = None, rule_delivery_error = None, rule_created_at = 0, rule_updated_at = 0\<rparr>"




section \<open>Starting on an older database\<close>

text \<open>\<^verbatim>\<open>m.Up()\<close> on the database of the program.\<close>

definition migrate_db :: "nat \<Rightarrow> bool \<Rightarrow> db \<Rightarrow> migrated \<times> db" where
  "migrate_db v dirty d =
     (case Up \<lparr>sm_version = v, sm_dirty = dirty, sm_tables = tbl d\<rparr> of (r, s) \<Rightarrow> (r, d\<lparr>tbl := sm_tables s\<rparr>))"

lemma opened_plain: "\<not> erow_encrypted r \<Longrightarrow> \<exists>ev. opened e r = Inr (Some ev)"
  by (simp add: opened_def scanEvent_def openEventFields_def)

text \<open>A database of any version, whose sealed events open with the payload key.\<close>

definition upgradable :: "encryptor \<Rightarrow> nat \<Rightarrow> tables \<Rightarrow> bool" where
  "upgradable pe v t \<longleftrightarrow> v \<le> last_version \<and> valid_at v t
     \<and> (\<forall>r \<in> set (events t). erow_encrypted r \<longrightarrow> (\<exists>ev. opened pe r = Inr (Some ev)))"

lemma startup_migrated:
  assumes "main B W t0 d0 = (API c enc pe s, d)" and "be_migrate_up B = migrate_db v False" and "upgradable pe v (tbl d0)"
  shows "\<exists>d1. runMigrations B (DatabaseURL c) d0 = (None, d1) \<and> app_inv (tbl d1) \<and> same_core (tbl d0) (tbl d1)
     \<and> (\<forall>r \<in> set (events (tbl d1)). \<exists>ev. opened pe r = Inr (Some ev))"
proof -
  let ?s0 = "\<lparr>sm_version = v, sm_dirty = False, sm_tables = tbl d0\<rparr>"
  have v: "valid_at v (tbl d0)" "v \<le> last_version" using assms(3) by (simp_all add: upgradable_def)
  obtain d1 where g: "runMigrations B (DatabaseURL c) d0 = (None, d1)" using main_API [OF assms(1)] by blast
  obtain r s' where u: "Up ?s0 = (r, s')" by fastforce
  have r: "\<forall>e. r \<noteq> MigrateFailed e" and d1: "d1 = d0\<lparr>tbl := sm_tables s'\<rparr>"
    using g u by (auto simp: runMigrations_def assms(2) migrate_db_def Let_def split: option.splits migrated.splits)
  have "v \<le> 5 \<Longrightarrow> passes_6 (tbl d0)" using Up_rejected [OF _ _ _ _ u] v r by auto
  with Up_succeeds [OF _ _ _ _ u] v have t: "app_inv (tbl d1)" "same_core (tbl d0) (tbl d1)" by (simp_all add: d1)
  moreover have "\<forall>r \<in> set (events (tbl d1)). \<exists>ev. opened pe r = Inr (Some ev)"
    using assms(3) opened_plain t(2) unfolding upgradable_def same_core_def by metis
  ultimately show ?thesis using g by blast
qed

text \<open>
  C18. When the API process begins to serve, started on a database of whatever earlier version:
  secrets are sealed with \<^verbatim>\<open>TUMA_ENCRYPTION_KEY\<close> and events with \<^verbatim>\<open>TUMA_PAYLOAD_KEY\<close>, or, when that is not
  set, with the same key, of 32 bytes each; the database has the current version and its invariant
  holds; every event of the old database is there, sealed, and reads as before; and there is
  an administrator, who on a database without users is the configured one, with the bcrypt
  hash of the configured password, or of a generated one that was shown.
\<close>

theorem startup_ready:
  assumes "main B W t0 d0 = (API c enc pe s, d)" and "be_migrate_up B = migrate_db v False" and "upgradable pe v (tbl d0)"
  shows "gcm_key enc = be_getenv B ''TUMA_ENCRYPTION_KEY''
     \<and> gcm_key pe = (if be_getenv B ''TUMA_PAYLOAD_KEY'' \<noteq> [] then be_getenv B ''TUMA_PAYLOAD_KEY'' else be_getenv B ''TUMA_ENCRYPTION_KEY'')
     \<and> length (gcm_key enc) = 32 \<and> length (gcm_key pe) = 32
     \<and> app_inv (tbl (adb s)) \<and> sealed_events pe (tbl (adb s))
     \<and> map (opened pe) (events (tbl (adb s))) = map (opened pe) (events (tbl d0))
     \<and> users (tbl (adb s)) \<noteq> []
     \<and> (users (tbl d0) = [] \<longrightarrow> (\<exists>shown u. users (tbl (adb s)) = [u] \<and> admin_created B shown u))"
proof -
  from startup_migrated [OF assms] obtain d1 where d1: "runMigrations B (DatabaseURL c) d0 = (None, d1)" "app_inv (tbl d1)"
    "same_core (tbl d0) (tbl d1)" "\<forall>r \<in> set (events (tbl d1)). \<exists>ev. opened pe r = Inr (Some ev)" by blast
  then have "events (tbl d1) = events (tbl d0)" "users (tbl d1) = users (tbl d0)" by (simp_all add: same_core_def)
  with startup_serving [OF assms(1) d1(1,2,4)] show ?thesis by metis
qed

definition demo_upgrade :: boot_env where
  "demo_upgrade = demo_boot\<lparr>be_migrate_up := migrate_db 8 False\<rparr>"

lemma demo_upgrade_main: "main demo_upgrade demo_dial 0 demo_fresh = main demo_boot demo_dial 0 demo_fresh"
proof -
  have g: "runMigrations demo_upgrade url demo_fresh = runMigrations demo_boot url demo_fresh" for url
    by (simp add: runMigrations_def demo_upgrade_def demo_boot_def migrate_db_def Up_def last_version_8 Let_def)
  have f: "be_getenv demo_upgrade = be_getenv demo_boot" "be_seal demo_upgrade = be_seal demo_boot"
    "be_random demo_upgrade = be_random demo_boot" "be_bcrypt demo_upgrade = be_bcrypt demo_boot"
    "be_otel_err demo_upgrade = be_otel_err demo_boot" "be_args demo_upgrade = be_args demo_boot"
    "be_pool_err demo_upgrade = be_pool_err demo_boot"
    by (simp_all add: demo_upgrade_def)
  then have p: "randomPassword demo_upgrade = randomPassword demo_boot" by (intro ext) (simp add: randomPassword_def)
  have "bootstrapAdmin demo_upgrade = bootstrapAdmin demo_boot"
    by (intro ext) (simp only: bootstrapAdmin_def f p)
  with f have "start_serving demo_upgrade = start_serving demo_boot"
    by (intro ext) (simp only: start_serving_def)
  with f g show ?thesis by (simp only: main_def)
qed

lemma demo_upgradable: "upgradable pe 8 (tbl demo_fresh)"
  by (simp add: upgradable_def last_version_8 demo_fresh_def empty_tables_def valid_at_def wf_defs issue_matches_event_def
      issue_status_ok_def)

text \<open>
  A database of version 5 with a connection, an event stored in the clear and a rule of the former
  Slack channel, and an environment that sets a payload key of its own.
\<close>

definition demo_old :: db where
  "demo_old = demo_fresh\<lparr>tbl := empty_tables\<lparr>connections := [demo_conn],
     events := [\<lparr>erow_id = 7, erow_connection_id = 1, erow_provider_event_id = ''evt_1'', erow_raw_headers = ''{}'',
       erow_raw_payload = ''hello'', erow_encrypted = False, erow_received_at = 0, erow_workflow_id = None\<rparr>],
     alert_rules := [wrong_unit\<lparr>rule_notification_type := ''slack''\<rparr>]\<rparr>\<rparr>"

definition demo_from_5 :: boot_env where
  "demo_from_5 = demo_boot\<lparr>be_getenv := demo_getenv(''TUMA_PAYLOAD_KEY'' := replicate 32 (CHR ''p'')), be_migrate_up := migrate_db 5 False\<rparr>"

lemma demo_old_valid: "valid_at 5 (tbl demo_old)" "passes_6 (tbl demo_old)"
proof -
  have "connection_check demo_conn" "text_ok ''late''" "text_ok ''a@b''" by code_simp+
  then show "valid_at 5 (tbl demo_old)"
    by (simp add: demo_old_def demo_fresh_def valid_at_def wf_defs empty_tables_def keys_def connection_check_at_def rule_check_at_def
        opt_ok_def issue_matches_event_def issue_status_ok_def wrong_unit_def) (simp add: demo_conn_def)
  show "passes_6 (tbl demo_old)" by (simp add: demo_old_def passes_6_def)
qed

lemma demo_from_5_migrates:
  "\<exists>d1. runMigrations demo_from_5 url demo_old = (None, d1) \<and> faults d1 = [] \<and> uuid_src d1 = (\<lambda>n. n) \<and> same_core (tbl demo_old) (tbl d1)"
proof -
  let ?s0 = "\<lparr>sm_version = 5, sm_dirty = False, sm_tables = tbl demo_old\<rparr>"
  obtain r s' where u: "Up ?s0 = (r, s')" by fastforce
  have "r \<in> {NoChange, Migrated} \<and> same_core (tbl demo_old) (sm_tables s')"
    using Up_succeeds [OF _ _ _ _ u] demo_old_valid by (simp add: last_version_8)
  with u show ?thesis
    by (auto simp: runMigrations_def demo_from_5_def demo_boot_def migrate_db_def Let_def demo_old_def demo_fresh_def)
qed

lemma demo_from_5_main: "\<exists>c enc pe s d. main demo_from_5 demo_dial 0 demo_old = (API c enc pe s, d)"
proof -
  obtain c where c: "Load (be_getenv demo_from_5) = Inr c" "EncryptionKey c = replicate 32 (CHR ''k'')" "PayloadKey c = replicate 32 (CHR ''p'')"
    by (simp add: Load_def demo_from_5_def demo_getenv_def env_or_def Let_def)
  obtain n t where t: "dialTemporal demo_dial 0 = Some (Inr (), n, t)" using demo_dial by blast
  obtain d1 where d1: "runMigrations demo_from_5 (DatabaseURL c) demo_old = (None, d1)" "faults d1 = []" "same_core (tbl demo_old) (tbl d1)"
    using demo_from_5_migrates by blast
  then have rows: "users (tbl d1) = []" "events (tbl d1) = events (tbl demo_old)"
    by (simp_all add: same_core_def demo_old_def empty_tables_def)
  obtain k d2 where d2: "BackfillPayloadEncryption (Some e) (be_seal demo_from_5) d1 = ((k e, None), d2 e)" "faults (d2 e) = []" "users (tbl (d2 e)) = []" for e
  proof -
    have "\<exists>k d2. BackfillPayloadEncryption (Some e) (be_seal demo_from_5) d1 = ((k, None), d2) \<and> faults d2 = [] \<and> users (tbl d2) = []" for e
      using d1(2) rows
      by (simp add: BackfillPayloadEncryption_def select_def demo_old_def sealEventFields_def EncryptBytes_def encrypt_row_stmt_def
          demo_from_5_def demo_boot_def Let_def)
    with that show ?thesis by metis
  qed
  have tx: "text_ok ''admin@localhost''" "text_ok ''$2a$pw''" by code_simp+
  have "\<exists>d. bootstrapAdmin demo_from_5 (d2 e) = (Inr None, d)" for e
    using d2(2,3) [of e]
    by (simp add: bootstrapAdmin_def CountUsers_def select_def CreateUser_def demo_from_5_def demo_boot_def demo_getenv_def
        envOr_def Let_def split_beta keys_def tx)
  then obtain d3 where "bootstrapAdmin demo_from_5 (d2 e) = (Inr None, d3 e)" for e by metis
  with c t d1(1) d2(1) show ?thesis
    by (intro exI [of _ c]) (simp add: main_def start_serving_def NewEncryptor_def Let_def, simp add: demo_from_5_def demo_boot_def)
qed

theorem startup_ready_witness:
  "\<exists>c enc pe s d ev. main demo_from_5 demo_dial 0 demo_old = (API c enc pe s, d) \<and> length (users (tbl (adb s))) = 1
     \<and> gcm_key enc = replicate 32 (CHR ''k'') \<and> gcm_key pe = replicate 32 (CHR ''p'')
     \<and> sealed_events pe (tbl (adb s)) \<and> map (opened pe) (events (tbl (adb s))) = [Inr (Some ev)] \<and> ev_raw_payload ev = ''hello''"
proof -
  obtain c enc pe s d where m: "main demo_from_5 demo_dial 0 demo_old = (API c enc pe s, d)" using demo_from_5_main by blast
  have up: "upgradable pe 5 (tbl demo_old)"
    using demo_old_valid(1) by (simp add: upgradable_def last_version_8) (simp add: demo_old_def)
  have "map (opened pe) (events (tbl demo_old)) = [Inr (Some \<lparr>ev_id = 7, ev_connection_id = 1, ev_provider_event_id = ''evt_1'',
      ev_raw_headers = ''{}'', ev_raw_payload = ''hello'', ev_received_at = 0, ev_workflow_id = None\<rparr>)]"
    by (simp add: demo_old_def opened_def scanEvent_def openEventFields_def)
  moreover have "users (tbl demo_old) = []" by (simp add: demo_old_def empty_tables_def)
  moreover have "be_migrate_up demo_from_5 = migrate_db 5 False"
    "be_getenv demo_from_5 ''TUMA_PAYLOAD_KEY'' = replicate 32 (CHR ''p'')" "be_getenv demo_from_5 ''TUMA_ENCRYPTION_KEY'' = replicate 32 (CHR ''k'')"
    by (simp_all add: demo_from_5_def demo_getenv_def)
  ultimately show ?thesis using startup_ready [OF m _ up] m by fastforce
qed

end
