(* ===== verification/Exposition.thy ===== *)
theory Exposition
  imports System
begin

text \<open>
  What a scrape of \<^verbatim>\<open>/metrics\<close> can show.  The collectors of \<^verbatim>\<open>internal/metrics\<close> are variables of a
  process; only the API process exposes them, and the worker writes three of the four.
\<close>

section \<open>The series of the worker\<close>

definition worker_series :: "metrics \<Rightarrow> (uuid \<times> string \<times> int) list \<times> int \<times> (uuid \<Rightarrow> nat)" where
  "worker_series m = (delivery_latency m, dlq_depth m, connection_errors m)"

definition leaves :: "('s \<Rightarrow> 'v) \<Rightarrow> ('s \<Rightarrow> 'r \<times> 's) \<Rightarrow> bool" where
  "leaves g h \<longleftrightarrow> (\<forall>s. g (snd (h s)) = g s)"

abbreviation core_series where "core_series s \<equiv> worker_series (srv_metrics s)"
abbreviation play_series where "play_series p \<equiv> core_series (plg_core p)"
abbreviation app_series where "app_series a \<equiv> play_series (app_play a)"

lemma leavesI: "(\<And>s r s'. h s = (r, s') \<Longrightarrow> g s' = g s) \<Longrightarrow> leaves g h"
  by (metis leaves_def surjective_pairing)

lemma leavesD: "leaves g h \<Longrightarrow> h s = (r, s') \<Longrightarrow> g s' = g s"
  by (metis leaves_def snd_conv)

lemma leaves_case:
  assumes "leaves g h" and "\<And>r s'. g s' = g s \<Longrightarrow> k (snd (f r s')) = x"
  shows "k (snd (case h s of (r, s') \<Rightarrow> f r s')) = x"
  using assms by (auto split: prod.splits dest: leavesD)

lemma series_counted [simp]: "worker_series (IngestionTotal_Inc c out m) = worker_series m"
  by (simp add: worker_series_def IngestionTotal_Inc_def)

lemma count_ingest_series [simp]: "core_series (count_ingest c out s) = core_series s"
  by (simp add: count_ingest_def)

lemma play_metrics [simp]:
  "plg_core (s\<lparr>plg_hub := h\<rparr>) = plg_core s" "srv_metrics (plg_core (set_pdb s d)) = srv_metrics (plg_core s)"
  by (simp_all add: set_pdb_def)

section \<open>No handler changes them\<close>

lemma ExecuteWorkflow_metrics: "ExecuteWorkflow E w i s = (r, s') \<Longrightarrow> srv_metrics s' = srv_metrics s"
  by (auto simp: ExecuteWorkflow_def Let_def split: option.splits)

lemma start_delivery_metrics: "srv_metrics (start_delivery E i s) = srv_metrics s"
  by (auto simp: start_delivery_def Let_def split: prod.splits sum.splits dest!: ExecuteWorkflow_metrics)

lemma getCachedConnection_metrics: "getCachedConnection E clk path s = (r, s') \<Longrightarrow> srv_metrics s' = srv_metrics s"
  by (auto simp: getCachedConnection_def Let_def split: reply_splits)

lemma ingest_leaves: "leaves core_series (ingest E clk rs path stream h)"
  by (rule leavesI)
     (auto simp: ingest_def ingest_accept_def Let_def start_delivery_metrics split: reply_splits
       dest!: getCachedConnection_metrics)

lemma replay_ids_metrics: "srv_metrics (snd (replay_ids E now ids n s)) = srv_metrics s"
proof (induction ids arbitrary: n s)
  case (Cons idStr ids)
  then show ?case by (auto split: reply_splits simp: startReplay_def dest!: ExecuteWorkflow_metrics)
qed simp

lemma console_leaves:
  "leaves core_series (login E now req)" "leaves core_series (logout E cookies)"
  "leaves core_series (getConnection E i)" "leaves core_series (listDeliveries E i)"
  "leaves core_series (listIssues st)" "leaves core_series (getIssue E i)" "leaves core_series (getMetrics E)"
  "leaves core_series healthz" "leaves core_series readyz" "leaves core_series (getConfig E)"
  "leaves core_series (getNotificationSettings E)"
  "leaves core_series listAlertRules" "leaves core_series (listAlertNotifications q)"
  "leaves core_series (listConnections E)"
  by (rule leavesI, auto simp: login_def logout_def getConnection_def listDeliveries_def listIssues_def getIssue_def getMetrics_def
      healthz_def readyz_def getConfig_def getNotificationSettings_def listAlertRules_def listAlertNotifications_def
      notificationSettings_def listConnections_def connectionStatsMap_def split: reply_splits)+

lemma console_write_leaves:
  "leaves core_series (createConnection E b r u cq)" "leaves core_series (patchConnection E r i pq)"
  "leaves core_series (replayIssue E now i)" "leaves core_series (replayBulk E clk ids)"
  "leaves core_series (createAlertRule E rq)" "leaves core_series (patchAlertRule E i p)" "leaves core_series (deleteAlertRule E i)"
  "leaves core_series (putNotificationSettings E rs sq)"
proof -
  show "leaves core_series (createConnection E b r u cq)"
    by (rule leavesI) (auto simp: createConnection_def Let_def split: reply_splits)
  show "leaves core_series (patchConnection E r i pq)"
    by (rule leavesI) (auto simp: patchConnection_def split: reply_splits)
  show "leaves core_series (replayIssue E now i)"
    by (rule leavesI) (auto simp: replayIssue_def startReplay_def split: reply_splits dest!: ExecuteWorkflow_metrics)
  show "leaves core_series (replayBulk E clk ids)"
    by (rule leavesI) (auto simp: replayBulk_def split: reply_splits, metis replay_ids_metrics snd_conv)
  show "leaves core_series (createAlertRule E rq)"
    by (rule leavesI) (auto simp: createAlertRule_def notificationSettings_def Let_def split: reply_splits)
  show "leaves core_series (patchAlertRule E i p)"
    by (rule leavesI) (auto simp: patchAlertRule_def Let_def split: reply_splits)
  show "leaves core_series (deleteAlertRule E i)"
    by (rule leavesI) (auto simp: deleteAlertRule_def Let_def split: reply_splits)
  show "leaves core_series (putNotificationSettings E rs sq)"
    by (rule leavesI) (auto simp: putNotificationSettings_def notificationSettings_def Let_def split: reply_splits)
qed

lemma auth_leaves: "leaves core_series h \<Longrightarrow> leaves core_series (auth E cookies h)"
  by (rule leavesI) (auto simp: auth_def split: reply_splits dest: leavesD)

subsection \<open>The playground\<close>

lemma touch_series [simp]: "play_series (touch ps s) = play_series s"
  by (simp add: touch_def)

lemma limited_leaves: "leaves play_series h \<Longrightarrow> leaves play_series (limited w n b r h)"
  by (rule leavesI) (auto simp: limited_def Let_def split: prod.splits if_splits dest: leavesD)

lemma session_leaves: "leaves play_series (playgroundSessionFromRequest E r)"
  by (rule leavesI) (auto simp: playgroundSessionFromRequest_def split: reply_splits)

lemma bootstrap_leaves: "leaves play_series (playgroundBootstrap E b r)"
proof -
  have "leaves play_series (bootstrap_new E b)"
    by (rule leavesI) (auto simp: bootstrap_new_def Let_def split: reply_splits)
  then show ?thesis
    unfolding playgroundBootstrap_def
    by (intro limited_leaves leavesI) (auto simp: Let_def split: reply_splits dest!: leavesD [OF session_leaves] dest: leavesD)
qed

lemma play_read_leaves: "leaves play_series (playgroundStatus E r)" "leaves play_series (playgroundStream E r)"
  by (rule leavesI, auto simp: playgroundStatus_def playgroundStream_def Let_def split: reply_splits bool.splits
      dest!: leavesD [OF session_leaves])+

lemma net_post_leaves: "leaves play_series (net_post E ch url body h)"
  by (rule leavesI) (auto simp: net_post_def split: target.splits prod.splits dest: leavesD [OF ingest_leaves])

lemma send_loop_series:
  fixes s :: play
  assumes "\<And>u b h. leaves play_series (post u b h)"
  shows "play_series (snd (send_loop S post url secret provider count dup i out s)) = play_series s"
proof (induction "nat (count - int i)" arbitrary: i out s)
  case 0
  then show ?case by (simp add: send_loop.simps)
next
  case (Suc n)
  then have n: "n = nat (count - int (Suc i))" by simp
  show ?case
    by (subst send_loop.simps) (auto simp: Let_def Suc.hyps(1) [OF n] split: sum.splits prod.splits dest: leavesD [OF assms])
qed

lemma simulate_leaves:
  assumes "\<And>u b h. leaves play_series (post u b h)"
  shows "leaves play_series (playgroundSimulate E S post r q)"
proof -
  have send: "leaves play_series (SendEvents S post base path secret provider count dup)" for base path secret provider count dup
    by (simp add: leaves_def SendEvents_def send_loop_series [OF assms])
  have switch: "leaves play_series (switch_provider c p)" for c p
    by (rule leavesI) (auto simp: switch_provider_def Let_def split: reply_splits)
  show ?thesis
    unfolding playgroundSimulate_def
    by (intro limited_leaves leavesI)
       (auto simp: Let_def split: reply_splits bool.splits
         dest!: leavesD [OF session_leaves] leavesD [OF switch] leavesD [OF send])
qed

lemma play_write_leaves:
  "leaves play_series (playgroundSetFail E b r)" "leaves play_series (playgroundReplay E now r)"
  "leaves play_series (playgroundReceiver E ms ts h bd i)"
  unfolding playgroundSetFail_def playgroundReplay_def playgroundReceiver_def
  by (intro limited_leaves leavesI, auto simp: startReplay_def Let_def split: reply_splits dest!: leavesD [OF session_leaves] ExecuteWorkflow_metrics)+

subsection \<open>Every request, every step\<close>

lemma on_core_leaves: "leaves core_series h \<Longrightarrow> leaves app_series (on_core f h)"
  by (rule leavesI) (auto simp: on_core_def split: prod.splits dest: leavesD)

lemma on_play_leaves: "leaves play_series h \<Longrightarrow> leaves app_series (on_play f h)"
  by (rule leavesI) (auto simp: on_play_def split: prod.splits dest: leavesD)

lemma on_sink_leaves: "leaves app_series (on_sink f h)"
  by (rule leavesI) (auto simp: on_sink_def split: prod.splits)

lemma same_leaves: "leaves app_series (\<lambda>s. (f s, s))" "leaves app_series (Pair x)"
  by (simp_all add: leaves_def)

lemmas handler_leaves = console_leaves console_write_leaves ingest_leaves bootstrap_leaves play_read_leaves
  simulate_leaves [OF net_post_leaves] play_write_leaves

lemma guarded_leaves:
  assumes "leaves app_series h"
  shows "leaves app_series (guarded E cookies h)"
proof -
  have "leaves core_series (auth E cookies (\<lambda>c. (Reply 0 (), c)))" by (rule auth_leaves) (simp add: leaves_def)
  with assms show ?thesis by (intro leavesI) (auto simp: guarded_def split: prod.splits reply.splits dest!: leavesD)
qed

lemma handle_leaves: "leaves app_series (handle A ch q)"
proof -
  have "console A ch q rt = Some h \<Longrightarrow> leaves app_series h" for rt h
    by (cases rt) (auto intro!: on_core_leaves on_sink_leaves handler_leaves)
  moreover have "leaves app_series (public A ch q rt)" for rt
    by (cases rt) (auto intro!: on_core_leaves on_sink_leaves on_play_leaves handler_leaves same_leaves)
  ultimately have "leaves app_series (dispatch A ch q rt)" for rt
    by (auto simp: dispatch_def split: option.splits intro: guarded_leaves)
  then show ?thesis by (auto simp: leaves_def handle_def Let_def split: option.splits)
qed

lemma set_adb_series [simp]: "app_series (set_adb d a) = app_series a"
  by (simp add: set_adb_def)

lemma stream_next_series: "play_series (snd (stream_next sim h p)) = play_series p"
  by (auto simp: stream_next_def Let_def split: option.splits list.splits prod.splits)

lemma close_stream_series: "play_series (close_stream h p) = play_series p"
  by (simp add: close_stream_def Let_def)

lemma sys_run_series: "app_series (sys_app (sys_run S x s)) = app_series (sys_app s)"
  by (cases x) (simp_all add: in_worker_def Let_def handle_leaves [unfolded leaves_def] stream_next_series close_stream_series)

lemma sys_runs_series: "app_series (sys_app (fold (sys_run S) steps s)) = app_series (sys_app s)"
  by (induction steps arbitrary: s) (simp_all add: sys_run_series)

section \<open>What a scrape shows\<close>

definition counted :: "db \<Rightarrow> int" where
  "counted d = (case fst (OpenIssuesCount d) of Inr n \<Rightarrow> int n | Inl _ \<Rightarrow> 0)"

lemma counted_open: "faults d = [] \<Longrightarrow> counted d = int (length (open_issues (tbl d)))"
  by (simp add: counted_def OpenIssuesCount_def select_def)

lemma runAPI_series: "app_series (runAPI d) = ([], counted d, \<lambda>_. 0)"
  by (auto simp: runAPI_def counted_def NewServer_def worker_series_def new_metrics_def SetDLQDepth_def split: prod.splits sum.splits)

lemma find_metrics: "find_route demo ''GET'' [''metrics''] = Some Collectors"
  by (simp add: find_route_def routes_def server_routes_def registerPlaygroundRoutes_def method_ok_def)

text \<open>
  C40. Whatever happens after the API process has started, a scrape of its collectors shows the
  result of the count of open issues that it made at the start (0, if counting them failed): when
  the database worked, exactly the number of issues that were open then.  It shows no delivery
  latency and no connection error.  Issues that the worker opens or resolves and the
  deliveries it makes never show.
\<close>

theorem scraped_depth_stale:
  assumes "hr_method q = ''GET''" "hr_path q = [''metrics'']" and "sys_app s0 = runAPI d"
  shows "\<exists>m. fst (handle (se_api S) ch q (sys_app (fold (sys_run S) steps s0))) = Reply 200 (ACollectors m)
     \<and> dlq_depth m = (case fst (OpenIssuesCount d) of Inr n \<Rightarrow> int n | Inl _ \<Rightarrow> 0)
     \<and> (faults d = [] \<longrightarrow> dlq_depth m = int (length (open_issues (tbl d))))
     \<and> delivery_latency m = [] \<and> connection_errors m = (\<lambda>_. 0)"
proof -
  let ?a = "sys_app (fold (sys_run S) steps s0)"
  have "fst (handle (se_api S) ch q ?a) = Reply 200 (ACollectors (srv_metrics (plg_core (app_play ?a))))"
    using assms(1,2) by (simp add: handle_def Let_def find_metrics dispatch_def)
  moreover have "app_series ?a = app_series (runAPI d)" using sys_runs_series assms(3) by metis
  ultimately show ?thesis using runAPI_series [of d] counted_open [of d] by (auto simp: worker_series_def counted_def)
qed

definition demo_scrape :: http_request where
  "demo_scrape = \<lparr>hr_method = ''GET'', hr_path = [''metrics''], hr_query = (\<lambda>_. []), hr_cookies = [], hr_headers = [],
     hr_remote = [], hr_body = \<lparr>bs_bytes = [], bs_fails = False\<rparr>\<rparr>"

definition demo_issue :: worker where
  "demo_issue = snd (ExecuteActivity (demo_env []) (RecordIssue (demo_env []) 7 3) demo_worker)"

text \<open>One issue is open when the API process starts; then the worker resolves it.\<close>

definition demo_resolved :: worker where
  "demo_resolved = snd (ExecuteActivity (demo_env []) (RecordDelivered 7) (demo_worker\<lparr>w_db := w_db demo_issue\<rparr>))"

lemma demo_issue_open: "length (open_issues (tbl (w_db demo_issue))) = 1" "open_issues (tbl (w_db demo_resolved)) = []"
  "faults (w_db demo_issue) = []"
  by code_simp+

lemma runAPI_adb: "faults d = [] \<Longrightarrow> adb (runAPI d) = d"
  by (simp add: runAPI_def OpenIssuesCount_def select_def pool_def)

theorem scraped_depth_stale_witness:
  "let S = demo_senv_all\<lparr>se_worker := demo_env []\<rparr>;
       s = fold (sys_run S) [Act_RecordDelivered 7] \<lparr>sys_app = runAPI (w_db demo_issue), sys_worker = demo_worker, sys_attempts = []\<rparr>
   in open_issues (tbl (adb (sys_app s))) = []
     \<and> (\<exists>m. fst (handle (se_api S) demo_choices demo_scrape (sys_app s)) = Reply 200 (ACollectors m) \<and> dlq_depth m = 1)"
proof -
  let ?S = "demo_senv_all\<lparr>se_worker := demo_env []\<rparr>"
  let ?start = "\<lparr>sys_app = runAPI (w_db demo_issue), sys_worker = demo_worker, sys_attempts = []\<rparr>"
  let ?s = "fold (sys_run ?S) [Act_RecordDelivered 7] ?start"
  have "adb (sys_app ?s) = w_db demo_resolved"
    by (simp add: in_worker_def Let_def runAPI_adb [OF demo_issue_open(3)] demo_resolved_def)
  moreover have "\<exists>m. fst (handle (se_api ?S) demo_choices demo_scrape (sys_app ?s)) = Reply 200 (ACollectors m) \<and> dlq_depth m = 1"
    using scraped_depth_stale [of demo_scrape ?start "w_db demo_issue" ?S demo_choices "[Act_RecordDelivered 7]"]
    by (auto simp: demo_scrape_def demo_issue_open)
  ultimately show ?thesis unfolding Let_def by (simp add: demo_issue_open)
qed

end
