(* ===== verification/Spec2Isabelle.thy ===== *)
theory Spec2Isabelle
  imports DeliveryClaims SecurityClaims IngestClaims PlaygroundClaims JsonClaims Concurrent Workers Lifecycle Migrations Exposition
begin

text \<open>
  A verification library for Tuma, a webhook relay written in Go (\<^verbatim>\<open>cmd/tuma\<close> and \<^verbatim>\<open>internal/\<close>).

  \<^bold>\<open>The program.\<close>  Providers POST webhooks to the API process.  It checks the signature with the
  adapter of the connection's source, stores the event sealed, acknowledges it and starts a
  delivery workflow at the Temporal server.  The worker process runs the workflows: it POSTs
  the payload to the destination of the connection, retries with an exponential back-off, and
  opens an issue when the attempts are exhausted.  It also evaluates alert rules and sends
  email and Slack messages.  Operators use the console API; visitors of a demo installation
  use the playground.  Both processes share one Postgres database.

  \<^bold>\<open>The model.\<close>  Go values are records and datatypes with the fields and cases of the source;
  errors are values (\<open>go_error\<close>, \<open>'a result\<close>); strings are byte lists; \<^verbatim>\<open>float64\<close> is a rational that
  is rounded to binary64 after every operation; \<^verbatim>\<open>int\<close> values wrap at 64 bits where a product
  may overflow.  The database (\<open>db\<close>) is its tables, a clock, the identifiers it will
  generate and the fates of the coming statements: a statement runs, is refused, or runs and
  its reply is lost.  So every theorem about the store holds for every pattern of failures
  unless it says that there are none.  Random choices, clock readings and the answers of
  other programs are arguments.

  \<^bold>\<open>The theories.\<close>
  \<^item> \<open>Prelude\<close>, \<open>GoStrings\<close>, \<open>Float64\<close>, \<open>Json\<close>: Go errors, 64-bit integers, rows of a table, the
    functions of \<^verbatim>\<open>strings\<close>, \<^verbatim>\<open>strconv\<close>, \<^verbatim>\<open>utf8\<close> and \<^verbatim>\<open>net/http\<close> headers that the code calls, binary64
    rounding, \<^verbatim>\<open>json.Marshal\<close>; and three locales, \<open>bounded_log\<close> (a log that keeps its last entries),
    \<open>inv_machine\<close> and \<open>inv_relation\<close> (calls and steps that keep an invariant).
  \<^item> \<open>JsonRead\<close>, \<open>JsonRoundTrip\<close>: reading JSON as \<^verbatim>\<open>encoding/json\<close> does it, as an automaton with a
    stack and the nesting limit, and storing it into structs; what \<^verbatim>\<open>json.Marshal\<close> writes is read back.
  \<^item> \<open>Sha256\<close>, \<open>Aes_Gcm\<close>, \<open>Crypto\<close>: SHA-256, HMAC, AES-GCM as executable functions, and
    \<^verbatim>\<open>internal/crypto\<close>.  The locale \<open>secret_box\<close> is what its clients rely on.
  \<^item> \<open>Adapters\<close>: \<^verbatim>\<open>internal/adapters\<close>; the locales \<open>source_adapter\<close> and \<open>signed_adapter\<close> are interpreted
    for every provider.
  \<^item> \<open>Schema\<close>, \<open>Store\<close>, \<open>StoreInv\<close>, \<open>StoreAlerts\<close>, \<open>Stats\<close>, \<open>Metrics\<close>: \<^verbatim>\<open>internal/storage\<close> with the
    constraints of \<^verbatim>\<open>migrations/\<close>, \<^verbatim>\<open>internal/metrics\<close>.  Every method keeps \<open>app_inv\<close>, the constraints of
    the schema and three more properties the code maintains.
  \<^item> \<open>Config\<close>, \<open>NotifySettings\<close>, \<open>Notification\<close>: \<^verbatim>\<open>internal/config\<close>, \<^verbatim>\<open>internal/notifysettings\<close>,
    \<^verbatim>\<open>internal/notification\<close> (templates, SMTP dialogue, Slack calls); claims in \<open>NotificationClaims\<close>.
  \<^item> \<open>HttpClient\<close>: the HTTP client of the worker (\<^verbatim>\<open>runWorker\<close> of \<^verbatim>\<open>cmd/tuma/main.go\<close>), which follows redirects as
    \<^verbatim>\<open>net/http\<close> does by default; a call of \<^verbatim>\<open>Do\<close> is the list of its requests with their answers.
  \<^item> \<open>Delivery\<close>, \<open>DeliveryProps\<close>, \<open>DeliveryClaims\<close>: \<^verbatim>\<open>internal/workflow/delivery.go\<close>, activity by activity, with
    the outcomes Temporal can give an activity (it runs, is lost before or after it ran).
  \<^item> \<open>Ingest\<close>, \<open>IngestClaims\<close>: the ingestion handler and the connection cache of
    \<^verbatim>\<open>internal/api/server.go\<close>.
  \<^item> \<open>Handlers\<close>, \<open>AlertApi\<close>, \<open>Sink\<close>: the handlers of the console in \<^verbatim>\<open>internal/api\<close>.
  \<^item> \<open>RateLimit\<close>, \<open>Hub\<close>, \<open>Simulator\<close>, \<open>Playground\<close>, \<open>PlaygroundClaims\<close>: the playground of
    \<^verbatim>\<open>internal/api/playground.go\<close> and \<^verbatim>\<open>internal/playground\<close>; bootstraps that overlap, statement by statement.
  \<^item> \<open>Alerting\<close>, \<open>AlertingClaims\<close>, \<open>Workers\<close>: \<^verbatim>\<open>internal/alerting\<close>; an evaluation, and the evaluators of
    any number of workers that compete for the advisory lock, turn by turn.
  \<^item> \<open>Requests\<close>, \<open>JsonClaims\<close>: the JSON bodies of the requests, decoded into the structs of the
    handlers; what readers find in the messages and frames the program writes.
  \<^item> \<open>Concurrent\<close>: ingestion in its steps.  Requests that overlap take turns in any order, and
    between two turns the rest of the program may act.
  \<^item> \<open>Server\<close>, \<open>ServerInv\<close>, \<open>ConsoleClaims\<close>: the table of routes and the handling of one request.  The
    locale \<open>store_invariant\<close> names the writing methods of the store: a property of the tables
    that they keep is kept by every request.  Its extension \<open>events_invariant\<close> needs only the
    two methods that write events.
  \<^item> \<open>Startup\<close>, \<open>StartupClaims\<close>, \<open>Lifecycle\<close>: \<^verbatim>\<open>cmd/tuma/main.go\<close>, from the arguments to serving, and
    from serving to the end of the process, with the request log, the two tickers and the
    connections of the pool, whose closing the end of the process waits for.
  \<^item> \<open>Migrations\<close>: the files under \<^verbatim>\<open>migrations/\<close> as functions on the tables.  golang-migrate is not part of the
    repository: \<open>main\<close> takes \<^verbatim>\<open>m.Up()\<close> as a parameter, and the theorems that need it assume its documented
    behaviour \<open>migrate_db\<close>, which applies the pending files, each in a transaction, with a version and a dirty mark.
  \<^item> \<open>System\<close>: both processes over one database, as sequences of requests, activities,
    evaluations, purges and passing time.
  \<^item> \<open>Exposition\<close>: what a scrape of \<^verbatim>\<open>/metrics\<close> shows of what the two processes count.

  \<^bold>\<open>What is shown.\<close>  Security: only signed requests are accepted, sealing and opening are
  inverse, every stored payload stays sealed, the console is closed without a session, a
  secret is in force once it is set, credentials go over TLS only.  Delivery: a
  webhook is acknowledged only when stored, starts one workflow, and is posted to the destination
  unchanged; a run ends in a call with a 2xx answer or in an open issue, with the configured number
  of attempts and delays.  Alerts: an evaluation refines a two-state contract, and an alert is
  sent once for a breach, by however many workers.  Limits: the token bucket, the streams,
  the deliveries in flight, the logs and the playground stay within their bounds.  Startup: connecting to
  Temporal ends, a database of any version is brought to the current one, serving starts with
  the configured keys, sealed events and an administrator, and ends when the requests have been
  answered, or their time is up, and no connection of the pool is held.  Retention: nothing else
  removes events.  Concurrency: overlapping webhooks start one delivery, and a changed secret
  comes into force.
  Some theorems show where the code does not do what it seems to mean: a stored event whose
  workflow could not be started is never delivered, a redirect from POST to GET counts as a delivery,
  a handler that is stuck in a statement keeps the process from ending, overlapping bootstraps
  exceed the limit of the playground, a replay leaves no delivery row, the
  back-off overflows, two workers send the same alert after a lost session, an interval of zero
  ends the worker, a request under way revives an old secret, overlapping changes of a
  connection are lost, the rate limit trusts a header of the client, an email rule of an older
  version blocks a migration, the gauge of open issues shows those of the last start.

  \<^bold>\<open>Loops.\<close>  The delivery loop and the simulator's loop are total, by the attempts left.  The
  loop that dials Temporal may run forever as written and is a \<open>partial_function\<close>; it is
  proved to return.  The JSON reader is total, by the input left.  No fuel is used.  The endless
  loops (evaluation, retention, collector, streams) are their rounds; a run is a list of rounds
  or a path of a step relation.

  \<^bold>\<open>Not modelled.\<close>  The text form of UUIDs, Unicode normalisation, bcrypt, \<^verbatim>\<open>mail.ParseAddress\<close>, the
  formatting of times, the error texts of \<^verbatim>\<open>encoding/json\<close>, the aggregates and the numeric type of
  Postgres, Temporal's scheduling and the network are parameters, with what the theorems need
  of them as hypotheses.  Operations that hold a lock and statements of the database are
  atomic steps.  \<open>Concurrent\<close> interleaves
  ingestion with itself and with whole console requests, \<open>Workers\<close> the evaluators with any
  change of the database; the console handlers are not split into steps, apart from the update
  of a connection and the bootstrap of the playground.  The tracing, the log lines other than the request log, the user interface
  under \<^verbatim>\<open>web/\<close>, the deployment and the scripts are left out: they are input and output, or written
  in other languages.  Of the migrations the down files, which the program never applies, and
  the indexes are left out.
\<close>

section \<open>From the webhook to the destination\<close>

text \<open>
  C1. A webhook whose delivery was started reaches the destination as it came: after any
  sequence of requests, activities, evaluations and failures, until a purge removes the event,
  every call that an attempt for it makes is a POST of exactly the bytes of the webhook's body, and
  after it at most the same POST again or, once redirected by a 301, 302 or 303, GETs without a body.
\<close>

theorem webhook_end_to_end:
  assumes "hr_method q = ''POST''" "hr_path q = [''e'', path]"
    and "snd (handle (se_api S) ch q a) = a'"
    and "srv_started (plg_core (app_play a')) = srv_started (plg_core (app_play a)) @ [(wfID, i)]"
    and "store_enc (core_env (se_api S)) = Some e" "payload_enc (se_worker S) = Some e"
    and "app_inv (tbl (adb a))" and "Purge \<notin> set steps"
    and "u = fold (sys_run S) steps \<lparr>sys_app = a', sys_worker = w, sys_attempts = []\<rparr>"
  shows "\<exists>calls. w_sent (sys_worker (sys_run S (Act_Deliver i n) u)) = w_sent (sys_worker u) @ calls
     \<and> (\<forall>call \<in> set calls. carries (bs_bytes (hr_body q)) call)"
proof -
  let ?W = "se_worker S" and ?s = "\<lparr>sys_app = a', sys_worker = w, sys_attempts = []\<rparr>"
  have "path \<noteq> []"
    using assms(1-4) by (auto simp: handle_def Let_def find_ingest)
  then have a': "a' = snd (on_core AText (ingest (server_env.truncate (core_env (se_api S))) (cho_clk ch) (cho_nonces ch) path
        (hr_body q) (hr_headers q)) a)"
    using assms(1-3) by (simp add: handle_def Let_def find_ingest dispatch_def)
  obtain r c where g: "ingest (server_env.truncate (core_env (se_api S))) (cho_clk ch) (cho_nonces ch) path
        (hr_body q) (hr_headers q) (plg_core (app_play a)) = (r, c)" by fastforce
  have c: "srv_started c = srv_started (plg_core (app_play a)) @ [(wfID, i)]" "adb a' = srv_db c"
    using assms(4) g by (simp_all add: a' on_core_def adb_def)
  have "store_enc (server_env.truncate (core_env (se_api S))) = Some e" using assms(5) by simp
  from ingest_started [OF g c(1) this]
  obtain k where k: "holds_event e i k (bs_bytes (hr_body q)) (events (tbl (adb a')))" unfolding c(2) by blast
  have "app_inv (tbl (adb a'))"
    using db_inv.handle_keeps [OF refl, of "se_api S" ch q] assms(3,7) by (auto simp: keeps_app_def)
  then have u: "app_inv (tbl (adb (sys_app u)))" "holds_event e i k (bs_bytes (hr_body q)) (events (tbl (adb (sys_app u))))"
    using kept.sys_runs_events [OF assms(5), of ?s e i k "bs_bytes (hr_body q)" steps] k assms(8) by (simp_all add: assms(9))
  let ?w0 = "(sys_worker u)\<lparr>w_db := adb (sys_app u)\<rparr>"
  have "run_ok ?W i ?w0 ?w0" by (rule run_ok_refl) (use u(1) in simp)
  then have "run_ok ?W i ?w0 (sys_worker (sys_run S (Act_Deliver i n) u))"
    using ExecuteActivity_keeps [OF DeliverActivity_keeps] by (simp add: keeps_run_def in_worker_def Let_def)
  then obtain calls where "w_sent (sys_worker (sys_run S (Act_Deliver i n) u)) = w_sent (sys_worker u) @ calls"
    "\<forall>call \<in> set calls. faithful ?W i (tbl (adb (sys_app u))) call"
    by (auto simp: run_ok_def)
  then show ?thesis using faithful_body [OF _ u(2) assms(6) u(1)] by blast
qed

theorem webhook_end_to_end_witness:
  "\<exists>calls. w_sent (sys_worker (sys_run demo_senv_all (Act_Deliver 100 1) (fold (sys_run demo_senv_all) [Meanwhile 9 []]
        \<lparr>sys_app = snd (handle demo_api demo_choices demo_webhook demo_app), sys_worker = demo_worker, sys_attempts = []\<rparr>))) = calls
     \<and> (\<forall>call \<in> set calls. carries ''hello'' call)"
proof -
  let ?a = "snd (handle demo_api demo_choices demo_webhook demo_app)"
  let ?s = "\<lparr>sys_app = ?a, sys_worker = demo_worker, sys_attempts = []\<rparr>"
  let ?u = "fold (sys_run demo_senv_all) [Meanwhile 9 []] ?s"
  have "srv_started (plg_core (app_play ?a)) = srv_started (plg_core (app_play demo_app)) @ [(WorkflowID (\<lambda>i. replicate i (CHR ''x'')) 100, 100)]"
    using demo_started
    by (simp add: handle_def demo_webhook_def Let_def find_ingest dispatch_def on_core_def split_beta demo_api_def demo_choices_def
        demo_app_def) (simp add: demo_server_def)
  moreover have "w_sent (sys_worker ?u) = []" by (simp add: demo_worker_def)
  ultimately show ?thesis
    using webhook_end_to_end [of demo_webhook "''ab12cd34''" demo_senv_all demo_choices demo_app ?a _ 100
        "\<lparr>gcm_key = replicate 32 (CHR ''k'')\<rparr>" "[Meanwhile 9 []]" ?u demo_worker 1] demo_app_inv
    by (simp add: demo_webhook_def demo_senv_all_def demo_api_def demo_henv_def)
qed

section \<open>Payloads at rest\<close>

text \<open>
  C3. Once the API process has started, on a database of whatever earlier version whose sealed
  events open with the payload key, and whatever requests,
  activities, evaluations, purges and failures of the database follow: the invariant of the
  database holds, and every stored event is sealed and can be opened with the payload key.
\<close>

theorem payloads_at_rest:
  assumes "main B W t0 d0 = (API c enc pe a, d)" and "be_migrate_up B = migrate_db v False" and "upgradable pe v (tbl d0)"
    and "store_enc (core_env (se_api S)) = Some pe"
  shows "sys_inv pe (fold (sys_run S) steps \<lparr>sys_app = a, sys_worker = w, sys_attempts = []\<rparr>)"
proof -
  from startup_migrated [OF assms(1-3)] obtain d1 where d1: "runMigrations B (DatabaseURL c) d0 = (None, d1)" "app_inv (tbl d1)"
    "\<forall>r \<in> set (events (tbl d1)). \<exists>ev. opened pe r = Inr (Some ev)" by blast
  have "sys_inv pe \<lparr>sys_app = a, sys_worker = w, sys_attempts = []\<rparr>"
    using startup_serving [OF assms(1) d1] by (simp add: sys_inv_def)
  then show ?thesis using whole.run_inv [of S pe] assms(4) by blast
qed

theorem payloads_at_rest_witness:
  "\<exists>c enc pe a d. main demo_upgrade demo_dial 0 demo_fresh = (API c enc pe a, d)
     \<and> sys_inv pe (fold (sys_run demo_senv_all) [Purge, Request demo_choices
           \<lparr>hr_method = ''POST'', hr_path = [''e'', ''x''], hr_query = (\<lambda>_. []), hr_cookies = [], hr_headers = [], hr_remote = [],
            hr_body = \<lparr>bs_bytes = ''hello'', bs_fails = False\<rparr>\<rparr>, Meanwhile 9 [Refused ''down''], Evaluate]
         \<lparr>sys_app = a, sys_worker = demo_worker, sys_attempts = []\<rparr>)"
proof -
  obtain c enc pe s d where m: "main demo_upgrade demo_dial 0 demo_fresh = (API c enc pe s, d)"
    using demo_main demo_upgrade_main by metis
  obtain c' where "Load demo_getenv = Inr c'" "PayloadKey c' = replicate 32 (CHR ''k'')" using demo_Load by blast
  then have "gcm_key pe = replicate 32 (CHR ''k'')"
    using main_API [OF m] by (auto simp: demo_upgrade_def demo_boot_def dest: NewEncryptor_key)
  then have st: "store_enc (core_env (se_api demo_senv_all)) = Some pe"
    by (simp add: demo_senv_all_def demo_api_def demo_henv_def)
  have "be_migrate_up demo_upgrade = migrate_db 8 False" by (simp add: demo_upgrade_def)
  from payloads_at_rest [OF m this demo_upgradable st] m show ?thesis by blast
qed

end
